(* ===== verification/OrderedMap.thy ===== *)
theory OrderedMap
  imports Prelude
begin

section \<open>Ordered maps: the model of \<open>BTreeMap\<close>\<close>

text \<open>
  \<open>std::collections::BTreeMap\<close> as an association list with strictly increasing keys, so that
  the iteration order of the model is the iteration order of the code. The locale
  \<open>ordered_map\<close> is the contract the components rely on (what a lookup returns after an
  insertion or a removal, that the keys stay sorted); the lemmas proved in it hold of every
  component's tables through the interpretation \<open>btree\<close> below.
\<close>

type_synonym ('k, 'v) btree = "('k \<times> 'v) list"

definition bt_empty :: "('k, 'v) btree" where
  "bt_empty = []"

definition bt_get :: "('k, 'v) btree \<Rightarrow> 'k \<Rightarrow> 'v option" where
  "bt_get m k = map_of m k"

fun bt_insert :: "'k::linorder \<Rightarrow> 'v \<Rightarrow> ('k, 'v) btree \<Rightarrow> ('k, 'v) btree" where
  "bt_insert k v [] = [(k, v)]"
| "bt_insert k v ((k', v') # m) =
     (if k < k' then (k, v) # (k', v') # m
      else if k = k' then (k, v) # m
      else (k', v') # bt_insert k v m)"

definition bt_remove :: "'k \<Rightarrow> ('k, 'v) btree \<Rightarrow> ('k, 'v) btree" where
  "bt_remove k m = filter (\<lambda>p. fst p \<noteq> k) m"

definition bt_keys :: "('k, 'v) btree \<Rightarrow> 'k list" where
  "bt_keys m = map fst m"

definition bt_values :: "('k, 'v) btree \<Rightarrow> 'v list" where
  "bt_values m = map snd m"

definition bt_wf :: "('k::linorder, 'v) btree \<Rightarrow> bool" where
  "bt_wf m \<longleftrightarrow> sorted_wrt (<) (map fst m)"

subsection \<open>The contract\<close>

locale ordered_map =
  fixes empty :: "'m"
    and get :: "'m \<Rightarrow> 'k::linorder \<Rightarrow> 'v option"
    and insert :: "'k \<Rightarrow> 'v \<Rightarrow> 'm \<Rightarrow> 'm"
    and remove :: "'k \<Rightarrow> 'm \<Rightarrow> 'm"
    and keys :: "'m \<Rightarrow> 'k list"
    and wf :: "'m \<Rightarrow> bool"
  assumes get_empty: "get empty k = None"
    and get_insert: "get (insert k v m) k' = (if k' = k then Some v else get m k')"
    and get_remove: "get (remove k m) k' = (if k' = k then None else get m k')"
    and set_keys: "set (keys m) = {k. get m k \<noteq> None}"
    and sorted_keys: "wf m \<Longrightarrow> sorted_wrt (<) (keys m)"
    and wf_empty: "wf empty"
    and wf_insert: "wf m \<Longrightarrow> wf (insert k v m)"
    and wf_remove: "wf m \<Longrightarrow> wf (remove k m)"
begin

lemmas laws = get_empty get_insert get_remove

lemma distinct_keys: "wf m \<Longrightarrow> distinct (keys m)"
  using sorted_keys [of m] by (simp add: strict_sorted_iff)

lemma keys_insert_set: "set (keys (insert k v m)) = Set.insert k (set (keys m))"
  by (auto simp: set_keys get_insert)

lemma keys_remove_set: "set (keys (remove k m)) = set (keys m) - {k}"
  by (auto simp: set_keys get_remove)

lemma wf_fold_insert: "wf m \<Longrightarrow> wf (fold (\<lambda>x. insert (f x) (g x)) xs m)"
  by (induction xs arbitrary: m) (auto intro: wf_insert)

text \<open>Filling a map from a list with distinct keys makes every entry retrievable.\<close>

lemma get_fold_insert:
  "distinct (map f xs) \<Longrightarrow>
   get (fold (\<lambda>x. insert (f x) (g x)) xs m) k =
     (case find (\<lambda>x. f x = k) xs of Some x \<Rightarrow> Some (g x) | None \<Rightarrow> get m k)"
proof (induction xs arbitrary: m)
  case Nil
  then show ?case by simp
next
  case (Cons x xs)
  have "find (\<lambda>y. f y = f x) xs = None"
    using Cons.prems by (auto simp: find_None_iff image_iff dest: sym)
  with Cons show ?case by (auto simp: get_insert split: option.splits)
qed

text \<open>Two well-formed maps that answer every lookup alike list the same keys.\<close>

lemma keys_ext:
  assumes "wf m" "wf m'" and "\<And>k. get m k = get m' k"
  shows "keys m = keys m'"
proof -
  have "set (keys m) = set (keys m')"
    using assms(3) by (simp add: set_keys)
  with assms(1,2) show ?thesis
    by (intro strict_sorted_equal sorted_keys)
qed

end

subsection \<open>The association list keeps the contract\<close>

lemma map_of_bt_insert:
  "map_of (bt_insert k v m) k' = (if k' = k then Some v else map_of m k')"
  by (induction k v m rule: bt_insert.induct) auto

lemma set_fst_bt_insert [simp]: "fst ` set (bt_insert k v m) = insert k (fst ` set m)"
  by (induction k v m rule: bt_insert.induct) auto

lemma bt_wf_insert: "bt_wf m \<Longrightarrow> bt_wf (bt_insert k v m)"
proof (induction k v m rule: bt_insert.induct)
  case (1 k v)
  show ?case by (simp add: bt_wf_def)
next
  case (2 k v k' v' m)
  then have IH: "\<not> k < k' \<Longrightarrow> k \<noteq> k' \<Longrightarrow> bt_wf (bt_insert k v m)"
    by (simp add: bt_wf_def)
  have "\<forall>x \<in> set (map fst (bt_insert k v m)). x = k \<or> x \<in> set (map fst m)"
    using set_fst_bt_insert [of k v m] by (metis insertE list.set_map)
  with "2.prems" IH show ?case
    by (auto simp: bt_wf_def dest: less_trans)
qed

lemma bt_wf_remove: "bt_wf m \<Longrightarrow> bt_wf (bt_remove k m)"
  unfolding bt_wf_def bt_remove_def
  by (induction m) auto

interpretation btree: ordered_map bt_empty bt_get bt_insert bt_remove bt_keys bt_wf
proof unfold_locales
  show "set (bt_keys m) = {k. bt_get m k \<noteq> None}" for m :: "('a::linorder, 'b) btree"
    by (auto simp: bt_keys_def bt_get_def map_of_eq_None_iff)
  show "bt_get (bt_remove k m) k' = (if k' = k then None else bt_get m k')"
    for k k' and m :: "('a::linorder, 'b) btree"
    using map_of_filter_fst [of "\<lambda>x. x \<noteq> k" m k'] by (simp add: bt_get_def bt_remove_def)
qed (simp_all add: bt_empty_def bt_get_def map_of_bt_insert bt_wf_insert bt_wf_remove,
    simp_all add: bt_wf_def bt_keys_def)

text \<open>What is particular to the association list: a map is determined by its lookups.\<close>

lemma bt_ext:
  assumes wf: "bt_wf m" "bt_wf m'" and eq: "\<And>k. bt_get m k = bt_get m' k"
  shows "m = m'"
proof -
  have keys: "map fst m = map fst m'"
    using btree.keys_ext [OF assms] by (simp add: bt_keys_def)
  have "distinct (map fst m)" "distinct (map fst m')"
    using wf by (simp_all add: bt_wf_def strict_sorted_iff)
  moreover have "map_of m = map_of m'"
    using eq by (auto simp: bt_get_def)
  ultimately have "set m = set m'"
    by (simp add: map_of_inject_set)
  moreover have "inj_on fst (set m)"
    using \<open>distinct (map fst m)\<close> by (simp add: distinct_map)
  ultimately show ?thesis
    using keys by (intro map_inj_on [of fst]) simp_all
qed

lemma bt_get_mem: "bt_wf m \<Longrightarrow> bt_get m k = Some v \<longleftrightarrow> (k, v) \<in> set m"
  by (simp add: bt_get_def bt_wf_def strict_sorted_iff)

text \<open>A map whose values know their keys: its values in key order, found again by lookup.\<close>

lemma bt_values_by_key:
  assumes wf: "bt_wf m" and key: "\<And>k v. bt_get m k = Some v \<Longrightarrow> f v = k"
  shows "map f (bt_values m) = bt_keys m"
    and "v \<in> set (bt_values m) \<longleftrightarrow> bt_get m (f v) = Some v"
    and "sorted_wrt (<) (map f (bt_values m))"
    and "distinct (map f (bt_values m))"
proof -
  have entry: "(k, v) \<in> set m \<Longrightarrow> f v = k" for k v
    using key bt_get_mem [OF wf] by blast
  show keys: "map f (bt_values m) = bt_keys m"
    unfolding bt_values_def bt_keys_def map_map
    by (rule map_cong [OF refl]) (metis comp_apply entry prod.collapse)
  show "v \<in> set (bt_values m) \<longleftrightarrow> bt_get m (f v) = Some v"
  proof
    assume "v \<in> set (bt_values m)"
    then obtain k where "(k, v) \<in> set m"
      unfolding bt_values_def set_map by (rule imageE) (metis prod.collapse)
    with entry [OF this] show "bt_get m (f v) = Some v"
      by (simp add: bt_get_mem [OF wf])
  next
    assume "bt_get m (f v) = Some v"
    then have "(f v, v) \<in> set m" by (simp add: bt_get_mem [OF wf])
    from imageI [OF this, of snd] show "v \<in> set (bt_values m)"
      by (simp add: bt_values_def)
  qed
  show "sorted_wrt (<) (map f (bt_values m))" "distinct (map f (bt_values m))"
    unfolding keys using btree.sorted_keys [OF wf] btree.distinct_keys [OF wf] by simp_all
qed

end
