(* ===== verification/Kernel.thy ===== *)
theory Kernel
  imports OrderedMap "HOL-Library.Char_ord" "HOL-Library.List_Lexorder"
    "HOL-Library.Option_ord" "HOL-Library.Product_Lexorder"
begin

section \<open>Vocabulary of the crates the repository builds on\<close>

text \<open>
  The types of \<open>sim_kernel\<close> and \<open>sim_lib_stream_core\<close> that the sources construct, match or
  read fields of: symbols, expressions, errors, and the media and direction enumerations. Only
  the shape the sources use is fixed here. The behaviour of that external code (the
  context's capability check and effect ledger, the push stream, the expression accessors) is
  never defined in this development: it enters each definition that calls it as an argument,
  a record of functions declared below, and what a property needs of it is a named hypothesis.
\<close>

subsection \<open>Symbols\<close>

text \<open>
  \<open>Symbol\<close> has the public fields \<open>namespace\<close> and \<open>name\<close>; \<open>Symbol::new\<close> leaves the namespace
  empty (a slash in the name is not a separator: the cookbook recipe prints the device symbol
  \<open>Symbol::new("fake/data")\<close> with namespace \<open>nil\<close>), \<open>Symbol::qualified\<close> sets both.
\<close>

datatype symbol = Symbol (sym_namespace: "string option") (sym_name: string)

definition symbol_new :: "string \<Rightarrow> symbol" where
  "symbol_new n = Symbol None n"

definition symbol_qualified :: "string \<Rightarrow> string \<Rightarrow> symbol" where
  "symbol_qualified ns n = Symbol (Some ns) n"

text \<open>\<open>as_qualified_str\<close>, which is also how a symbol is displayed: \<open>namespace/name\<close>.\<close>

definition as_qualified_str :: "symbol \<Rightarrow> string" where
  "as_qualified_str s = (case sym_namespace s of None \<Rightarrow> sym_name s
     | Some ns \<Rightarrow> ns @ ''/'' @ sym_name s)"

lemma symbol_qualified_sel [simp]: "sym_namespace (symbol_qualified ns n) = Some ns" "sym_name (symbol_qualified ns n) = n"
  by (simp_all add: symbol_qualified_def)

lemma symbol_new_sel [simp]: "sym_namespace (symbol_new n) = None" "sym_name (symbol_new n) = n"
  by (simp_all add: symbol_new_def)

lemma symbol_qualified_inject [simp]: "symbol_qualified ns n = symbol_qualified ns' n' \<longleftrightarrow> ns = ns' \<and> n = n'"
  by (simp add: symbol_qualified_def)

lemma symbol_new_inject [simp]: "symbol_new n = symbol_new n' \<longleftrightarrow> n = n'"
  by (simp add: symbol_new_def)

lemma symbol_qualified_neq_new [simp]: "symbol_qualified ns n \<noteq> symbol_new n'" "symbol_new n' \<noteq> symbol_qualified ns n"
  by (simp_all add: symbol_qualified_def symbol_new_def)

text \<open>
  Symbols key the \<open>BTreeMap\<close>s, so they are ordered: by namespace, then by name, the order Rust
  derives for the two fields. No property depends on which linear order it is.
\<close>

instantiation symbol :: linorder
begin

definition less_eq_symbol :: "symbol \<Rightarrow> symbol \<Rightarrow> bool" where
  "less_eq_symbol s t \<longleftrightarrow> (sym_namespace s, sym_name s) \<le> (sym_namespace t, sym_name t)"

definition less_symbol :: "symbol \<Rightarrow> symbol \<Rightarrow> bool" where
  "less_symbol s t \<longleftrightarrow> (sym_namespace s, sym_name s) < (sym_namespace t, sym_name t)"

instance
  by standard
    (auto simp only: less_eq_symbol_def less_symbol_def less_le_not_le
      intro: order_trans symbol.expand dest!: antisym)

end

subsection \<open>Expressions\<close>

text \<open>
  The constructors of \<open>Expr\<close> that the sources build or match, and one for all the others,
  which they never look into.
\<close>

datatype expr =
    ENil
  | EBool bool
  | ENumber (number_domain: symbol) (number_canonical: string)
  | ESymbol symbol
  | EString string
  | EList "expr list"
  | EMap "(expr \<times> expr) list"
  | EOther nat

subsection \<open>Errors\<close>

text \<open>
  \<open>format!\<close> messages are kept as the list of their pieces, literal text and displayed values,
  so that two different messages stay different without a model of every \<open>Display\<close>.
\<close>

datatype piece =
    Lit string
  | Show_sym symbol
  | Debug_sym symbol
  | Show_num nat
  | Show_str string
  | Show_expr expr

type_synonym message = "piece list"

text \<open>A symbol displayed between single quotes.\<close>

definition quoted :: "symbol \<Rightarrow> message" where
  "quoted s = [Lit [CHR 0x27], Show_sym s, Lit [CHR 0x27]]"

text \<open>
  \<open>sim_kernel::Error\<close>: the variants the sources construct; the ones only the kernel itself
  returns (a denied capability, say) are \<open>KernelError\<close>.
\<close>

datatype error =
    Eval message
  | TypeMismatch string string
  | HostError message
  | KernelError nat

type_synonym 'a result = "error + 'a"

subsection \<open>Stream vocabulary\<close>

datatype stream_media = Pcm | Midi | Diagnostic | Data

datatype stream_direction = Source | Sink | DuplexStream

text \<open>\<open>StreamPacket\<close> wraps a payload per medium; the payloads are never looked into.\<close>

datatype 'p stream_packet =
    PcmPacket 'p
  | MidiPacket 'p
  | DiagnosticPacket 'p
  | DataPacket 'p

text \<open>\<open>StreamStats\<close>: the counters and flags the sources read or write.\<close>

record stream_stats =
  st_pushed :: u64
  st_accepted :: u64
  st_dropped_newest :: u64
  st_yielded :: u64
  st_closed :: bool
  st_cancelled :: bool

definition stats_default :: stream_stats where
  "stats_default = \<lparr>st_pushed = 0, st_accepted = 0, st_dropped_newest = 0, st_yielded = 0,
     st_closed = False, st_cancelled = False\<rparr>"

subsection \<open>The execution context\<close>

text \<open>
  What the sources call on \<open>Cx\<close>: \<open>require\<close> checks one capability, \<open>fresh_handle\<close> allocates a
  handle, \<open>resolve_effect\<close> records an effect and runs the handler, whose answer here is always
  the symbol given. Each may fail and each may change the context.
\<close>

type_synonym capability = string

record 'h effect =
  ef_handle :: 'h
  ef_kind :: symbol
  ef_subject :: symbol
  ef_object :: symbol
  ef_result :: symbol
  ef_requirements :: "capability list"

record ('cx, 'h) context_ops =
  cx_require :: "'cx \<Rightarrow> capability \<Rightarrow> unit result"
  cx_fresh_handle :: "'cx \<Rightarrow> 'h \<times> 'cx"
  cx_resolve :: "'cx \<Rightarrow> 'h effect \<Rightarrow> symbol \<Rightarrow> unit result \<times> 'cx"

text \<open>
  A small context used by the witnesses only: a set of granted capabilities, a handle counter
  and the list of recorded effects, oldest first.
\<close>

record demo_cx =
  dc_grants :: "capability list"
  dc_next :: nat
  dc_ledger :: "nat effect list"

definition demo_ops :: "(demo_cx, nat) context_ops" where
  "demo_ops = \<lparr>
     cx_require = (\<lambda>cx c. if c \<in> set (dc_grants cx) then Ok () else Err (KernelError 0)),
     cx_fresh_handle = (\<lambda>cx. (dc_next cx, cx\<lparr>dc_next := Suc (dc_next cx)\<rparr>)),
     cx_resolve = (\<lambda>cx e _. (Ok (), cx\<lparr>dc_ledger := dc_ledger cx @ [e]\<rparr>))\<rparr>"

end
