(* ===== verification/Ring.thy ===== *)
theory Ring
  imports Kernel
begin

section \<open>The process-site ring (\<open>src/ring.rs\<close>)\<close>

text \<open>
  \<open>ProcessSharedRing\<close>: a preallocated circular buffer with a head index, a length, a closed flag
  and running statistics, at the width of \<open>usize\<close> and \<open>u64\<close>. Every operation answers an option,
  \<open>None\<close> for a panic. \<open>ring_abs\<close> reads the ring as a bounded queue, the specification
  \<open>channel\<close>; the locale \<open>channel_impl\<close> says what it means to implement that specification, and
  the ring is interpreted in it.
\<close>

subsection \<open>State and operations\<close>

datatype 'a ring_push = Accepted | DroppedNewest 'a | Closed 'a

record ring_snapshot =
  snap_capacity :: usize
  snap_len :: usize
  snap_allocated_slots :: usize

text \<open>\<open>ring_allocated\<close> is the capacity of the backing \<open>Vec\<close>, at least the number of slots.\<close>

record 'a ring =
  ring_slots :: "'a option list"
  ring_allocated :: usize
  ring_head :: usize
  ring_len :: usize
  ring_closed :: bool
  ring_stats :: stream_stats

definition ring_capacity :: "'a ring \<Rightarrow> usize" where
  "ring_capacity r = vec_len (ring_slots r)"

text \<open>\<open>alloc\<close> is what \<open>Vec\<close> allocates for a requested number of slots.\<close>

definition with_capacity :: "(usize \<Rightarrow> usize) \<Rightarrow> usize \<Rightarrow> 'a ring result" where
  "with_capacity alloc capacity =
     and_then (ensure (capacity \<noteq> 0)
                 (Eval [Lit ''process ring capacity must be greater than zero'']))
       (\<lambda>_. Ok \<lparr>ring_slots = replicate (unat capacity) None, ring_allocated = alloc capacity,
                ring_head = 0, ring_len = 0, ring_closed = False, ring_stats = stats_default\<rparr>)"

definition ring_try_push :: "'a \<Rightarrow> 'a ring \<Rightarrow> ('a ring_push \<times> 'a ring) option" where
  "ring_try_push item r =
     (let s = (ring_stats r)\<lparr>st_pushed := sat_add (st_pushed (ring_stats r)) 1\<rparr>
      in if ring_closed r then
           Some (Closed item, r\<lparr>ring_stats := s\<lparr>st_closed := True\<rparr>\<rparr>)
         else if ring_len r = ring_capacity r then
           Some (DroppedNewest item,
                 r\<lparr>ring_stats := s\<lparr>st_dropped_newest := sat_add (st_dropped_newest s) 1\<rparr>\<rparr>)
         else do {
           sum \<leftarrow> checked_add (ring_head r) (ring_len r);
           tail \<leftarrow> checked_rem sum (ring_capacity r);
           slots \<leftarrow> vec_set (ring_slots r) tail (Some item);
           len \<leftarrow> checked_add (ring_len r) 1;
           Some (Accepted, r\<lparr>ring_slots := slots, ring_len := len,
                             ring_stats := s\<lparr>st_accepted := sat_add (st_accepted s) 1\<rparr>\<rparr>)
         })"

definition ring_try_pop :: "'a ring \<Rightarrow> ('a option \<times> 'a ring) option" where
  "ring_try_pop r =
     (if ring_len r = 0 then Some (None, r)
      else do {
        item \<leftarrow> vec_get (ring_slots r) (ring_head r);
        slots \<leftarrow> vec_set (ring_slots r) (ring_head r) None;
        next \<leftarrow> checked_add (ring_head r) 1;
        head \<leftarrow> checked_rem next (ring_capacity r);
        Some (item, r\<lparr>ring_slots := slots, ring_head := head, ring_len := ring_len r - 1,
                      ring_stats := (if item \<noteq> None
                        then (ring_stats r)\<lparr>st_yielded := sat_add (st_yielded (ring_stats r)) 1\<rparr>
                        else ring_stats r)\<rparr>)
      })"

definition ring_close :: "'a ring \<Rightarrow> 'a ring" where
  "ring_close r = r\<lparr>ring_closed := True, ring_stats := (ring_stats r)\<lparr>st_closed := True\<rparr>\<rparr>"

text \<open>The loop of \<open>cancel\<close>: every pop that yields an item shortens the ring.\<close>

lemma ring_try_pop_len:
  "ring_try_pop r = Some (Some x, r') \<Longrightarrow> unat (ring_len r') < unat (ring_len r)"
  by (auto simp: ring_try_pop_def unat_minus_one unat_gt_0 split: if_splits bind_splits)

function ring_pop_all :: "'a ring \<Rightarrow> 'a ring option" where
  "ring_pop_all r = (case ring_try_pop r of
       None \<Rightarrow> None
     | Some (None, r') \<Rightarrow> Some r'
     | Some (Some _, r') \<Rightarrow> ring_pop_all r')"
  by pat_completeness auto
termination
  by (relation "measure (\<lambda>r. unat (ring_len r))") (auto dest: ring_try_pop_len)

declare ring_pop_all.simps [simp del]

definition ring_cancel :: "'a ring \<Rightarrow> 'a ring option" where
  "ring_cancel r = do {
     r' \<leftarrow> ring_pop_all r;
     Some (r'\<lparr>ring_closed := True,
              ring_stats := (ring_stats r')\<lparr>st_closed := True, st_cancelled := True\<rparr>\<rparr>)
   }"

definition ring_is_empty :: "'a ring \<Rightarrow> bool" where
  "ring_is_empty r \<longleftrightarrow> ring_len r = 0"

definition ring_snapshot_of :: "'a ring \<Rightarrow> ring_snapshot" where
  "ring_snapshot_of r = \<lparr>snap_capacity = ring_capacity r, snap_len = ring_len r,
     snap_allocated_slots = ring_allocated r\<rparr>"

definition snap_is_empty :: "ring_snapshot \<Rightarrow> bool" where
  "snap_is_empty s \<longleftrightarrow> snap_len s = 0"

text \<open>One call on the ring, with what it returns.\<close>

datatype 'a ring_op = Push 'a | Pop | Close | Cancel

datatype 'a ring_out = Pushed "'a ring_push" | Popped "'a option" | Done

fun ring_step :: "'a ring_op \<Rightarrow> 'a ring \<Rightarrow> ('a ring_out \<times> 'a ring) option" where
  "ring_step (Push x) r = map_option (\<lambda>(o1, r'). (Pushed o1, r')) (ring_try_push x r)"
| "ring_step Pop r = map_option (\<lambda>(o1, r'). (Popped o1, r')) (ring_try_pop r)"
| "ring_step Close r = Some (Done, ring_close r)"
| "ring_step Cancel r = map_option (\<lambda>r'. (Done, r')) (ring_cancel r)"

subsection \<open>Specification: a bounded channel\<close>

text \<open>A queue of at most \<open>ch_bound\<close> items that drops what does not fit and can be closed.\<close>

record 'a channel =
  ch_items :: "'a list"
  ch_bound :: nat
  ch_closed :: bool

fun channel_step :: "'a ring_op \<Rightarrow> 'a channel \<Rightarrow> 'a ring_out \<times> 'a channel" where
  "channel_step (Push x) c =
     (if ch_closed c then (Pushed (Closed x), c)
      else if length (ch_items c) = ch_bound c then (Pushed (DroppedNewest x), c)
      else (Pushed Accepted, c\<lparr>ch_items := ch_items c @ [x]\<rparr>))"
| "channel_step Pop c =
     (case ch_items c of [] \<Rightarrow> (Popped None, c) | x # xs \<Rightarrow> (Popped (Some x), c\<lparr>ch_items := xs\<rparr>))"
| "channel_step Close c = (Done, c\<lparr>ch_closed := True\<rparr>)"
| "channel_step Cancel c = (Done, c\<lparr>ch_items := [], ch_closed := True\<rparr>)"

text \<open>The items a run accepts and the items it hands out, in order.\<close>

fun accepted_items :: "'a ring_op list \<Rightarrow> 'a ring_out list \<Rightarrow> 'a list" where
  "accepted_items (Push x # ops) (Pushed Accepted # outs) = x # accepted_items ops outs"
| "accepted_items (op # ops) (out # outs) = accepted_items ops outs"
| "accepted_items _ _ = []"

definition popped_items :: "'a ring_out list \<Rightarrow> 'a list" where
  "popped_items outs = concat (map (\<lambda>out. case out of Popped (Some x) \<Rightarrow> [x] | _ \<Rightarrow> []) outs)"

lemma popped_items_simps [simp]:
  "popped_items [] = []"
  "popped_items (Popped (Some x) # outs) = x # popped_items outs"
  "popped_items (Popped None # outs) = popped_items outs"
  "popped_items (Pushed p # outs) = popped_items outs"
  "popped_items (Done # outs) = popped_items outs"
  by (simp_all add: popped_items_def)

primrec channel_run :: "'a ring_op list \<Rightarrow> 'a channel \<Rightarrow> 'a ring_out list \<times> 'a channel" where
  "channel_run [] c = ([], c)"
| "channel_run (op # ops) c =
     (let (out, c') = channel_step op c; (outs, c'') = channel_run ops c' in (out # outs, c''))"

lemma channel_run_fifo:
  "channel_run ops c = (outs, c') \<Longrightarrow> Cancel \<notin> set ops \<Longrightarrow>
   ch_items c @ accepted_items ops outs = popped_items outs @ ch_items c'"
proof (induction ops arbitrary: c outs c')
  case Nil
  then show ?case by (simp add: popped_items_def)
next
  case (Cons op ops)
  obtain out c1 outs' where *: "channel_step op c = (out, c1)" "channel_run ops c1 = (outs', c')"
    "outs = out # outs'"
    using Cons.prems(1) by (auto simp: Let_def split: prod.splits)
  have IH: "ch_items c1 @ accepted_items ops outs' = popped_items outs' @ ch_items c'"
    using Cons.IH [OF *(2)] Cons.prems(2) by simp
  show ?case
  proof (cases op)
    case (Push x)
    with * IH show ?thesis by (auto split: if_splits)
  next
    case Pop
    with * IH show ?thesis by (auto split: list.splits)
  next
    case Close
    with * IH show ?thesis by auto
  next
    case Cancel
    with Cons.prems(2) show ?thesis by simp
  qed
qed

lemma channel_step_bounded:
  "channel_step op c = (out, c') \<Longrightarrow> length (ch_items c) \<le> ch_bound c \<Longrightarrow>
   ch_bound c' = ch_bound c \<and> length (ch_items c') \<le> ch_bound c' \<and> (ch_closed c \<longrightarrow> ch_closed c')"
  by (cases op) (auto split: if_splits list.splits)

subsection \<open>The contract of an implementation\<close>

text \<open>
  \<open>step\<close> implements the channel when, from a good state, it does not panic, stays good and
  answers what the channel answers on the abstract state.
\<close>

locale channel_impl =
  fixes step :: "'a ring_op \<Rightarrow> 's \<Rightarrow> ('a ring_out \<times> 's) option"
    and abs :: "'s \<Rightarrow> 'a channel"
    and good :: "'s \<Rightarrow> bool"
  assumes simulates: "good s \<Longrightarrow> \<exists>out s'. step op s = Some (out, s') \<and> good s' \<and>
      channel_step op (abs s) = (out, abs s')"
    and bounded: "good s \<Longrightarrow> length (ch_items (abs s)) \<le> ch_bound (abs s)"
begin

lemma run_simulates:
  "good s \<Longrightarrow> \<exists>outs s'. run_steps step ops s = Some (outs, s') \<and> good s' \<and>
     channel_run ops (abs s) = (outs, abs s')"
proof (induction ops arbitrary: s)
  case Nil
  then show ?case by simp
next
  case (Cons op ops)
  obtain out s1 where 1: "step op s = Some (out, s1)" "good s1"
    "channel_step op (abs s) = (out, abs s1)"
    using simulates [OF Cons.prems] by blast
  obtain outs s2 where "run_steps step ops s1 = Some (outs, s2)" "good s2"
    "channel_run ops (abs s1) = (outs, abs s2)"
    using Cons.IH [OF 1(2)] by blast
  with 1 show ?case by auto
qed

lemma run_fifo:
  assumes "good s" "run_steps step ops s = Some (outs, s')" "Cancel \<notin> set ops"
  shows "ch_items (abs s) @ accepted_items ops outs = popped_items outs @ ch_items (abs s')"
  using run_simulates [OF assms(1), of ops] assms(2,3) by (auto dest: channel_run_fifo)

lemma run_bounded:
  assumes "good s" "run_steps step ops s = Some (outs, s')"
  shows "length (ch_items (abs s')) \<le> ch_bound (abs s')"
  using run_simulates [OF assms(1), of ops] assms(2) by (auto intro: bounded)

end

subsection \<open>The ring implements the channel\<close>

definition ring_abs :: "'a ring \<Rightarrow> 'a channel" where
  "ring_abs r = \<lparr>
     ch_items = map (\<lambda>i. the (ring_slots r ! ((unat (ring_head r) + i) mod length (ring_slots r))))
                  [0..<unat (ring_len r)],
     ch_bound = length (ring_slots r),
     ch_closed = ring_closed r\<rparr>"

text \<open>
  The representation invariant: at least one slot and no more than a \<open>Vec\<close> can hold, the
  head inside the slots, and the occupied slots are the \<open>len\<close> ones from the head on.
\<close>

definition ring_wf :: "'a ring \<Rightarrow> bool" where
  "ring_wf r \<longleftrightarrow>
     0 < length (ring_slots r) \<and> length (ring_slots r) < 2 ^ 63 \<and>
     unat (ring_head r) < length (ring_slots r) \<and>
     unat (ring_len r) \<le> length (ring_slots r) \<and>
     (\<forall>i < length (ring_slots r).
        ring_slots r ! ((unat (ring_head r) + i) mod length (ring_slots r)) \<noteq> None
        \<longleftrightarrow> i < unat (ring_len r))"

lemma ring_wf_capacity:
  assumes "ring_wf r"
  shows "unat (ring_capacity r) = length (ring_slots r)" "ring_capacity r \<noteq> 0"
proof -
  show 1: "unat (ring_capacity r) = length (ring_slots r)"
    using assms by (simp add: ring_capacity_def ring_wf_def unat_vec_len)
  then show "ring_capacity r \<noteq> 0"
    using assms by (auto simp: ring_wf_def)
qed

lemma ring_wf_with_capacity:
  "with_capacity alloc n = Ok r \<Longrightarrow> unat n < 2 ^ 63 \<Longrightarrow> ring_wf r"
  using unat_gt_0 [of n] by (auto simp: with_capacity_def ring_wf_def result_simps)

text \<open>Pushing into a ring that is open and not full writes the slot after the last item.\<close>

lemma ring_push_accepts:
  assumes wf: "ring_wf r" and opn: "\<not> ring_closed r" and room: "ring_len r \<noteq> ring_capacity r"
  shows "\<exists>r'. ring_try_push x r = Some (Accepted, r') \<and> ring_wf r' \<and>
    ring_abs r' = (ring_abs r)\<lparr>ch_items := ch_items (ring_abs r) @ [x]\<rparr>"
proof -
  define c where "c = length (ring_slots r)"
  define h where "h = unat (ring_head r)"
  define n where "n = unat (ring_len r)"
  have c: "0 < c" "c < 2 ^ 63" "h < c" "unat (ring_capacity r) = c"
    using wf ring_wf_capacity [OF wf] by (auto simp: ring_wf_def c_def h_def)
  have occ: "i < c \<Longrightarrow> ring_slots r ! ((h + i) mod c) \<noteq> None \<longleftrightarrow> i < n" for i
    using wf by (auto simp: ring_wf_def c_def h_def n_def)
  have n: "n < c"
    using wf room c(4) by (auto simp: ring_wf_def c_def n_def word_unat_eq_iff)
  define t where "t = (h + n) mod c"
  have t: "t < c" using c by (simp add: t_def)
  have sum: "checked_add (ring_head r) (ring_len r) = Some (ring_head r + ring_len r)"
    "unat (ring_head r + ring_len r) = h + n"
    using c n by (auto simp: checked_add_def h_def n_def unat_word_ariths)
  have rem: "checked_rem (ring_head r + ring_len r) (ring_capacity r)
      = Some ((ring_head r + ring_len r) mod ring_capacity r)"
    "unat ((ring_head r + ring_len r) mod ring_capacity r) = t"
    using ring_wf_capacity [OF wf] sum(2) by (simp_all add: checked_rem_def unat_mod t_def c_def)
  have len: "checked_add (ring_len r) 1 = Some (ring_len r + 1)" "unat (ring_len r + 1) = Suc n"
    using c n by (auto simp: checked_add_def n_def unat_word_ariths)
  let ?slots = "(ring_slots r)[t := Some x]"
  let ?r = "r\<lparr>ring_slots := ?slots, ring_len := ring_len r + 1, ring_stats := (ring_stats r)\<lparr>
      st_pushed := sat_add (st_pushed (ring_stats r)) 1,
      st_accepted := sat_add (st_accepted (ring_stats r)) 1\<rparr>\<rparr>"
  have push: "ring_try_push x r = Some (Accepted, ?r)"
    using opn room sum rem len t by (simp add: ring_try_push_def vec_set_def c_def)
  have slot: "?slots ! ((h + i) mod c) = (if i = n then Some x else ring_slots r ! ((h + i) mod c))"
    if "i < c" for i
    using that n t mod_offset_inj [of i c n h] by (auto simp: nth_list_update t_def c_def)
  have "ring_wf ?r"
    using c n len(2) occ slot by (auto simp: ring_wf_def c_def h_def n_def less_Suc_eq)
  moreover have "ring_abs ?r = (ring_abs r)\<lparr>ch_items := ch_items (ring_abs r) @ [x]\<rparr>"
    using n len(2) slot by (auto simp: ring_abs_def c_def h_def n_def)
  ultimately show ?thesis using push by blast
qed

text \<open>Popping from a ring that is not empty takes the item under the head.\<close>

text \<open>A slot of the buffer, counted from the head, before and after the head is emptied and moved on.\<close>

lemma slot_after_pop:
  assumes "h < length slots" "i < length slots"
  shows "slots[h := None] ! ((Suc h mod length slots + i) mod length slots) =
    (if i = length slots - 1 then None else slots ! ((h + Suc i) mod length slots))"
proof -
  define c where "c = length slots"
  have c: "0 < c" "h < c" "i < c"
    using assms unfolding c_def by linarith+
  have "(Suc h mod c + i) mod c = (h + Suc i) mod c"
    by (simp add: mod_simps)
  moreover have "(h + Suc i) mod c = h \<longleftrightarrow> i = c - 1"
    using c mod_offset_inj [of "Suc i" c 0 h] by (cases "Suc i = c") auto
  ultimately show ?thesis
    using c unfolding c_def [symmetric] by (auto simp: nth_list_update c_def)
qed

definition ring_popped :: "'a ring \<Rightarrow> 'a ring" where
  "ring_popped r = r\<lparr>ring_slots := (ring_slots r)[unat (ring_head r) := None],
     ring_head := (ring_head r + 1) mod ring_capacity r, ring_len := ring_len r - 1,
     ring_stats := (ring_stats r)\<lparr>st_yielded := sat_add (st_yielded (ring_stats r)) 1\<rparr>\<rparr>"

lemma ring_try_pop_some:
  assumes wf: "ring_wf r" and ne: "ring_len r \<noteq> 0"
  shows "ring_try_pop r = Some (Some (the (ring_slots r ! unat (ring_head r))), ring_popped r)"
    and "ring_slots r ! unat (ring_head r) \<noteq> None"
    and "unat (ring_head (ring_popped r)) = Suc (unat (ring_head r)) mod length (ring_slots r)"
    and "unat (ring_len (ring_popped r)) = unat (ring_len r) - 1"
proof -
  have c: "0 < length (ring_slots r)" "length (ring_slots r) < 2 ^ 63" "unat (ring_head r) < length (ring_slots r)"
      "unat (ring_capacity r) = length (ring_slots r)"
    using wf ring_wf_capacity [OF wf] by (auto simp: ring_wf_def)
  have nxt: "checked_add (ring_head r) 1 = Some (ring_head r + 1)" "unat (ring_head r + 1) = Suc (unat (ring_head r))"
    using c by (auto simp: checked_add_def unat_word_ariths)
  have rem: "checked_rem (ring_head r + 1) (ring_capacity r) = Some ((ring_head r + 1) mod ring_capacity r)"
    using ring_wf_capacity [OF wf] by (simp add: checked_rem_def)
  show some: "ring_slots r ! unat (ring_head r) \<noteq> None"
    using wf ne c(3) unfolding ring_wf_def by (metis add.right_neutral mod_less not_gr_zero unat_eq_zero c(1))
  then show "ring_try_pop r = Some (Some (the (ring_slots r ! unat (ring_head r))), ring_popped r)"
    using ne c nxt rem by (auto simp: ring_try_pop_def vec_get_def vec_set_def ring_popped_def)
  show "unat (ring_head (ring_popped r)) = Suc (unat (ring_head r)) mod length (ring_slots r)"
    using c(4) nxt(2) by (simp add: ring_popped_def unat_mod)
  show "unat (ring_len (ring_popped r)) = unat (ring_len r) - 1"
    using ne by (simp add: ring_popped_def unat_minus_one)
qed

lemma ring_pop_takes:
  assumes wf: "ring_wf r" and ne: "ring_len r \<noteq> 0"
  shows "\<exists>r' x. ring_try_pop r = Some (Some x, r') \<and> ring_wf r' \<and>
    ch_items (ring_abs r) = x # ch_items (ring_abs r') \<and>
    ring_abs r' = (ring_abs r)\<lparr>ch_items := ch_items (ring_abs r')\<rparr>"
proof -
  note pop = ring_try_pop_some [OF wf ne]
  define c where "c = length (ring_slots r)"
  define h where "h = unat (ring_head r)"
  define n where "n = unat (ring_len r)"
  have c: "0 < c" "c < 2 ^ 63" "h < c" "0 < n" "n \<le> c"
    using wf ne by (auto simp: ring_wf_def c_def h_def n_def unat_gt_0)
  have occ: "i < c \<Longrightarrow> ring_slots r ! ((h + i) mod c) \<noteq> None \<longleftrightarrow> i < n" for i
    using wf by (auto simp: ring_wf_def c_def h_def n_def)
  have slots: "ring_slots (ring_popped r) = (ring_slots r)[h := None]"
    by (simp add: ring_popped_def h_def)
  have slot: "(ring_slots r)[h := None] ! ((Suc h mod c + i) mod c) =
      (if i = c - 1 then None else ring_slots r ! ((h + Suc i) mod c))" if "i < c" for i
    using slot_after_pop [of h "ring_slots r" i] c that by (simp add: c_def)
  have "(ring_slots r)[h := None] ! ((Suc h mod c + i) mod c) \<noteq> None \<longleftrightarrow> i < n - 1" if "i < c" for i
    using that c occ [of "Suc i"] slot [OF that] by (cases "i = c - 1") (simp_all, linarith?)
  then have "ring_wf (ring_popped r)"
    using c pop(3,4) by (simp add: ring_wf_def slots c_def h_def n_def)
  moreover have "ch_items (ring_abs r) = the (ring_slots r ! h) # ch_items (ring_abs (ring_popped r))"
  proof -
    have "ch_items (ring_abs r) = map (\<lambda>i. the (ring_slots r ! ((h + i) mod c))) [0..<Suc (n - 1)]"
      using c by (simp add: ring_abs_def c_def h_def n_def)
    also have "\<dots> = the (ring_slots r ! h) # map (\<lambda>i. the (ring_slots r ! ((h + Suc i) mod c))) [0..<n - 1]"
      using c(1,3) by (simp add: upt_conv_Cons map_Suc_upt [symmetric] o_def del: upt_Suc)
    also have "map (\<lambda>i. the (ring_slots r ! ((h + Suc i) mod c))) [0..<n - 1] = ch_items (ring_abs (ring_popped r))"
      using c slot pop(3,4) by (auto simp: ring_abs_def slots c_def [symmetric] h_def [symmetric] n_def [symmetric])
    finally show ?thesis .
  qed
  moreover have "ring_abs (ring_popped r) = (ring_abs r)\<lparr>ch_items := ch_items (ring_abs (ring_popped r))\<rparr>"
    by (simp add: ring_abs_def ring_popped_def)
  ultimately show ?thesis
    using pop(1) unfolding h_def by blast
qed

text \<open>Draining takes every item, one pop after the other, and always returns.\<close>

lemma ring_pop_all_drains:
  "ring_wf r \<Longrightarrow> \<exists>r'. ring_pop_all r = Some r' \<and> ring_wf r' \<and>
     ring_abs r' = (ring_abs r)\<lparr>ch_items := []\<rparr>"
proof (induction r rule: ring_pop_all.induct)
  case (1 r)
  show ?case
  proof (cases "ring_len r = 0")
    case True
    then have "ring_try_pop r = Some (None, r)" by (simp add: ring_try_pop_def)
    with True 1(2) show ?thesis by (simp add: ring_pop_all.simps [of r] ring_abs_def)
  next
    case False
    then obtain r1 x where r1: "ring_try_pop r = Some (Some x, r1)" "ring_wf r1"
      "ring_abs r1 = (ring_abs r)\<lparr>ch_items := ch_items (ring_abs r1)\<rparr>"
      using ring_pop_takes [OF 1(2)] by blast
    obtain r2 where "ring_pop_all r1 = Some r2" "ring_wf r2"
      "ring_abs r2 = (ring_abs r1)\<lparr>ch_items := []\<rparr>"
      using 1(1) [OF r1(1) refl refl r1(2)] by blast
    moreover have "(ring_abs r1)\<lparr>ch_items := []\<rparr> = (ring_abs r)\<lparr>ch_items := []\<rparr>"
      by (subst r1(3)) simp
    ultimately show ?thesis
      using r1(1) by (simp add: ring_pop_all.simps [of r])
  qed
qed

lemma ring_abs_sel [simp]:
  "ch_bound (ring_abs r) = length (ring_slots r)"
  "ch_closed (ring_abs r) = ring_closed r"
  "length (ch_items (ring_abs r)) = unat (ring_len r)"
  by (simp_all add: ring_abs_def)

lemma ring_abs_stats [simp]:
  "ring_abs (r\<lparr>ring_stats := s\<rparr>) = ring_abs r" "ring_wf (r\<lparr>ring_stats := s\<rparr>) = ring_wf r"
  by (simp_all add: ring_abs_def ring_wf_def)

lemma ring_abs_closed [simp]:
  "ring_abs (r\<lparr>ring_closed := b\<rparr>) = (ring_abs r)\<lparr>ch_closed := b\<rparr>"
  "ring_wf (r\<lparr>ring_closed := b\<rparr>) = ring_wf r"
  by (simp_all add: ring_abs_def ring_wf_def)

lemma ring_full_iff:
  "ring_wf r \<Longrightarrow> ring_len r = ring_capacity r \<longleftrightarrow> unat (ring_len r) = length (ring_slots r)"
  using ring_wf_capacity(1) [of r] by (simp add: word_unat_eq_iff)

lemma ring_step_simulates:
  assumes wf: "ring_wf r"
  shows "\<exists>out r'. ring_step op r = Some (out, r') \<and> ring_wf r' \<and>
    channel_step op (ring_abs r) = (out, ring_abs r')"
proof (cases op)
  case (Push x)
  show ?thesis
  proof (cases "ring_closed r \<or> ring_len r = ring_capacity r")
    case True
    with Push wf show ?thesis
      by (auto simp: ring_try_push_def Let_def ring_full_iff)
  next
    case False
    with Push wf ring_push_accepts [OF wf, of x] show ?thesis
      by (auto simp: ring_full_iff)
  qed
next
  case Pop
  show ?thesis
  proof (cases "ring_len r = 0")
    case True
    with Pop wf show ?thesis
      by (simp add: ring_try_pop_def) (simp add: ring_abs_def)
  next
    case False
    with Pop ring_pop_takes [OF wf] show ?thesis
      by (force split: list.splits)
  qed
next
  case Close
  with wf show ?thesis by (simp add: ring_close_def)
next
  case Cancel
  with ring_pop_all_drains [OF wf] show ?thesis
    by (auto simp: ring_cancel_def)
qed

interpretation process_ring: channel_impl ring_step ring_abs ring_wf
proof unfold_locales
  show "\<exists>out r'. ring_step op r = Some (out, r') \<and> ring_wf r' \<and>
      channel_step op (ring_abs r) = (out, ring_abs r')" if "ring_wf r" for op and r :: "'a ring"
    using that by (rule ring_step_simulates)
  show "length (ch_items (ring_abs r)) \<le> ch_bound (ring_abs r)" if "ring_wf r" for r :: "'a ring"
    using that by (simp add: ring_wf_def)
qed

subsection \<open>Statistics\<close>

text \<open>
  As long as the push counter has not reached the top of \<open>u64\<close>, no counter has saturated and
  the counters account for every item: what was accepted has been yielded or is still buffered,
  and every push to an open ring was accepted or dropped.
\<close>

definition ring_stats_ok :: "'a ring \<Rightarrow> bool" where
  "ring_stats_ok r \<longleftrightarrow> unat (st_pushed (ring_stats r)) < 2 ^ 64 - 1 \<longrightarrow>
     unat (st_accepted (ring_stats r)) = unat (st_yielded (ring_stats r)) + unat (ring_len r) \<and>
     unat (st_accepted (ring_stats r)) + unat (st_dropped_newest (ring_stats r))
       \<le> unat (st_pushed (ring_stats r)) \<and>
     (\<not> ring_closed r \<longrightarrow>
        unat (st_accepted (ring_stats r)) + unat (st_dropped_newest (ring_stats r))
          = unat (st_pushed (ring_stats r)))"

lemma ring_push_stats:
  assumes wf: "ring_wf r" and ok: "ring_stats_ok r" and push: "ring_try_push x r = Some (o1, r')"
  shows "ring_stats_ok r'"
proof -
  have "unat (ring_len r) < 2 ^ 63" using wf by (simp add: ring_wf_def)
  then have len: "unat (ring_len r + 1) = Suc (unat (ring_len r))"
    by (simp add: unat_word_ariths)
  show ?thesis
    using ok push
    by (auto simp: ring_try_push_def Let_def ring_stats_ok_def unat_sat_add64 len checked_add_def
        split: if_splits bind_splits)
qed

lemma ring_pop_stats:
  assumes wf: "ring_wf r" and ok: "ring_stats_ok r" and pop: "ring_try_pop r = Some (o1, r')"
  shows "ring_stats_ok r'"
proof (cases "ring_len r = 0")
  case True
  with ok pop show ?thesis by (simp add: ring_try_pop_def)
next
  case False
  then have "unat (ring_len r - 1) = unat (ring_len r) - 1" "0 < unat (ring_len r)"
    by (simp_all add: unat_minus_one unat_gt_0)
  moreover have "o1 \<noteq> None"
    using ring_pop_takes [OF wf False] pop by auto
  ultimately show ?thesis
    using ok pop unat_less_2p64 [of "st_accepted (ring_stats r)"]
    by (auto simp: ring_try_pop_def ring_stats_ok_def unat_sat_add64 split: if_splits bind_splits)
qed

text \<open>Closing only sets flags; cancelling is a sequence of pops and a close.\<close>

lemma ring_pop_frame:
  "ring_try_pop r = Some (o1, r') \<Longrightarrow>
   length (ring_slots r') = length (ring_slots r) \<and> ring_allocated r' = ring_allocated r \<and>
   st_pushed (ring_stats r') = st_pushed (ring_stats r) \<and> ring_closed r' = ring_closed r"
  by (auto simp: ring_try_pop_def vec_set_def split: if_splits bind_splits)

lemma ring_pop_all_stats:
  "ring_wf r \<Longrightarrow> ring_stats_ok r \<Longrightarrow> ring_pop_all r = Some r' \<Longrightarrow>
   ring_stats_ok r' \<and> length (ring_slots r') = length (ring_slots r) \<and>
   ring_allocated r' = ring_allocated r \<and> st_pushed (ring_stats r') = st_pushed (ring_stats r)"
proof (induction r rule: ring_pop_all.induct)
  case (1 r)
  show ?case
  proof (cases "ring_len r = 0")
    case True
    then have "ring_try_pop r = Some (None, r)" by (simp add: ring_try_pop_def)
    with 1(3,4) show ?thesis by (simp add: ring_pop_all.simps [of r])
  next
    case False
    then obtain r1 x where r1: "ring_try_pop r = Some (Some x, r1)" "ring_wf r1"
      using ring_pop_takes [OF 1(2)] by blast
    moreover have "ring_stats_ok r1"
      using ring_pop_stats [OF 1(2,3) r1(1)] .
    moreover have "ring_pop_all r1 = Some r'"
      using 1(4) r1(1) by (simp add: ring_pop_all.simps [of r])
    ultimately show ?thesis
      using 1(1) [OF r1(1) refl refl] ring_pop_frame [OF r1(1)] by simp
  qed
qed

fun is_push :: "'a ring_op \<Rightarrow> bool" where
  "is_push (Push x) = True"
| "is_push _ = False"

definition ring_accounted :: "'a ring \<Rightarrow> usize \<Rightarrow> nat \<Rightarrow> 'a ring \<Rightarrow> bool" where
  "ring_accounted r0 alloc k r \<longleftrightarrow> ring_wf r \<and> ring_stats_ok r \<and>
     length (ring_slots r) = length (ring_slots r0) \<and> ring_allocated r = alloc \<and>
     unat (st_pushed (ring_stats r)) = min k (2 ^ 64 - 1)"

lemma ring_step_accounted:
  assumes acc: "ring_accounted r0 alloc k r" and st: "ring_step op r = Some (out, r')"
  shows "ring_accounted r0 alloc (k + (if is_push op then 1 else 0)) r'"
proof (cases op)
  case (Push x)
  with st obtain o1 where p: "ring_try_push x r = Some (o1, r')" by auto
  have "ring_wf r'"
    using ring_step_simulates [of r op] acc st by (auto simp: ring_accounted_def)
  moreover have "ring_stats_ok r'"
    using ring_push_stats [OF _ _ p] acc by (simp add: ring_accounted_def)
  moreover have "length (ring_slots r') = length (ring_slots r) \<and> ring_allocated r' = ring_allocated r \<and>
    st_pushed (ring_stats r') = sat_add (st_pushed (ring_stats r)) 1"
    using p by (auto simp: ring_try_push_def Let_def vec_set_def split: if_splits bind_splits)
  ultimately show ?thesis
    using acc Push by (auto simp: ring_accounted_def unat_sat_add64)
next
  case Pop
  with st obtain o1 where p: "ring_try_pop r = Some (o1, r')" by auto
  have "ring_wf r'"
    using ring_step_simulates [of r op] acc st by (auto simp: ring_accounted_def)
  with acc Pop ring_pop_stats [OF _ _ p] ring_pop_frame [OF p] show ?thesis
    by (auto simp: ring_accounted_def)
next
  case Close
  with acc st show ?thesis
    by (auto simp: ring_accounted_def ring_close_def ring_stats_ok_def ring_wf_def)
next
  case Cancel
  with st obtain r1 where p: "ring_pop_all r = Some r1"
    and r': "r' = r1\<lparr>ring_closed := True,
              ring_stats := (ring_stats r1)\<lparr>st_closed := True, st_cancelled := True\<rparr>\<rparr>"
    by (auto simp: ring_cancel_def split: bind_splits)
  have "ring_wf r1"
    using ring_pop_all_drains [of r] acc p by (auto simp: ring_accounted_def)
  with acc Cancel r' ring_pop_all_stats [OF _ _ p] show ?thesis
    by (auto simp: ring_accounted_def ring_stats_ok_def)
qed

lemma ring_run_accounted:
  "run_steps ring_step ops r = Some (outs, r') \<Longrightarrow> ring_accounted r0 alloc k r \<Longrightarrow>
   ring_accounted r0 alloc (k + length (filter is_push ops)) r'"
proof (induction ops arbitrary: r k outs)
  case Nil
  then show ?case by simp
next
  case (Cons op ops)
  then obtain out s1 outs1 where 1: "ring_step op r = Some (out, s1)"
    "run_steps ring_step ops s1 = Some (outs1, r')"
    by (auto split: bind_splits)
  from Cons.IH [OF 1(2) ring_step_accounted [OF Cons.prems(2) 1(1)]]
  show ?case by (simp add: add.commute add.left_commute split: if_splits)
qed

subsection \<open>Properties of the ring\<close>

text \<open>
  C1. On a well-formed ring, every call of \<open>try_push\<close>, \<open>try_pop\<close>, \<open>close\<close> or \<open>cancel\<close> returns
  without a panic (no index outside the slots, no overflow, no remainder by zero, no endless
  drain), keeps the ring well-formed, and returns and changes exactly what the bounded channel
  does: an item is accepted while the ring is open and not full, the newest item is dropped
  when it is full, everything is refused once it is closed, items come out oldest first, and
  cancelling empties and closes it.
\<close>

theorem ring_refines_channel:
  "ring_wf r \<Longrightarrow> \<exists>out r'. ring_step op r = Some (out, r') \<and> ring_wf r' \<and>
     channel_step op (ring_abs r) = (out, ring_abs r')"
  by (rule process_ring.simulates)

theorem ring_refines_channel_witness:
  "\<exists>r. with_capacity (\<lambda>n. n) 2 = Ok (r :: nat ring) \<and> ring_wf r \<and>
     (\<exists>out r'. ring_step (Push 7) r = Some (out, r') \<and> ring_wf r' \<and>
       channel_step (Push 7) (ring_abs r) = (out, ring_abs r'))"
proof -
  obtain r :: "nat ring" where r: "with_capacity (\<lambda>n. n) 2 = Ok r"
    by (simp add: with_capacity_def)
  then have "ring_wf r"
    by (rule ring_wf_with_capacity) simp
  with r ring_refines_channel [of r "Push 7"] show ?thesis by blast
qed

text \<open>
  C24. A ring made by \<open>with_capacity(n)\<close> is first-in first-out over any sequence of calls that
  does not cancel it: the sequence never panics, the items accepted are exactly the items
  handed out followed by the items still buffered, in order, and never more than \<open>n\<close> are
  buffered.
\<close>

theorem ring_run_fifo:
  assumes "with_capacity alloc n = Ok r" and "unat n < 2 ^ 63" and "Cancel \<notin> set ops"
  shows "\<exists>outs r'. run_steps ring_step ops r = Some (outs, r') \<and>
    accepted_items ops outs = popped_items outs @ ch_items (ring_abs r') \<and>
    length (ch_items (ring_abs r')) \<le> unat n"
proof -
  have wf: "ring_wf r" using assms(1,2) by (rule ring_wf_with_capacity)
  obtain outs r' where run: "run_steps ring_step ops r = Some (outs, r')" "ring_wf r'"
    using process_ring.run_simulates [OF wf] by blast
  have "ch_items (ring_abs r) = []" "length (ring_slots r) = unat n"
    using assms(1) by (auto simp: with_capacity_def ring_abs_def result_simps)
  moreover from this have "length (ring_slots r') = unat n"
    using ring_run_accounted [OF run(1), of r "ring_allocated r"
        "unat (st_pushed (ring_stats r))"] wf assms(1)
    by (auto simp: ring_accounted_def with_capacity_def ring_stats_ok_def stats_default_def
        result_simps)
  ultimately show ?thesis
    using run process_ring.run_fifo [OF wf run(1) assms(3)] process_ring.run_bounded [OF wf run(1)]
    by auto
qed

theorem ring_run_fifo_witness:
  "\<exists>outs r r'. with_capacity (\<lambda>n. n) 2 = Ok r \<and>
     run_steps ring_step [Push (1 :: nat), Push 2, Push 3, Pop, Push 4] r = Some (outs, r') \<and>
     accepted_items [Push 1, Push 2, Push 3, Pop, Push 4] outs = [1, 2, 4] \<and>
     popped_items outs @ ch_items (ring_abs r') = [1, 2, 4]"
proof -
  obtain r :: "nat ring" where r: "with_capacity (\<lambda>n. n) 2 = Ok r"
    by (simp add: with_capacity_def)
  then obtain outs r' where
    run: "run_steps ring_step [Push 1, Push 2, Push 3, Pop, Push 4] r = Some (outs, r')"
    and fifo: "accepted_items [Push 1, Push 2, Push 3, Pop, Push 4] outs
      = popped_items outs @ ch_items (ring_abs r')"
    using ring_run_fifo [OF r, of "[Push 1, Push 2, Push 3, Pop, Push 4]"] by auto
  have "outs = [Pushed Accepted, Pushed Accepted, Pushed (DroppedNewest 3), Popped (Some 1),
      Pushed Accepted]"
    using r run
    by (auto simp: with_capacity_def ring_try_push_def ring_try_pop_def ring_capacity_def vec_len_def
        vec_get_def vec_set_def checked_add_def checked_rem_def)
  with r run fifo show ?thesis by auto
qed

text \<open>
  The steady-state guarantees of the ring: over any sequence of fewer than \<open>2^64 - 1\<close> calls
  the capacity and the allocated slots of its snapshot never change (no call allocates), the
  push counter is the number of pushes, what was accepted has been yielded or is still
  buffered, and while the ring is open every push was either accepted or dropped.
\<close>

theorem ring_run_accounts:
  assumes "with_capacity alloc n = Ok r" and "unat n < 2 ^ 63" and "length ops < 2 ^ 64 - 1"
    and run: "run_steps ring_step ops r = Some (outs, r')"
  shows "snap_capacity (ring_snapshot_of r') = n \<and>
    snap_allocated_slots (ring_snapshot_of r') = alloc n \<and>
    unat (st_pushed (ring_stats r')) = length (filter is_push ops) \<and>
    unat (st_accepted (ring_stats r')) = unat (st_yielded (ring_stats r')) + unat (ring_len r') \<and>
    (\<not> ring_closed r' \<longrightarrow> unat (st_accepted (ring_stats r')) +
       unat (st_dropped_newest (ring_stats r')) = unat (st_pushed (ring_stats r')))"
proof -
  have wf: "ring_wf r" using assms(1,2) by (rule ring_wf_with_capacity)
  have r: "length (ring_slots r) = unat n" "ring_accounted r (alloc n) 0 r"
    using assms(1) wf
    by (auto simp: ring_accounted_def with_capacity_def ring_stats_ok_def stats_default_def
        result_simps)
  have "length (filter is_push ops) < 2 ^ 64 - 1"
    using assms(3) by (rule le_less_trans [OF length_filter_le])
  with ring_run_accounted [OF run r(2)] r(1) show ?thesis
    by (auto simp: ring_accounted_def ring_snapshot_of_def ring_capacity_def vec_len_def
        ring_stats_ok_def)
qed

theorem ring_run_accounts_witness:
  "\<exists>outs r r'. with_capacity (\<lambda>n. n + 1) 1 = Ok r \<and>
     run_steps ring_step [Push True, Push False, Pop] r = Some (outs, r') \<and>
     snap_capacity (ring_snapshot_of r') = 1 \<and> snap_allocated_slots (ring_snapshot_of r') = 2 \<and>
     unat (st_pushed (ring_stats r')) = 2"
proof -
  obtain r :: "bool ring" where r: "with_capacity (\<lambda>n. n + 1) 1 = Ok r"
    by (simp add: with_capacity_def)
  then obtain outs r' where run: "run_steps ring_step [Push True, Push False, Pop] r = Some (outs, r')"
    using process_ring.run_simulates [OF ring_wf_with_capacity [OF r]] by fastforce
  with r ring_run_accounts [OF r _ _ run] show ?thesis by auto
qed

end
