(* ===== verification/ContentStore.thy ===== *)
theory ContentStore
  imports Kernel
begin

section \<open>The size-bounded content store (\<open>src/store_evict.rs\<close>)\<close>

text \<open>
  \<open>BoundedContentStore\<close>: frames keyed by symbol in a \<open>BTreeMap\<close>, their keys in a queue in
  insertion order, and a running byte count at the width of \<open>usize\<close>. Insertion evicts the
  oldest frames until the new one fits; a retention sweep removes the frames whose consent
  window has passed on the modelled clock. \<open>store_frames\<close> reads the store as the list of its
  frames, oldest first; the lemmas on each operation say what it does to that list.
\<close>

subsection \<open>Data\<close>

datatype store_key = StoreKey symbol

primrec as_symbol :: "store_key \<Rightarrow> symbol" where
  "as_symbol (StoreKey s) = s"

definition store_key_new :: "symbol \<Rightarrow> store_key" where
  [simp]: "store_key_new s = StoreKey s"

lemma as_symbol_inject: "as_symbol a = as_symbol b \<longleftrightarrow> a = b"
  by (cases a; cases b) simp

instantiation store_key :: linorder
begin

definition less_eq_store_key :: "store_key \<Rightarrow> store_key \<Rightarrow> bool" where
  "less_eq_store_key a b \<longleftrightarrow> as_symbol a \<le> as_symbol b"

definition less_store_key :: "store_key \<Rightarrow> store_key \<Rightarrow> bool" where
  "less_store_key a b \<longleftrightarrow> as_symbol a < as_symbol b"

instance
  by standard
    (auto simp: less_eq_store_key_def less_store_key_def less_le_not_le as_symbol_inject [symmetric])

end

definition store_key_named :: "string \<Rightarrow> store_key" where
  "store_key_named name = store_key_new (symbol_qualified ''stream/content'' name)"

record content_frame =
  cf_key :: store_key
  cf_session :: symbol
  cf_receipt_seq :: u64
  cf_inserted_tick :: u64
  cf_size_bytes :: usize
  cf_value :: expr

definition content_frame_new ::
  "store_key \<Rightarrow> symbol \<Rightarrow> u64 \<Rightarrow> u64 \<Rightarrow> usize \<Rightarrow> expr \<Rightarrow> content_frame" where
  "content_frame_new key session receipt_seq inserted_tick nbytes val = \<lparr>cf_key = key, cf_session = session,
     cf_receipt_seq = receipt_seq, cf_inserted_tick = inserted_tick, cf_size_bytes = nbytes, cf_value = val\<rparr>"

record retention_window =
  rw_session :: symbol
  rw_receipt_seq :: u64
  rw_retain_ms :: u64

definition retention_window_new :: "symbol \<Rightarrow> u64 \<Rightarrow> u64 \<Rightarrow> retention_window" where
  "retention_window_new session receipt_seq retain_ms =
     \<lparr>rw_session = session, rw_receipt_seq = receipt_seq, rw_retain_ms = retain_ms\<rparr>"

record store_evicted =
  se_key :: store_key
  se_reason :: symbol

record content_store =
  cs_max_bytes :: usize
  cs_used_bytes :: usize
  cs_entries :: "(store_key, content_frame) btree"
  cs_order :: "store_key list"

definition size_bound_reason :: symbol where
  "size_bound_reason = symbol_qualified ''stream/content-evict'' ''size-bound''"

definition retention_reason :: symbol where
  "retention_reason = symbol_qualified ''stream/content-evict'' ''retention''"

definition replaced_reason :: symbol where
  "replaced_reason = symbol_qualified ''stream/content-evict'' ''replaced''"

definition elapsed_ms :: "u64 \<Rightarrow> u64 \<Rightarrow> u16 \<Rightarrow> u64" where
  "elapsed_ms now_tick then_tick adapt_hz =
     sat_mul (sat_sub now_tick then_tick) 1000 div ucast (max adapt_hz 1)"

subsection \<open>Operations\<close>

definition store_new :: "usize \<Rightarrow> content_store result" where
  "store_new max_bytes =
     and_then (ensure (max_bytes \<noteq> 0)
                 (Eval [Lit ''content store bound must be greater than zero'']))
       (\<lambda>_. Ok \<lparr>cs_max_bytes = max_bytes, cs_used_bytes = 0, cs_entries = bt_empty, cs_order = []\<rparr>)"

definition remove_existing :: "store_key \<Rightarrow> content_store \<Rightarrow> content_frame option \<times> content_store" where
  "remove_existing key s =
     (case bt_get (cs_entries s) key of
        None \<Rightarrow> (None, s)
      | Some frame \<Rightarrow>
          (Some frame,
           s\<lparr>cs_entries := bt_remove key (cs_entries s),
             cs_used_bytes := sat_sub (cs_used_bytes s) (cf_size_bytes frame),
             cs_order := filter (\<lambda>existing. existing \<noteq> key) (cs_order s)\<rparr>))"

function evict_oldest :: "symbol \<Rightarrow> content_store \<Rightarrow> store_evicted option \<times> content_store" where
  "evict_oldest reason s =
     (case cs_order s of
        [] \<Rightarrow> (None, s)
      | key # rest \<Rightarrow>
          (case remove_existing key (s\<lparr>cs_order := rest\<rparr>) of
             (Some _, s') \<Rightarrow> (Some \<lparr>se_key = key, se_reason = reason\<rparr>, s')
           | (None, _) \<Rightarrow> evict_oldest reason (s\<lparr>cs_order := rest\<rparr>)))"
  by pat_completeness auto
termination
  by (relation "measure (\<lambda>(_, s). length (cs_order s))") auto

declare evict_oldest.simps [simp del]

lemma evict_oldest_shrinks:
  "evict_oldest reason s = (Some item, s') \<Longrightarrow> length (cs_order s') < length (cs_order s)"
proof (induction reason s rule: evict_oldest.induct)
  case (1 reason s)
  then show ?case
    by (subst (asm) (2) evict_oldest.simps)
      (fastforce simp: remove_existing_def less_Suc_eq_le
        split: list.splits option.splits prod.splits intro: le_less_trans [OF length_filter_le])
qed

text \<open>The eviction loop of \<open>insert\<close>.\<close>

function make_room :: "usize \<Rightarrow> content_store \<Rightarrow> store_evicted list \<times> content_store" where
  "make_room n s =
     (if cs_max_bytes s < sat_add (cs_used_bytes s) n then
        (case evict_oldest size_bound_reason s of
           (Some item, s') \<Rightarrow> (let (items, s'') = make_room n s' in (item # items, s''))
         | (None, s') \<Rightarrow> ([], s'))
      else ([], s))"
  by pat_completeness auto
termination
  by (relation "measure (\<lambda>(_, s). length (cs_order s))") (auto dest: evict_oldest_shrinks sym)

declare make_room.simps [simp del]

definition store_insert ::
  "content_frame \<Rightarrow> content_store \<Rightarrow> store_evicted list result \<times> content_store" where
  "store_insert frame s =
     (if cs_max_bytes s < cf_size_bytes frame then
        (Err (Eval [Lit ''content frame '', Show_num (unat (cf_size_bytes frame)),
                    Lit '' bytes exceeds store bound '', Show_num (unat (cs_max_bytes s))]), s)
      else
        (let (old, s1) = remove_existing (cf_key frame) s;
             replaced = (if old \<noteq> None
               then [\<lparr>se_key = cf_key frame, se_reason = replaced_reason\<rparr>] else []);
             (items, s2) = make_room (cf_size_bytes frame) s1
         in (Ok (replaced @ items),
             s2\<lparr>cs_used_bytes := sat_add (cs_used_bytes s2) (cf_size_bytes frame),
                cs_order := cs_order s2 @ [cf_key frame],
                cs_entries := bt_insert (cf_key frame) frame (cs_entries s2)\<rparr>)))"

definition frame_expired :: "u64 \<Rightarrow> u16 \<Rightarrow> retention_window list \<Rightarrow> content_frame \<Rightarrow> bool" where
  "frame_expired now_tick adapt_hz windows frame =
     (case find (\<lambda>w. rw_session w = cf_session frame \<and> rw_receipt_seq w = cf_receipt_seq frame)
             windows of
        None \<Rightarrow> True
      | Some w \<Rightarrow> rw_retain_ms w < elapsed_ms now_tick (cf_inserted_tick frame) adapt_hz)"

primrec remove_all :: "store_key list \<Rightarrow> content_store \<Rightarrow> store_evicted list \<times> content_store" where
  "remove_all [] s = ([], s)"
| "remove_all (key # keys) s =
     (let (old, s') = remove_existing key s; (items, s'') = remove_all keys s'
      in ((if old \<noteq> None then [\<lparr>se_key = key, se_reason = retention_reason\<rparr>] else []) @ items, s''))"

definition sweep_retention ::
  "u64 \<Rightarrow> u16 \<Rightarrow> retention_window list \<Rightarrow> content_store \<Rightarrow> store_evicted list \<times> content_store" where
  "sweep_retention now_tick adapt_hz windows s =
     remove_all (map cf_key (filter (frame_expired now_tick adapt_hz windows)
       (bt_values (cs_entries s)))) s"

definition store_contains :: "store_key \<Rightarrow> content_store \<Rightarrow> bool" where
  "store_contains key s \<longleftrightarrow> bt_get (cs_entries s) key \<noteq> None"

definition store_len :: "content_store \<Rightarrow> nat" where
  "store_len s = length (cs_entries s)"

definition store_is_empty :: "content_store \<Rightarrow> bool" where
  "store_is_empty s \<longleftrightarrow> cs_entries s = []"

subsection \<open>The store as a list of frames, oldest first\<close>

definition store_frames :: "content_store \<Rightarrow> content_frame list" where
  "store_frames s = map (\<lambda>k. the (bt_get (cs_entries s) k)) (cs_order s)"

definition frame_bytes :: "content_frame list \<Rightarrow> nat" where
  "frame_bytes fs = sum_list (map (\<lambda>f. unat (cf_size_bytes f)) fs)"

text \<open>
  The invariant: the queue lists every stored key once, each frame sits under its own key, the
  byte count is the true sum of the frame sizes (it never saturated) and is within the bound.
  It asks for a bound below \<open>usize::MAX\<close>: at that one bound the saturating sum of \<open>insert\<close> can
  never exceed the bound, so the eviction loop never runs (\<open>store_insert_saturates\<close> below).
\<close>

definition store_inv :: "content_store \<Rightarrow> bool" where
  "store_inv s \<longleftrightarrow>
     0 < cs_max_bytes s \<and> cs_max_bytes s \<noteq> - 1 \<and> bt_wf (cs_entries s) \<and> distinct (cs_order s) \<and>
     (\<forall>k. k \<in> set (cs_order s) \<longleftrightarrow> bt_get (cs_entries s) k \<noteq> None) \<and>
     (\<forall>k f. bt_get (cs_entries s) k = Some f \<longrightarrow> cf_key f = k) \<and>
     unat (cs_used_bytes s) = frame_bytes (store_frames s) \<and>
     cs_used_bytes s \<le> cs_max_bytes s"

lemma frame_bytes_simps [simp]:
  "frame_bytes [] = 0"
  "frame_bytes (f # fs) = unat (cf_size_bytes f) + frame_bytes fs"
  "frame_bytes (fs @ gs) = frame_bytes fs + frame_bytes gs"
  by (simp_all add: frame_bytes_def)

lemma store_inv_order:
  "store_inv s \<Longrightarrow> k \<in> set (cs_order s) \<longleftrightarrow> bt_get (cs_entries s) k \<noteq> None"
  unfolding store_inv_def by blast

lemma store_inv_key: "store_inv s \<Longrightarrow> bt_get (cs_entries s) k = Some f \<Longrightarrow> cf_key f = k"
  unfolding store_inv_def by blast

lemma store_inv_get:
  "store_inv s \<Longrightarrow> k \<in> set (cs_order s) \<Longrightarrow> \<exists>f. bt_get (cs_entries s) k = Some f \<and> cf_key f = k"
  using store_inv_order store_inv_key by blast

lemma store_inv_bytes:
  "store_inv s \<Longrightarrow> unat (cs_used_bytes s) = frame_bytes (store_frames s)"
  "store_inv s \<Longrightarrow> unat (cs_used_bytes s) \<le> unat (cs_max_bytes s)"
  unfolding store_inv_def by (simp_all add: word_le_nat_alt)

lemma store_frames_key:
  assumes "store_inv s"
  shows "map cf_key (store_frames s) = cs_order s"
proof -
  have "(cf_key \<circ> (\<lambda>k. the (bt_get (cs_entries s) k))) k = k" if "k \<in> set (cs_order s)" for k
    using store_inv_get [OF assms that] by auto
  then show ?thesis
    unfolding store_frames_def map_map by (intro map_idI) blast
qed

lemma store_inv_frames:
  assumes "store_inv s"
  shows "distinct (map cf_key (store_frames s))"
    and "frame_bytes (store_frames s) \<le> unat (cs_max_bytes s)"
    and "f \<in> set (store_frames s) \<longleftrightarrow> bt_get (cs_entries s) (cf_key f) = Some f"
proof -
  show "distinct (map cf_key (store_frames s))"
    using assms by (simp add: store_frames_key) (simp add: store_inv_def)
  show "frame_bytes (store_frames s) \<le> unat (cs_max_bytes s)"
    using store_inv_bytes [OF assms] by simp
  show "f \<in> set (store_frames s) \<longleftrightarrow> bt_get (cs_entries s) (cf_key f) = Some f"
  proof
    assume "f \<in> set (store_frames s)"
    then obtain k where "k \<in> set (cs_order s)" "f = the (bt_get (cs_entries s) k)"
      unfolding store_frames_def by auto
    then show "bt_get (cs_entries s) (cf_key f) = Some f"
      using store_inv_get [OF assms] by fastforce
  next
    assume *: "bt_get (cs_entries s) (cf_key f) = Some f"
    then have "cf_key f \<in> set (cs_order s)"
      using store_inv_order [OF assms] by simp
    with * show "f \<in> set (store_frames s)"
      unfolding store_frames_def by (metis (no_types, lifting) image_eqI list.set_map option.sel)
  qed
qed

lemma store_inv_new:
  assumes "store_new n = Ok s" "n \<noteq> - 1"
  shows "store_inv s" "store_frames s = []" "cs_max_bytes s = n"
proof -
  have s: "n \<noteq> 0" "s = \<lparr>cs_max_bytes = n, cs_used_bytes = 0, cs_entries = bt_empty, cs_order = []\<rparr>"
    using assms(1) by (auto simp: store_new_def result_simps)
  show "store_inv s" "store_frames s = []" "cs_max_bytes s = n"
    using s(1) assms(2)
    by (simp_all add: s(2) store_inv_def store_frames_def btree.laws btree.wf_empty word_neq_0_conv)
qed

text \<open>Removing a key filters it out of the frames.\<close>

lemma filter_key_frames:
  "store_inv s \<Longrightarrow> filter (\<lambda>f. cf_key f \<noteq> key) (store_frames s)
     = map (\<lambda>k. the (bt_get (cs_entries s) k)) (filter (\<lambda>k. k \<noteq> key) (cs_order s))"
  unfolding store_frames_def filter_map
  by (rule arg_cong [where f = "map _"]) (auto simp: store_inv_def intro!: filter_cong)

lemma frame_bytes_remove:
  assumes inv: "store_inv s" and f: "bt_get (cs_entries s) key = Some f"
  shows "frame_bytes (store_frames s) =
    unat (cf_size_bytes f) + frame_bytes (filter (\<lambda>g. cf_key g \<noteq> key) (store_frames s))"
proof -
  have mem: "f \<in> set (store_frames s)" "cf_key f = key"
    using f store_inv_frames(3) [OF inv, of f] store_inv_key [OF inv f] by simp_all
  have "distinct (store_frames s)"
    using store_inv_frames(1) [OF inv] by (simp add: distinct_map)
  then have "frame_bytes (store_frames s) = unat (cf_size_bytes f) + frame_bytes (filter (\<lambda>g. g \<noteq> f) (store_frames s))"
    using mem(1) unfolding frame_bytes_def by (rule sum_list_remove_distinct)
  also have "filter (\<lambda>g. g \<noteq> f) (store_frames s) = filter (\<lambda>g. cf_key g \<noteq> key) (store_frames s)"
  proof (rule filter_cong [OF refl])
    fix g
    assume "g \<in> set (store_frames s)"
    then have "bt_get (cs_entries s) (cf_key g) = Some g"
      by (simp add: store_inv_frames(3) [OF inv])
    with f mem(2) show "(g \<noteq> f) = (cf_key g \<noteq> key)"
      by (cases "cf_key g = key") auto
  qed
  finally show ?thesis .
qed

lemma remove_existing_inv:
  assumes inv: "store_inv s"
  shows "store_inv (snd (remove_existing key s))"
    and "store_frames (snd (remove_existing key s))
           = filter (\<lambda>f. cf_key f \<noteq> key) (store_frames s)"
    and "fst (remove_existing key s) \<noteq> None \<longleftrightarrow> key \<in> cf_key ` set (store_frames s)"
    and "cs_max_bytes (snd (remove_existing key s)) = cs_max_bytes s"
proof -
  let ?s' = "snd (remove_existing key s)"
  have keys: "cf_key ` set (store_frames s) = set (cs_order s)"
    using store_frames_key [OF inv] by (metis list.set_map)
  show "cs_max_bytes ?s' = cs_max_bytes s"
    by (simp add: remove_existing_def split: option.splits)
  show "fst (remove_existing key s) \<noteq> None \<longleftrightarrow> key \<in> cf_key ` set (store_frames s)"
    unfolding keys store_inv_order [OF inv] by (simp add: remove_existing_def split: option.splits)
  show frames: "store_frames ?s' = filter (\<lambda>f. cf_key f \<noteq> key) (store_frames s)"
  proof (cases "bt_get (cs_entries s) key")
    case None
    then have "key \<notin> set (cs_order s)" using store_inv_order [OF inv] by simp
    then have "\<forall>f \<in> set (store_frames s). cf_key f \<noteq> key"
      unfolding keys [symmetric] by blast
    with None show ?thesis
      by (simp add: remove_existing_def filter_True)
  next
    case (Some f)
    then have "store_frames ?s' = map (\<lambda>k. the (bt_get (cs_entries s) k))
        (filter (\<lambda>k. k \<noteq> key) (cs_order s))"
      by (simp add: remove_existing_def store_frames_def btree.laws)
    then show ?thesis
      by (simp only: filter_key_frames [OF inv])
  qed
  show "store_inv ?s'"
  proof (cases "bt_get (cs_entries s) key")
    case None
    with inv show ?thesis by (simp add: remove_existing_def)
  next
    case (Some f)
    then have bytes: "frame_bytes (store_frames s)
        = unat (cf_size_bytes f) + frame_bytes (store_frames ?s')"
      unfolding frames by (rule frame_bytes_remove [OF inv])
    have s': "?s' = s\<lparr>cs_entries := bt_remove key (cs_entries s),
             cs_used_bytes := sat_sub (cs_used_bytes s) (cf_size_bytes f),
             cs_order := filter (\<lambda>existing. existing \<noteq> key) (cs_order s)\<rparr>"
      using Some by (simp add: remove_existing_def)
    have used: "unat (cs_used_bytes ?s') = frame_bytes (store_frames ?s')"
      using store_inv_bytes(1) [OF inv] bytes by (simp add: s' unat_sat_sub)
    then have "cs_used_bytes ?s' \<le> cs_max_bytes ?s'"
      using store_inv_bytes [OF inv] bytes by (simp add: word_le_nat_alt s')
    moreover have "0 < cs_max_bytes ?s'" "cs_max_bytes ?s' \<noteq> - 1" "bt_wf (cs_entries ?s')" "distinct (cs_order ?s')"
      using inv unfolding store_inv_def s' by (simp_all add: btree.wf_remove)
    moreover have "\<forall>k. k \<in> set (cs_order ?s') \<longleftrightarrow> bt_get (cs_entries ?s') k \<noteq> None"
      unfolding s' using store_inv_order [OF inv] by (simp add: btree.laws)
    moreover have "\<forall>k g. bt_get (cs_entries ?s') k = Some g \<longrightarrow> cf_key g = k"
      unfolding s' using store_inv_key [OF inv] by (simp add: btree.laws)
    ultimately show ?thesis
      using used unfolding store_inv_def by blast
  qed
qed

text \<open>Under the invariant, the key at the front of the queue is that of the oldest frame.\<close>

lemma evict_oldest_front:
  assumes inv: "store_inv s" and fs: "store_frames s = f # fs"
  shows "\<exists>s'. evict_oldest reason s = (Some \<lparr>se_key = cf_key f, se_reason = reason\<rparr>, s') \<and>
    store_inv s' \<and> store_frames s' = fs \<and> cs_max_bytes s' = cs_max_bytes s"
proof -
  let ?s' = "snd (remove_existing (cf_key f) s)"
  obtain rest where rest: "cs_order s = cf_key f # rest"
    using store_frames_key [OF inv] fs by (metis list.simps(9))
  have "fst (remove_existing (cf_key f) s) \<noteq> None"
    using remove_existing_inv(3) [OF inv, of "cf_key f"] fs by simp
  then obtain g where g: "remove_existing (cf_key f) s = (Some g, ?s')"
    by (metis option.exhaust prod.collapse)
  then have "remove_existing (cf_key f) (s\<lparr>cs_order := rest\<rparr>) = (Some g, ?s')"
    using rest by (auto simp: remove_existing_def split: option.splits)
  then have "evict_oldest reason s = (Some \<lparr>se_key = cf_key f, se_reason = reason\<rparr>, ?s')"
    using rest by (simp add: evict_oldest.simps [of reason s])
  moreover have "store_frames ?s' = fs"
  proof -
    have "\<forall>g \<in> set fs. cf_key g \<noteq> cf_key f"
      using store_inv_frames(1) [OF inv] fs
      by (metis distinct.simps(2) image_eqI list.set_map list.simps(9))
    then show ?thesis
      using remove_existing_inv(2) [OF inv, of "cf_key f"] fs by (simp add: filter_True)
  qed
  ultimately show ?thesis
    using remove_existing_inv(1,4) [OF inv] by blast
qed

text \<open>
  The shortest prefix of the frames to drop so that the rest takes at most \<open>budget\<close> bytes, and
  that rest.
\<close>

fun drop_until :: "nat \<Rightarrow> content_frame list \<Rightarrow> content_frame list \<times> content_frame list" where
  "drop_until budget [] = ([], [])"
| "drop_until budget (f # fs) =
     (if frame_bytes (f # fs) \<le> budget then ([], f # fs)
      else let (dropped, kept) = drop_until budget fs in (f # dropped, kept))"

lemma drop_until_split:
  "drop_until budget fs = (dropped, kept) \<Longrightarrow>
   fs = dropped @ kept \<and> frame_bytes kept \<le> budget \<and>
   (\<forall>f ds. dropped = ds @ [f] \<longrightarrow> budget < frame_bytes (f # kept))"
proof (induction budget fs arbitrary: dropped rule: drop_until.induct)
  case (1 budget)
  then show ?case by simp
next
  case (2 budget f fs)
  show ?case
  proof (cases "frame_bytes (f # fs) \<le> budget")
    case True
    with 2(2) show ?thesis by auto
  next
    case False
    with 2(2) obtain ds where ds: "drop_until budget fs = (ds, kept)" "dropped = f # ds"
      by (auto simp: Let_def split: prod.splits)
    from 2(1) [OF False ds(1)] False ds(2) show ?thesis
      by (cases ds rule: rev_cases) auto
  qed
qed

lemma room_needed_iff:
  assumes "store_inv s" "n \<le> cs_max_bytes s"
  shows "cs_max_bytes s < sat_add (cs_used_bytes s) n \<longleftrightarrow>
    unat (cs_max_bytes s) - unat n < frame_bytes (store_frames s)"
proof -
  have "unat (cs_max_bytes s) < 18446744073709551615"
  proof -
    have "cs_max_bytes s \<noteq> - 1" using assms(1) by (simp add: store_inv_def)
    then have "unat (cs_max_bytes s) \<noteq> unat (- 1 :: usize)"
      by (metis word_unat_eq_iff)
    moreover have "unat (- 1 :: usize) = 18446744073709551615"
      using unat_max_word [where 'a = 64] by simp
    ultimately show ?thesis
      using unat_less_2p64 [of "cs_max_bytes s"] by linarith
  qed
  then show ?thesis
    using assms(2) store_inv_bytes(1) [OF assms(1)]
    by (auto simp: word_less_nat_alt word_le_nat_alt unat_sat_add64)
qed

definition evictions :: "symbol \<Rightarrow> content_frame list \<Rightarrow> store_evicted list" where
  "evictions reason fs = map (\<lambda>f. \<lparr>se_key = cf_key f, se_reason = reason\<rparr>) fs"

lemma make_room_drops:
  "store_inv s \<Longrightarrow> n \<le> cs_max_bytes s \<Longrightarrow>
   drop_until (unat (cs_max_bytes s) - unat n) (store_frames s) = (dropped, kept) \<Longrightarrow>
   \<exists>s'. make_room n s = (evictions size_bound_reason dropped, s') \<and> store_inv s' \<and>
     store_frames s' = kept \<and> cs_max_bytes s' = cs_max_bytes s"
proof (induction n s arbitrary: dropped rule: make_room.induct)
  case (1 n s)
  show ?case
  proof (cases "cs_max_bytes s < sat_add (cs_used_bytes s) n")
    case False
    then have "frame_bytes (store_frames s) \<le> unat (cs_max_bytes s) - unat n"
      using room_needed_iff [OF 1(2,3)] by simp
    then have "dropped = [] \<and> kept = store_frames s"
      using 1(4) by (cases "store_frames s") auto
    with False 1(2) show ?thesis
      by (simp add: make_room.simps [of n s] evictions_def)
  next
    case True
    then have need: "unat (cs_max_bytes s) - unat n < frame_bytes (store_frames s)"
      using room_needed_iff [OF 1(2,3)] by simp
    then obtain f fs where fs: "store_frames s = f # fs"
      by (cases "store_frames s") auto
    obtain s1 where s1: "evict_oldest size_bound_reason s
        = (Some \<lparr>se_key = cf_key f, se_reason = size_bound_reason\<rparr>, s1)"
      "store_inv s1" "store_frames s1 = fs" "cs_max_bytes s1 = cs_max_bytes s"
      using evict_oldest_front [OF 1(2) fs] by blast
    obtain ds where ds: "drop_until (unat (cs_max_bytes s) - unat n) fs = (ds, kept)"
      "dropped = f # ds"
      using 1(4) need fs by (auto simp: Let_def split: prod.splits if_splits)
    have "\<exists>s'. make_room n s1 = (evictions size_bound_reason ds, s') \<and> store_inv s' \<and>
        store_frames s' = kept \<and> cs_max_bytes s' = cs_max_bytes s1"
      using 1(1) [OF True s1(1) [symmetric] refl s1(2)] 1(3) ds(1) s1(3,4) by simp
    with True s1 ds(2) show ?thesis
      by (auto simp: make_room.simps [of n s] evictions_def)
  qed
qed

subsection \<open>Insertion\<close>

text \<open>
  What an insertion promises of the list of frames: the frame of the same key goes, then the
  fewest of the oldest frames that let the new one fit, and the new one becomes the youngest.
\<close>

definition insert_spec ::
  "nat \<Rightarrow> content_frame \<Rightarrow> content_frame list \<Rightarrow> store_evicted list \<times> content_frame list" where
  "insert_spec bound frame fs =
     (let others = filter (\<lambda>f. cf_key f \<noteq> cf_key frame) fs;
          (dropped, kept) = drop_until (bound - unat (cf_size_bytes frame)) others
      in (evictions replaced_reason (filter (\<lambda>f. cf_key f = cf_key frame) fs)
            @ evictions size_bound_reason dropped,
          kept @ [frame]))"

lemma filter_key_distinct:
  "distinct (map g xs) \<Longrightarrow> filter (\<lambda>x. g x = k) xs =
     (case find (\<lambda>x. g x = k) xs of None \<Rightarrow> [] | Some x \<Rightarrow> [x])"
proof (induction xs)
  case (Cons x xs)
  have "filter (\<lambda>y. g y = g x) xs = []"
    using Cons.prems by (auto simp: filter_empty_conv image_iff dest: sym)
  with Cons show ?case by auto
qed simp

lemma replaced_evictions:
  assumes "store_inv s"
  shows "evictions reason (filter (\<lambda>f. cf_key f = key) (store_frames s)) =
    (if key \<in> cf_key ` set (store_frames s) then [\<lparr>se_key = key, se_reason = reason\<rparr>] else [])"
proof (cases "find (\<lambda>f. cf_key f = key) (store_frames s)")
  case None
  then show ?thesis
    by (auto simp: find_None_iff evictions_def filter_empty_conv)
next
  case (Some f)
  with find_Some_mem [OF Some] show ?thesis
    by (auto simp: filter_key_distinct [OF store_inv_frames(1) [OF assms]] evictions_def)
qed

lemma push_frame_inv:
  assumes inv: "store_inv s" and new: "cf_key frame \<notin> cf_key ` set (store_frames s)"
    and fits: "frame_bytes (store_frames s) + unat (cf_size_bytes frame) \<le> unat (cs_max_bytes s)"
    and s': "s' = s\<lparr>cs_used_bytes := sat_add (cs_used_bytes s) (cf_size_bytes frame),
                cs_order := cs_order s @ [cf_key frame],
                cs_entries := bt_insert (cf_key frame) frame (cs_entries s)\<rparr>"
  shows "store_inv s' \<and> store_frames s' = store_frames s @ [frame]"
proof -
  have key: "cf_key frame \<notin> set (cs_order s)"
    using new store_frames_key [OF inv] by (metis list.set_map)
  have frames: "store_frames s' = store_frames s @ [frame]"
    using key by (auto simp: s' store_frames_def btree.laws)
  have "frame_bytes (store_frames s) + unat (cf_size_bytes frame) \<le> 18446744073709551615"
    using fits unat_less_2p64 [of "cs_max_bytes s"] by linarith
  then have used: "unat (cs_used_bytes s') = frame_bytes (store_frames s')"
    using store_inv_bytes(1) [OF inv] unfolding frames by (simp add: s' unat_sat_add64)
  then have "cs_used_bytes s' \<le> cs_max_bytes s'"
    using fits unfolding frames by (simp add: s' word_le_nat_alt)
  moreover have "0 < cs_max_bytes s'" "cs_max_bytes s' \<noteq> - 1" "bt_wf (cs_entries s')"
      "distinct (cs_order s')"
    using inv key unfolding store_inv_def s' by (simp_all add: btree.wf_insert)
  moreover have "\<forall>k. k \<in> set (cs_order s') \<longleftrightarrow> bt_get (cs_entries s') k \<noteq> None"
    unfolding s' using store_inv_order [OF inv] by (simp add: btree.laws)
  moreover have "\<forall>k g. bt_get (cs_entries s') k = Some g \<longrightarrow> cf_key g = k"
    unfolding s' using store_inv_key [OF inv] by (simp add: btree.laws)
  ultimately show ?thesis
    using used frames unfolding store_inv_def by blast
qed

lemma store_insert_ok:
  assumes inv: "store_inv s" and fits: "cf_size_bytes frame \<le> cs_max_bytes s"
  shows "\<exists>evicted s'. store_insert frame s = (Ok evicted, s') \<and> store_inv s' \<and>
    cs_max_bytes s' = cs_max_bytes s \<and>
    insert_spec (unat (cs_max_bytes s)) frame (store_frames s) = (evicted, store_frames s')"
proof -
  define s1 where "s1 = snd (remove_existing (cf_key frame) s)"
  note r = remove_existing_inv [OF inv, of "cf_key frame", folded s1_def]
  let ?budget = "unat (cs_max_bytes s) - unat (cf_size_bytes frame)"
  obtain dropped kept where split: "drop_until ?budget (store_frames s1) = (dropped, kept)"
    by (cases "drop_until ?budget (store_frames s1)")
  obtain s2 where s2: "make_room (cf_size_bytes frame) s1 = (evictions size_bound_reason dropped, s2)"
    "store_inv s2" "store_frames s2 = kept" "cs_max_bytes s2 = cs_max_bytes s"
    using make_room_drops [OF r(1), of "cf_size_bytes frame" dropped kept] fits split r(4) by auto
  define s' where "s' = s2\<lparr>cs_used_bytes := sat_add (cs_used_bytes s2) (cf_size_bytes frame),
      cs_order := cs_order s2 @ [cf_key frame],
      cs_entries := bt_insert (cf_key frame) frame (cs_entries s2)\<rparr>"
  have kept: "store_frames s1 = dropped @ kept" "frame_bytes kept \<le> ?budget"
    using drop_until_split [OF split] by auto
  have "store_inv s' \<and> store_frames s' = store_frames s2 @ [frame]"
  proof (rule push_frame_inv [OF s2(2) _ _ s'_def])
    show "cf_key frame \<notin> cf_key ` set (store_frames s2)"
      using kept(1) r(2) s2(3) by (auto dest!: arg_cong [where f = set])
    show "frame_bytes (store_frames s2) + unat (cf_size_bytes frame) \<le> unat (cs_max_bytes s2)"
      using kept(2) fits s2(3,4) by (simp add: word_le_nat_alt)
  qed
  moreover have "store_insert frame s =
    (Ok (evictions replaced_reason (filter (\<lambda>f. cf_key f = cf_key frame) (store_frames s))
       @ evictions size_bound_reason dropped), s')"
    using fits s2(1) r(3)
    by (auto simp: store_insert_def Let_def s'_def replaced_evictions [OF inv] s1_def
        split: prod.splits)
  ultimately show ?thesis
    using split r(2) s2(3,4) by (auto simp: insert_spec_def s'_def)
qed

subsection \<open>Retention sweep\<close>

lemma remove_all_frames:
  "store_inv s \<Longrightarrow> distinct keys \<Longrightarrow> set keys \<subseteq> cf_key ` set (store_frames s) \<Longrightarrow>
   \<exists>s'. remove_all keys s
       = (map (\<lambda>k. \<lparr>se_key = k, se_reason = retention_reason\<rparr>) keys, s') \<and> store_inv s' \<and>
     cs_max_bytes s' = cs_max_bytes s \<and>
     store_frames s' = filter (\<lambda>f. cf_key f \<notin> set keys) (store_frames s)"
proof (induction keys arbitrary: s)
  case Nil
  then show ?case by simp
next
  case (Cons key keys)
  note r = remove_existing_inv [OF Cons.prems(1), of key]
  obtain old s1 where s1: "remove_existing key s = (old, s1)"
    by (cases "remove_existing key s")
  have "\<exists>s'. remove_all keys s1
       = (map (\<lambda>k. \<lparr>se_key = k, se_reason = retention_reason\<rparr>) keys, s') \<and> store_inv s' \<and>
     cs_max_bytes s' = cs_max_bytes s1 \<and>
     store_frames s' = filter (\<lambda>f. cf_key f \<notin> set keys) (store_frames s1)"
  proof (rule Cons.IH)
    show "store_inv s1" "distinct keys"
      using r(1) s1 Cons.prems(2) by simp_all
    show "set keys \<subseteq> cf_key ` set (store_frames s1)"
    proof
      fix k
      assume "k \<in> set keys"
      with Cons.prems(2,3) have "k \<noteq> key" "k \<in> cf_key ` set (store_frames s)"
        by auto
      then show "k \<in> cf_key ` set (store_frames s1)"
        using r(2) s1 by auto
    qed
  qed
  then obtain s' where s': "remove_all keys s1
       = (map (\<lambda>k. \<lparr>se_key = k, se_reason = retention_reason\<rparr>) keys, s')" "store_inv s'"
     "cs_max_bytes s' = cs_max_bytes s1"
     "store_frames s' = filter (\<lambda>f. cf_key f \<notin> set keys) (store_frames s1)"
    by blast
  have "old \<noteq> None" "store_frames s1 = filter (\<lambda>f. cf_key f \<noteq> key) (store_frames s)"
      "cs_max_bytes s1 = cs_max_bytes s"
    using r(2,3,4) s1 Cons.prems(3) by simp_all
  then have "store_frames s' = filter (\<lambda>f. cf_key f \<notin> set (key # keys)) (store_frames s)"
    by (simp add: s'(4) conj_commute)
  then show ?case
    using s'(1-3) s1 \<open>old \<noteq> None\<close> \<open>cs_max_bytes s1 = cs_max_bytes s\<close> by simp
qed

text \<open>The frames in the order of their keys, the order in which the map iterates them.\<close>

lemma bt_values_keys:
  assumes "store_inv s"
  shows "map cf_key (bt_values (cs_entries s)) = bt_keys (cs_entries s)"
    and "set (bt_values (cs_entries s)) = set (store_frames s)"
    and "sorted_wrt (<) (map cf_key (bt_values (cs_entries s)))"
proof -
  have wf: "bt_wf (cs_entries s)" using assms by (simp add: store_inv_def)
  note by_key = bt_values_by_key [where f = cf_key, OF wf store_inv_key [OF assms]]
  show "map cf_key (bt_values (cs_entries s)) = bt_keys (cs_entries s)"
    by (rule by_key(1))
  show "sorted_wrt (<) (map cf_key (bt_values (cs_entries s)))"
    by (rule by_key(3))
  show "set (bt_values (cs_entries s)) = set (store_frames s)"
    by (rule set_eqI) (simp add: by_key(2) store_inv_frames(3) [OF assms])
qed

lemma sweep_frames:
  assumes inv: "store_inv s"
  shows "\<exists>s'. sweep_retention now hz ws s = (evictions retention_reason
        (filter (frame_expired now hz ws) (bt_values (cs_entries s))), s') \<and> store_inv s' \<and>
     cs_max_bytes s' = cs_max_bytes s \<and>
     store_frames s' = filter (\<lambda>f. \<not> frame_expired now hz ws f) (store_frames s)"
proof -
  let ?expired = "filter (frame_expired now hz ws) (bt_values (cs_entries s))"
  note v = bt_values_keys [OF inv]
  have "distinct (map cf_key (bt_values (cs_entries s)))"
    using v(3) by (simp add: strict_sorted_iff)
  then have "distinct (map cf_key ?expired)"
    by (rule distinct_map_filter)
  moreover have "set (map cf_key ?expired) \<subseteq> cf_key ` set (store_frames s)"
    using v(2) by auto
  ultimately obtain s' where s': "remove_all (map cf_key ?expired) s
       = (map (\<lambda>k. \<lparr>se_key = k, se_reason = retention_reason\<rparr>) (map cf_key ?expired), s')"
     "store_inv s'" "cs_max_bytes s' = cs_max_bytes s"
     "store_frames s' = filter (\<lambda>f. cf_key f \<notin> set (map cf_key ?expired)) (store_frames s)"
    using remove_all_frames [OF inv] by blast
  have "filter (\<lambda>f. cf_key f \<notin> set (map cf_key ?expired)) (store_frames s)
      = filter (\<lambda>f. \<not> frame_expired now hz ws f) (store_frames s)"
  proof (rule filter_cong [OF refl])
    fix f
    assume f: "f \<in> set (store_frames s)"
    have same: "g \<in> set (store_frames s) \<Longrightarrow> cf_key g = cf_key f \<Longrightarrow> g = f" for g
      using store_inv_frames(3) [OF inv] f by (metis option.inject)
    have mem: "g \<in> set ?expired \<longleftrightarrow> g \<in> set (store_frames s) \<and> frame_expired now hz ws g" for g
      using v(2) by simp
    have "cf_key f \<in> cf_key ` set ?expired \<longleftrightarrow> frame_expired now hz ws f"
    proof
      assume "cf_key f \<in> cf_key ` set ?expired"
      then obtain g where g: "cf_key f = cf_key g" "g \<in> set ?expired"
        by (rule imageE)
      with same [of g] mem [of g] show "frame_expired now hz ws f"
        by metis
    next
      assume "frame_expired now hz ws f"
      with f mem [of f] show "cf_key f \<in> cf_key ` set ?expired"
        by (intro imageI) blast
    qed
    then show "(cf_key f \<notin> set (map cf_key ?expired)) = (\<not> frame_expired now hz ws f)"
      by simp
  qed
  with s'(4) have "store_frames s' = filter (\<lambda>f. \<not> frame_expired now hz ws f) (store_frames s)"
    by simp
  moreover have "sweep_retention now hz ws s = (evictions retention_reason ?expired, s')"
    using s'(1) by (simp add: sweep_retention_def evictions_def comp_def)
  ultimately show ?thesis
    using s'(2,3) by blast
qed

subsection \<open>Properties\<close>

text \<open>A concrete store for the witnesses: two frames under a bound of ten bytes.\<close>

definition demo_frame :: "string \<Rightarrow> u64 \<Rightarrow> u64 \<Rightarrow> usize \<Rightarrow> content_frame" where
  "demo_frame name seq tick n = \<lparr>cf_key = store_key_named name, cf_session = symbol_new ''s'',
     cf_receipt_seq = seq, cf_inserted_tick = tick, cf_size_bytes = n, cf_value = ENil\<rparr>"

definition demo_store :: content_store where
  "demo_store = \<lparr>cs_max_bytes = 10, cs_used_bytes = 7,
     cs_entries = [(store_key_named ''a'', demo_frame ''a'' 1 0 3),
                   (store_key_named ''b'', demo_frame ''b'' 2 5 4)],
     cs_order = [store_key_named ''b'', store_key_named ''a'']\<rparr>"

lemma store_key_named_simps [simp]:
  "store_key_named a = store_key_named b \<longleftrightarrow> a = b"
  "store_key_named a < store_key_named b \<longleftrightarrow> a < b"
  by (simp_all add: store_key_named_def less_store_key_def less_symbol_def)

lemma demo_store_frames:
  "store_frames demo_store = [demo_frame ''b'' 2 5 4, demo_frame ''a'' 1 0 3]"
  by (simp add: demo_store_def store_frames_def bt_get_def)

lemma demo_store_inv: "store_inv demo_store"
  unfolding store_inv_def demo_store_frames
  by (auto simp: demo_store_def demo_frame_def bt_get_def bt_wf_def word_le_nat_alt less_char_def
      split: if_splits)

text \<open>
  C2. Inserting into a well-formed store fails exactly when the frame alone exceeds the bound,
  and then changes nothing; otherwise it does to the list of frames, oldest first, what the
  specification says (replace the frame of the same key, evict the fewest oldest frames, append),
  reports those removals in that order, and keeps the store well-formed under the same bound.
\<close>
theorem store_insert_refines:
  assumes "store_inv s"
  shows "case store_insert frame s of
      (Inl e, s') \<Rightarrow> cs_max_bytes s < cf_size_bytes frame \<and> s' = s
    | (Inr evicted, s') \<Rightarrow> cf_size_bytes frame \<le> cs_max_bytes s \<and> store_inv s' \<and>
        cs_max_bytes s' = cs_max_bytes s \<and>
        (evicted, store_frames s') = insert_spec (unat (cs_max_bytes s)) frame (store_frames s)"
proof (cases "cf_size_bytes frame \<le> cs_max_bytes s")
  case True
  from store_insert_ok [OF assms True] obtain evicted s' where
    "store_insert frame s = (Ok evicted, s')" "store_inv s'" "cs_max_bytes s' = cs_max_bytes s"
    "insert_spec (unat (cs_max_bytes s)) frame (store_frames s) = (evicted, store_frames s')"
    by blast
  with True show ?thesis by simp
qed (simp add: store_insert_def not_le)

theorem store_insert_refines_witness:
  "store_inv (snd (store_insert (demo_frame ''c'' 3 9 5) demo_store)) \<and>
   store_frames (snd (store_insert (demo_frame ''c'' 3 9 5) demo_store))
     = [demo_frame ''a'' 1 0 3, demo_frame ''c'' 3 9 5]"
  using store_insert_refines [OF demo_store_inv, of "demo_frame ''c'' 3 9 5"]
  by (cases "store_insert (demo_frame ''c'' 3 9 5) demo_store")
    (auto simp: insert_spec_def demo_store_frames evictions_def Let_def
      demo_frame_def [of "''c''"] demo_frame_def [of "''a''"] demo_frame_def [of "''b''"]
      demo_store_def [THEN arg_cong [where f = cs_max_bytes]]
      split: sum.splits)

text \<open>
  The evictions of a successful insertion are needed and enough: apart from the frame of the
  same key, the frames that stay are a suffix of the earlier ones (only the oldest went), the
  store is within its bound with the new frame in it, and putting the last evicted frame back
  would exceed the bound.
\<close>
theorem store_insert_evicts_least:
  assumes "store_inv s" and "store_insert frame s = (Ok evicted, s')"
  shows "\<exists>dropped kept.
    filter (\<lambda>f. cf_key f \<noteq> cf_key frame) (store_frames s) = dropped @ kept \<and>
    store_frames s' = kept @ [frame] \<and>
    evicted = evictions replaced_reason (filter (\<lambda>f. cf_key f = cf_key frame) (store_frames s))
      @ evictions size_bound_reason dropped \<and>
    unat (cs_used_bytes s') = frame_bytes (kept @ [frame]) \<and>
    frame_bytes (kept @ [frame]) \<le> unat (cs_max_bytes s) \<and>
    (\<forall>f ds. dropped = ds @ [f] \<longrightarrow> unat (cs_max_bytes s) < frame_bytes (f # kept @ [frame]))"
proof -
  have fits: "cf_size_bytes frame \<le> cs_max_bytes s"
    using assms(2) by (simp add: store_insert_def not_le split: if_splits)
  have spec: "store_inv s'" "cs_max_bytes s' = cs_max_bytes s"
    "insert_spec (unat (cs_max_bytes s)) frame (store_frames s) = (evicted, store_frames s')"
    using store_insert_ok [OF assms(1) fits] assms(2) by auto
  obtain dropped kept where split:
    "drop_until (unat (cs_max_bytes s) - unat (cf_size_bytes frame))
       (filter (\<lambda>f. cf_key f \<noteq> cf_key frame) (store_frames s)) = (dropped, kept)"
    by fastforce
  have out: "evicted = evictions replaced_reason
        (filter (\<lambda>f. cf_key f = cf_key frame) (store_frames s)) @ evictions size_bound_reason dropped"
    "store_frames s' = kept @ [frame]"
    using spec(3) split by (simp_all add: insert_spec_def)
  have least: "unat (cs_max_bytes s) < frame_bytes (f # kept @ [frame])" if "dropped = ds @ [f]" for f ds
    using drop_until_split [OF split] that by fastforce
  show ?thesis
    using drop_until_split [OF split] out least store_inv_bytes [OF spec(1)] spec(2) by metis
qed

theorem store_insert_evicts_least_witness:
  "\<exists>evicted s'. store_insert (demo_frame ''c'' 3 9 5) demo_store = (Ok evicted, s') \<and>
     frame_bytes (store_frames s') \<le> 10"
proof -
  have fits: "cf_size_bytes (demo_frame ''c'' 3 9 5) \<le> cs_max_bytes demo_store"
    by (simp add: demo_frame_def demo_store_def)
  have bound: "unat (cs_max_bytes demo_store) = 10"
    by (simp add: demo_store_def)
  obtain evicted s' where ins: "store_insert (demo_frame ''c'' 3 9 5) demo_store = (Ok evicted, s')"
    using store_insert_ok [OF demo_store_inv fits] by blast
  from store_insert_evicts_least [OF demo_store_inv ins] bound ins show ?thesis
    by metis
qed

text \<open>
  What retention means: the first window of the frame's receipt still covers the frame's age. A
  frame without a window is not covered.
\<close>

definition within_retention :: "u64 \<Rightarrow> u16 \<Rightarrow> retention_window list \<Rightarrow> content_frame \<Rightarrow> bool" where
  "within_retention now_tick adapt_hz windows f \<longleftrightarrow>
     (\<exists>w. find (\<lambda>w. rw_session w = cf_session f \<and> rw_receipt_seq w = cf_receipt_seq f) windows = Some w \<and>
        elapsed_ms now_tick (cf_inserted_tick f) adapt_hz \<le> rw_retain_ms w)"

lemma frame_expired_iff:
  "frame_expired now_tick adapt_hz windows f \<longleftrightarrow> \<not> within_retention now_tick adapt_hz windows f"
  by (simp add: frame_expired_def within_retention_def not_le split: option.split)

text \<open>
  C19. A retention sweep of a well-formed store keeps exactly the frames that a window still covers,
  in their order, removes every other frame, reports each removal once with the retention reason in
  the order of the keys, and keeps the store well-formed.
\<close>
theorem store_sweep_exact:
  assumes "store_inv s" and "sweep_retention now adapt_hz windows s = (evicted, s')"
  shows "store_inv s' \<and>
    store_frames s' = filter (within_retention now adapt_hz windows) (store_frames s) \<and>
    (\<forall>k. k \<in> set (map se_key evicted) \<longleftrightarrow>
       (\<exists>f. bt_get (cs_entries s) k = Some f \<and> \<not> within_retention now adapt_hz windows f)) \<and>
    sorted_wrt (<) (map se_key evicted) \<and> set (map se_reason evicted) \<subseteq> {retention_reason}"
proof -
  let ?expired = "filter (frame_expired now adapt_hz windows) (bt_values (cs_entries s))"
  note v = bt_values_keys [OF assms(1)]
  have out: "evicted = evictions retention_reason ?expired" "store_inv s'"
    "store_frames s' = filter (within_retention now adapt_hz windows) (store_frames s)"
    using sweep_frames [OF assms(1), of now adapt_hz windows] assms(2) by (auto simp: frame_expired_iff)
  have keys: "map se_key evicted = map cf_key ?expired"
    by (simp add: out(1) evictions_def)
  have "k \<in> set (map cf_key ?expired) \<longleftrightarrow>
      (\<exists>f. bt_get (cs_entries s) k = Some f \<and> \<not> within_retention now adapt_hz windows f)" for k
  proof -
    have "k \<in> set (map cf_key ?expired) \<longleftrightarrow>
      (\<exists>f. f \<in> set (store_frames s) \<and> cf_key f = k \<and> \<not> within_retention now adapt_hz windows f)"
      using v(2) by (auto simp: frame_expired_iff)
    also have "\<dots> \<longleftrightarrow> (\<exists>f. bt_get (cs_entries s) k = Some f \<and> \<not> within_retention now adapt_hz windows f)"
      using store_inv_frames(3) [OF assms(1)] store_inv_key [OF assms(1)] by metis
    finally show ?thesis .
  qed
  moreover have "sorted_wrt (<) (map cf_key ?expired)"
    using v(3) by (simp add: sorted_wrt_map sorted_wrt_filter)
  moreover have "set (map se_reason evicted) \<subseteq> {retention_reason}"
    by (auto simp: out(1) evictions_def)
  ultimately show ?thesis
    using out(2,3) by (simp only: keys) blast
qed

theorem store_sweep_exact_witness:
  "store_frames (snd (sweep_retention 100 10
      [\<lparr>rw_session = symbol_new ''s'', rw_receipt_seq = 1, rw_retain_ms = 10000\<rparr>] demo_store))
    = [demo_frame ''a'' 1 0 3]"
  using store_sweep_exact [OF demo_store_inv prod.collapse [symmetric], of 100 10
      "[\<lparr>rw_session = symbol_new ''s'', rw_receipt_seq = 1, rw_retain_ms = 10000\<rparr>]"]
  by (simp add: demo_store_frames within_retention_def demo_frame_def elapsed_ms_def sat_mul_def
      sat_sub_def)

text \<open>Sequences of calls on one store.\<close>

datatype store_op =
    InsertFrame content_frame
  | SweepRetention u64 u16 "retention_window list"

primrec store_apply :: "store_op \<Rightarrow> content_store \<Rightarrow> content_store" where
  "store_apply (InsertFrame frame) s = snd (store_insert frame s)"
| "store_apply (SweepRetention now hz windows) s = snd (sweep_retention now hz windows s)"

lemma store_apply_inv:
  "store_inv s \<Longrightarrow> store_inv (store_apply op s) \<and> cs_max_bytes (store_apply op s) = cs_max_bytes s"
proof (cases op)
  case (InsertFrame frame)
  assume inv: "store_inv s"
  show ?thesis
  proof (cases "cf_size_bytes frame \<le> cs_max_bytes s")
    case True
    with store_insert_ok [OF inv True] InsertFrame show ?thesis by auto
  next
    case False
    with inv InsertFrame show ?thesis by (simp add: store_insert_def not_le)
  qed
next
  case (SweepRetention now hz windows)
  assume inv: "store_inv s"
  with sweep_frames [OF inv, of now hz windows] SweepRetention show ?thesis by auto
qed

lemma store_fold_inv:
  "store_inv s \<Longrightarrow> store_inv (fold store_apply ops s) \<and>
     cs_max_bytes (fold store_apply ops s) = cs_max_bytes s"
  by (induction ops arbitrary: s) (simp_all add: store_apply_inv)

text \<open>
  C22. A store made with a bound below the largest \<open>usize\<close> never holds more than that bound,
  whatever sequence of insertions and sweeps it goes through: its byte count is at every moment
  the true sum of the sizes of the frames it holds, and its length is their number.
\<close>
theorem store_run_bounded:
  assumes "store_new n = Ok s" and "n \<noteq> - 1" and s': "s' = fold store_apply ops s"
  shows "unat (cs_used_bytes s') = frame_bytes (store_frames s') \<and>
    frame_bytes (store_frames s') \<le> unat n \<and>
    store_len s' = length (store_frames s') \<and>
    (store_contains key s' \<longleftrightarrow> key \<in> set (map cf_key (store_frames s')))"
proof -
  have inv: "store_inv s'" "cs_max_bytes s' = n"
    using store_fold_inv [of s ops] store_inv_new [OF assms(1,2)] by (simp_all add: s')
  have keys: "map cf_key (store_frames s') = cs_order s'"
    by (rule store_frames_key [OF inv(1)])
  have "set (cs_order s') = set (bt_keys (cs_entries s'))"
    using store_inv_order [OF inv(1)] by (auto simp: btree.set_keys)
  moreover have "distinct (cs_order s')" "distinct (bt_keys (cs_entries s'))"
    using inv(1) by (simp_all add: store_inv_def btree.distinct_keys)
  ultimately have "length (cs_order s') = length (bt_keys (cs_entries s'))"
    by (metis distinct_card)
  then have "store_len s' = length (store_frames s')"
    using keys by (simp add: store_len_def bt_keys_def store_frames_def)
  moreover have "store_contains key s' \<longleftrightarrow> key \<in> set (map cf_key (store_frames s'))"
    unfolding keys using store_inv_order [OF inv(1)] by (simp add: store_contains_def)
  ultimately show ?thesis
    using store_inv_bytes [OF inv(1)] inv(2) by simp
qed

theorem store_run_bounded_witness:
  "frame_bytes (store_frames (fold store_apply [InsertFrame (demo_frame ''a'' 1 0 3)]
     \<lparr>cs_max_bytes = 10, cs_used_bytes = 0, cs_entries = bt_empty, cs_order = []\<rparr>)) \<le> unat (10 :: usize)"
  using store_run_bounded [of 10
      "\<lparr>cs_max_bytes = 10, cs_used_bytes = 0, cs_entries = bt_empty, cs_order = []\<rparr>"
      _ "[InsertFrame (demo_frame ''a'' 1 0 3)]", OF _ _ refl]
  by (simp add: store_new_def)

text \<open>
  At the one bound the byte count cannot exceed, the largest \<open>usize\<close>, an insertion never
  evicts anything for its size, however many bytes are stored: the saturating sum stays at the
  bound, so the loop condition is false.
\<close>
theorem store_insert_saturates:
  assumes "cs_max_bytes s = - 1"
  shows "fst (store_insert frame s) = Ok (if store_contains (cf_key frame) s
    then [\<lparr>se_key = cf_key frame, se_reason = replaced_reason\<rparr>] else [])"
proof -
  have "cs_max_bytes (snd (remove_existing (cf_key frame) s)) = - 1"
    using assms by (simp add: remove_existing_def split: option.splits)
  moreover have "\<not> (- 1 :: usize) < x" for x
    by (simp add: word_not_simps)
  ultimately have "make_room n (snd (remove_existing (cf_key frame) s))
      = ([], snd (remove_existing (cf_key frame) s))" for n
    by (simp add: make_room.simps)
  then show ?thesis
    using assms \<open>\<And>x. \<not> (- 1 :: usize) < x\<close>
    by (auto simp: store_insert_def Let_def store_contains_def remove_existing_def
        split: prod.splits option.splits)
qed

theorem store_insert_saturates_witness:
  "fst (store_insert (demo_frame ''c'' 3 9 (2 ^ 63)) (demo_store\<lparr>cs_max_bytes := - 1,
      cs_used_bytes := - 1\<rparr>)) = Ok []"
  using store_insert_saturates [of "demo_store\<lparr>cs_max_bytes := - 1, cs_used_bytes := - 1\<rparr>"
      "demo_frame ''c'' 3 9 (2 ^ 63)"]
  by (simp add: store_contains_def demo_store_def demo_frame_def bt_get_def)

end
