(* ===== verification/Loops.thy ===== *)
theory Loops
  imports Ring ContentStore "HOL-Library.While_Combinator"
begin

section \<open>The \<open>while\<close> loops of the substrate (\<open>src/ring.rs\<close>, \<open>src/store_evict.rs\<close>)\<close>

text \<open>
  The three \<open>while\<close> loops of the sources, kept as loops over the state they mutate:
  \<open>while_option\<close> is \<open>None\<close> exactly when a loop runs forever. \<open>Ring\<close> and \<open>ContentStore\<close> use the
  recursive reading of the same loops (\<open>ring_pop_all\<close>, \<open>evict_oldest\<close>, \<open>make_room\<close>); the lemmas
  here show that every loop stops, from every state (no invariant is needed), and that it stops
  where the recursion does. A loop whose body advances the recursion by one turn has this by one
  rule, \<open>while_option_by_recursion\<close>.
\<close>

text \<open>
  A loop computes \<open>f\<close> when \<open>f\<close> is unchanged by a turn, is the state itself at the exit, and a
  measure drops with every turn.
\<close>

lemma while_option_by_recursion:
  fixes m :: "'s \<Rightarrow> nat"
  assumes turn: "\<And>s. b s \<Longrightarrow> f (c s) = f s \<and> m (c s) < m s" and stop: "\<And>s. \<not> b s \<Longrightarrow> f s = s"
  shows "while_option b c s = Some (f s)"
proof (induction "m s" arbitrary: s rule: less_induct)
  case less
  show ?case
  proof (cases "b s")
    case True
    then have "while_option b c (c s) = Some (f (c s))"
      using less [of "c s"] turn by blast
    with True turn show ?thesis
      by (subst while_option_unfold) simp
  next
    case False
    with stop show ?thesis
      by (subst while_option_unfold) simp
  qed
qed

subsection \<open>Draining the ring (\<open>RingProcessSite::cancel\<close>)\<close>

text \<open>
  \<open>while self.try_pop().is_some() {}\<close>: the first component of the state is the outcome of the
  last test; a pop that would panic leaves \<open>None\<close> for the ring.
\<close>

definition drain_turn :: "bool \<times> 'a ring option \<Rightarrow> bool \<times> 'a ring option" where
  "drain_turn state =
     (case Option.bind (snd state) ring_try_pop of
        None \<Rightarrow> (False, None)
      | Some (item, r') \<Rightarrow> (item \<noteq> None, Some r'))"

definition ring_drain_loop :: "'a ring \<Rightarrow> (bool \<times> 'a ring option) option" where
  "ring_drain_loop r = while_option fst drain_turn (True, Some r)"

lemma ring_drain_loop_stops: "ring_drain_loop r = Some (False, ring_pop_all r)"
proof -
  let ?f = "\<lambda>(more, ring). if more then (False, Option.bind ring ring_pop_all) else (False, ring)"
  let ?m = "\<lambda>(more, ring). case ring of None \<Rightarrow> of_bool more
    | Some r \<Rightarrow> if more then Suc (unat (ring_len r)) else 0"
  have "?f (drain_turn s) = ?f s \<and> ?m (drain_turn s) < ?m s" if "fst s" for s :: "bool \<times> 'a ring option"
  proof (cases "snd s")
    case None
    with that show ?thesis by (cases s) (simp add: drain_turn_def)
  next
    case (Some r)
    with that show ?thesis
      by (cases s) (auto simp: drain_turn_def ring_pop_all.simps [of r]
          dest: ring_try_pop_len split: option.splits)
  qed
  moreover have "?f s = s" if "\<not> fst s" for s :: "bool \<times> 'a ring option"
    using that by (cases s) simp
  ultimately have "while_option fst drain_turn (True, Some r) = Some (?f (True, Some r))"
    by (rule while_option_by_recursion [where m = ?m])
  then show ?thesis
    by (simp add: ring_drain_loop_def)
qed

subsection \<open>Finding the oldest stored frame (\<open>evict_oldest\<close>)\<close>

text \<open>
  \<open>while let Some(key) = self.order.pop_front()\<close>, left by \<open>return\<close> as soon as a key of the queue
  names a stored frame. The first component is the value to return.
\<close>

definition evict_pending :: "store_evicted option \<times> content_store \<Rightarrow> bool" where
  "evict_pending state \<longleftrightarrow> fst state = None \<and> cs_order (snd state) \<noteq> []"

definition evict_turn :: "symbol \<Rightarrow> store_evicted option \<times> content_store \<Rightarrow>
    store_evicted option \<times> content_store" where
  "evict_turn reason state =
     (let s = snd state; key = hd (cs_order s);
          (old, s') = remove_existing key (s\<lparr>cs_order := tl (cs_order s)\<rparr>)
      in (if old \<noteq> None then Some \<lparr>se_key = key, se_reason = reason\<rparr> else None, s'))"

definition evict_oldest_loop :: "symbol \<Rightarrow> content_store \<Rightarrow>
    (store_evicted option \<times> content_store) option" where
  "evict_oldest_loop reason s = while_option evict_pending (evict_turn reason) (None, s)"

lemma evict_oldest_empty: "cs_order s = [] \<Longrightarrow> evict_oldest reason s = (None, s)"
  by (subst evict_oldest.simps) simp

lemma evict_oldest_loop_stops: "evict_oldest_loop reason s = Some (evict_oldest reason s)"
proof -
  let ?f = "\<lambda>(found, s). if found = None then evict_oldest reason s else (found, s)"
  let ?m = "\<lambda>(_, s). length (cs_order s)"
  have "?f (evict_turn reason st) = ?f st \<and> ?m (evict_turn reason st) < ?m st" if turn: "evict_pending st" for st
  proof -
    obtain s where pending: "st = (None, s)" "cs_order s \<noteq> []"
      using turn by (cases st) (simp add: evict_pending_def)
    then obtain key rest where st: "st = (None, s)" "cs_order s = key # rest"
      by (meson list.exhaust)
    have "length (filter (\<lambda>existing. existing \<noteq> key) rest) < Suc (length rest)"
      by (simp add: less_Suc_eq_le)
    then show ?thesis
      using st
      by (auto simp: evict_turn_def evict_oldest.simps [of reason s] remove_existing_def
          split: option.splits prod.splits)
  qed
  moreover have "?f st = st" if "\<not> evict_pending st" for st
    using that
    by (cases st) (auto simp: evict_pending_def evict_oldest_empty)
  ultimately have "while_option evict_pending (evict_turn reason) (None, s) = Some (?f (None, s))"
    by (rule while_option_by_recursion [where m = ?m])
  then show ?thesis
    by (simp add: evict_oldest_loop_def)
qed

lemma evict_oldest_None:
  "evict_oldest reason s = (None, s') \<Longrightarrow>
     cs_order s' = [] \<and> cs_max_bytes s' = cs_max_bytes s \<and> cs_used_bytes s' = cs_used_bytes s"
proof (induction reason s rule: evict_oldest.induct)
  case (1 reason s)
  then show ?case
    by (subst (asm) (2) evict_oldest.simps)
      (auto simp: remove_existing_def split: list.splits option.splits prod.splits)
qed

subsection \<open>Making room for a frame (\<open>insert\<close>)\<close>

text \<open>
  \<open>while self.used_bytes.saturating_add(frame.size_bytes) > self.max_bytes\<close>: the state is the
  evictions so far, whether the loop was left by \<open>break\<close>, and the store.
\<close>

definition room_pending :: "usize \<Rightarrow> store_evicted list \<times> bool \<times> content_store \<Rightarrow> bool" where
  "room_pending n state \<longleftrightarrow> (case state of (_, broke, s) \<Rightarrow>
     \<not> broke \<and> cs_max_bytes s < sat_add (cs_used_bytes s) n)"

definition room_turn :: "store_evicted list \<times> bool \<times> content_store \<Rightarrow>
    store_evicted list \<times> bool \<times> content_store" where
  "room_turn state = (case state of (evicted, broke, s) \<Rightarrow>
     (case evict_oldest size_bound_reason s of
        (Some item, s') \<Rightarrow> (evicted @ [item], broke, s')
      | (None, s') \<Rightarrow> (evicted, True, s')))"

definition make_room_loop :: "usize \<Rightarrow> content_store \<Rightarrow>
    (store_evicted list \<times> bool \<times> content_store) option" where
  "make_room_loop n s = while_option (room_pending n) room_turn ([], False, s)"

lemma make_room_done: "\<not> cs_max_bytes s < sat_add (cs_used_bytes s) n \<Longrightarrow> make_room n s = ([], s)"
  by (subst make_room.simps) simp

lemma make_room_loop_stops:
  "\<exists>broke. make_room_loop n s = Some (fst (make_room n s), broke, snd (make_room n s))"
proof -
  let ?f = "\<lambda>(ev, broke, s). if broke then (ev, broke, s) else
    (ev @ fst (make_room n s), cs_max_bytes (snd (make_room n s)) < sat_add (cs_used_bytes (snd (make_room n s))) n,
     snd (make_room n s))"
  let ?m = "\<lambda>(_, broke, s). if broke then 0 else Suc (length (cs_order s))"
  have "?f (room_turn st) = ?f st \<and> ?m (room_turn st) < ?m st" if turn: "room_pending n st" for st
  proof -
    obtain ev s where st: "st = (ev, False, s)" "cs_max_bytes s < sat_add (cs_used_bytes s) n"
      using turn by (cases st) (simp add: room_pending_def)
    show ?thesis
    proof (cases "evict_oldest size_bound_reason s")
      case (Pair found s')
      then show ?thesis
        using st evict_oldest_shrinks [of size_bound_reason s]
        by (cases found)
          (auto simp: room_turn_def make_room.simps [of n s] evict_oldest_None split: prod.splits)
    qed
  qed
  moreover have "?f st = st" if "\<not> room_pending n st" for st
    using that
    by (cases st) (auto simp: room_pending_def make_room_done)
  ultimately have "make_room_loop n s = Some (?f ([], False, s))"
    unfolding make_room_loop_def by (rule while_option_by_recursion [where m = ?m])
  then show ?thesis
    by simp
qed

lemma make_room_queue:
  "length (fst (make_room n s)) + length (cs_order (snd (make_room n s))) \<le> length (cs_order s) \<and>
   (sat_add (cs_used_bytes (snd (make_room n s))) n \<le> cs_max_bytes (snd (make_room n s)) \<or>
    cs_order (snd (make_room n s)) = [])"
proof (induction n s rule: make_room.induct)
  case (1 n s)
  show ?case
  proof (cases "cs_max_bytes s < sat_add (cs_used_bytes s) n")
    case True
    then show ?thesis
      using 1 evict_oldest_shrinks [of size_bound_reason s]
      by (cases "evict_oldest size_bound_reason s"; cases "fst (evict_oldest size_bound_reason s)")
        (force simp: make_room.simps [of n s] evict_oldest_None split: prod.splits)+
  qed (simp add: make_room_done not_less)
qed

text \<open>
  C23. The eviction loop of an insertion always ends, from any store whatever its bookkeeping:
  the loop, run as a loop over its mutable state, returns the evictions and the store of the
  recursive reading \<open>make_room\<close>, its inner loop \<open>evict_oldest\<close> returns as well, it evicts no
  more entries than the queue holds, and on return the new frame fits or nothing is left to evict.
\<close>

theorem insert_loops_terminate:
  "\<exists>evicted broke s'. make_room_loop n s = Some (evicted, broke, s') \<and>
     make_room n s = (evicted, s') \<and>
     evict_oldest_loop reason s = Some (evict_oldest reason s) \<and>
     length evicted + length (cs_order s') \<le> length (cs_order s) \<and>
     (sat_add (cs_used_bytes s') n \<le> cs_max_bytes s' \<or> cs_order s' = [])"
proof -
  obtain broke where "make_room_loop n s = Some (fst (make_room n s), broke, snd (make_room n s))"
    using make_room_loop_stops by blast
  then show ?thesis
    using make_room_queue [of n s] evict_oldest_loop_stops [of reason s]
    by (intro exI [of _ "fst (make_room n s)"] exI [of _ broke] exI [of _ "snd (make_room n s)"]) simp
qed

end
