(* ===== verification/Effects.thy ===== *)
theory Effects
  imports Kernel "HOL-Library.Sublist"
begin

section \<open>Device sessions and effect authority (\<open>src/device.rs\<close>, \<open>src/music_effects.rs\<close>)\<close>

text \<open>
  The session surface of stream devices: profiles, provider manifests, the registry of effect
  descriptors with the authority check every effect request passes, the fake effect session that
  executes them, and the stub and cassette providers. A device effect happens when \<open>invoke\<close>
  answers a receipt with a fresh sequence number; the locale \<open>effect_session\<close> states what any
  such session promises, and \<open>fake_effects\<close> discharges it for \<open>FakeEffectSession\<close>. The length of
  the debug rendering of a payload (\<open>Expr\<close> is a type of \<open>sim_kernel\<close>) is the parameter
  \<open>debug_len\<close> of the definitions that compare it.
\<close>

subsection \<open>Errors and profiles\<close>

datatype device_error =
    Unsupported
  | Sample message
  | Host message
  | Contract message

type_synonym 'a device_result = "device_error + 'a"

primrec device_error_display :: "device_error \<Rightarrow> message" where
  "device_error_display Unsupported = [Lit ''device provider is unsupported'']"
| "device_error_display (Sample m) = Lit ''device sample error: '' # m"
| "device_error_display (Host m) = m"
| "device_error_display (Contract m) = Lit ''device contract error: '' # m"

primrec error_from_device :: "device_error \<Rightarrow> error" where
  "error_from_device Unsupported = HostError [Lit ''device provider is unsupported'']"
| "error_from_device (Sample m) = Eval (Lit ''device sample error: '' # m)"
| "error_from_device (Host m) = HostError m"
| "error_from_device (Contract m) = Eval (Lit ''device contract error: '' # m)"

record device_profile =
  dp_device :: symbol
  dp_streams :: "symbol list"
  dp_inputs :: "symbol list"
  dp_outputs :: "symbol list"
  dp_sample_kinds :: "symbol list"

definition device_profile_new ::
  "symbol \<Rightarrow> symbol list \<Rightarrow> symbol list \<Rightarrow> symbol list \<Rightarrow> symbol list \<Rightarrow> device_profile" where
  "device_profile_new device streams inputs outputs sample_kinds = \<lparr>dp_device = device, dp_streams = streams,
     dp_inputs = inputs, dp_outputs = outputs, dp_sample_kinds = sample_kinds\<rparr>"

definition device_sample_kind_symbol :: "string \<Rightarrow> symbol" where
  "device_sample_kind_symbol kind = symbol_qualified ''stream/device-sample'' kind"

definition modeled_edge :: device_profile where
  "modeled_edge = \<lparr>
     dp_device = symbol_qualified ''device'' ''modeled-edge'',
     dp_streams = [symbol_qualified ''device/stream'' ''battery'',
                   symbol_qualified ''device/stream'' ''motion''],
     dp_inputs = [symbol_qualified ''device/input'' ''button''],
     dp_outputs = [symbol_qualified ''device/output'' ''screen'',
                   symbol_qualified ''device/output'' ''haptic''],
     dp_sample_kinds = [device_sample_kind_symbol ''device-caps'']\<rparr>"

definition supports_sample_kind :: "device_profile \<Rightarrow> symbol \<Rightarrow> bool" where
  "supports_sample_kind p kind \<longleftrightarrow> kind \<in> set (dp_sample_kinds p)"

subsection \<open>Effect descriptors\<close>

text \<open>\<open>std::time::Duration\<close>, as its number of nanoseconds.\<close>

type_synonym duration = nat

definition from_millis :: "u64 \<Rightarrow> duration" where
  "from_millis ms = unat ms * 1000000"

definition from_secs :: "u64 \<Rightarrow> duration" where
  "from_secs s = unat s * 1000000000"

datatype provider_transport = Cassette | Ble | Usb | Native | Import

datatype idempotence_policy = Idempotent | Keyed | AtMostOnce

datatype reversal_policy = Irreversible | ReversedBy symbol

record effect_bounds =
  max_request_bytes :: usize
  max_invocations :: u64

record effect_descriptor =
  ed_id :: symbol
  ed_shape :: symbol
  ed_capability :: capability
  ed_bounds :: effect_bounds
  ed_requires_arm :: bool
  ed_expires_after :: duration
  ed_receipt :: symbol
  ed_idempotence :: idempotence_policy
  ed_reversal :: reversal_policy
  ed_local_stop :: symbol

record effect_request =
  rq_descriptor :: symbol
  rq_payload :: expr
  rq_arm :: "string option"
  rq_idempotence_key :: "string option"
  rq_grants :: "capability list"
  rq_armed_at_ms :: u64
  rq_invoked_at_ms :: u64

record effect_receipt =
  rc_kind :: symbol
  rc_descriptor :: symbol
  rc_sequence :: u64

text \<open>\<open>as_deref().is_none_or(str::is_empty)\<close>.\<close>

definition none_or_empty :: "string option \<Rightarrow> bool" where
  "none_or_empty x \<longleftrightarrow> (case x of None \<Rightarrow> True | Some t \<Rightarrow> t = [])"

definition descriptor_validate :: "effect_descriptor \<Rightarrow> unit device_result" where
  "descriptor_validate d =
     (if sym_name (ed_shape d) = [] \<or> ed_capability d = [] \<or>
         max_request_bytes (ed_bounds d) = 0 \<or> max_invocations (ed_bounds d) = 0 \<or>
         ed_expires_after d = 0 \<or> sym_name (ed_receipt d) = [] \<or>
         sym_name (ed_local_stop d) = []
      then Err (Contract [Lit ''effect '', Show_sym (ed_id d),
                          Lit '' has an incomplete authority descriptor''])
      else if ed_reversal d = ReversedBy (ed_id d)
      then Err (Contract [Lit ''effect '', Show_sym (ed_id d), Lit '' reverses itself''])
      else Ok ())"

definition authorize ::
  "(expr \<Rightarrow> usize) \<Rightarrow> effect_descriptor \<Rightarrow> effect_request \<Rightarrow> unit device_result" where
  "authorize debug_len d req =
     and_then (descriptor_validate d) (\<lambda>_.
     if rq_descriptor req \<noteq> ed_id d
     then Err (Contract [Lit ''forged effect descriptor''])
     else if ed_capability d \<notin> set (rq_grants req)
     then Err (Contract [Lit ''missing capability '', Show_str (ed_capability d)])
     else if ed_requires_arm d \<and> none_or_empty (rq_arm req)
     then Err (Contract [Lit ''effect request is not armed''])
     else if rq_invoked_at_ms req < rq_armed_at_ms req \<or>
       ed_expires_after d < from_millis (rq_invoked_at_ms req - rq_armed_at_ms req)
     then Err (Contract [Lit ''effect request arm has expired''])
     else if ed_idempotence d = Keyed \<and> none_or_empty (rq_idempotence_key req)
     then Err (Contract [Lit ''effect request has no idempotence key''])
     else if max_request_bytes (ed_bounds d) < debug_len (rq_payload req)
     then Err (Contract [Lit ''effect request exceeds its size bound''])
     else Ok ())"

definition standard_effect_descriptor :: "string \<Rightarrow> effect_descriptor" where
  "standard_effect_descriptor i = \<lparr>
     ed_id = symbol_qualified ''device/effect'' i,
     ed_shape = symbol_qualified ''shape/device-effect'' i,
     ed_capability = ''device.effect.'' @ i,
     ed_bounds = \<lparr>max_request_bytes = 64 * 1024, max_invocations = - 1\<rparr>,
     ed_requires_arm = True,
     ed_expires_after = from_secs 30,
     ed_receipt = symbol_qualified ''device/receipt'' i,
     ed_idempotence = Keyed,
     ed_reversal = Irreversible,
     ed_local_stop = symbol_qualified ''device/effect'' ''stop''\<rparr>"

subsection \<open>The registry and provider manifests\<close>

type_synonym effect_registry = "(symbol, effect_descriptor) btree"

primrec registry_fill ::
  "effect_descriptor list \<Rightarrow> effect_registry \<Rightarrow> effect_registry device_result" where
  "registry_fill [] entries = Ok entries"
| "registry_fill (d # ds) entries =
     and_then (descriptor_validate d) (\<lambda>_.
     if bt_get entries (ed_id d) \<noteq> None
     then Err (Contract [Lit ''duplicate effect descriptor '', Show_sym (ed_id d)])
     else registry_fill ds (bt_insert (ed_id d) d entries))"

definition registry_new :: "effect_descriptor list \<Rightarrow> effect_registry device_result" where
  "registry_new descriptors = registry_fill descriptors bt_empty"

definition registry_get :: "effect_registry \<Rightarrow> symbol \<Rightarrow> effect_descriptor option" where
  "registry_get reg i = bt_get reg i"

record provider_manifest =
  pm_version :: u16
  pm_id :: symbol
  pm_transport :: provider_transport
  pm_profile :: string
  pm_observations :: "symbol list"
  pm_effects :: "symbol list"
  pm_consent :: "capability list"
  pm_stale_after :: duration
  pm_cassette :: string
  pm_fallback :: symbol

text \<open>\<open>to_ascii_lowercase\<close> and \<open>str::contains\<close> on the bytes of a string.\<close>

definition ascii_lower :: "char \<Rightarrow> char" where
  "ascii_lower c = (let n = of_char c :: nat in if 65 \<le> n \<and> n \<le> 90 then char_of (n + 32) else c)"

fun str_contains :: "string \<Rightarrow> string \<Rightarrow> bool" where
  "str_contains [] needle \<longleftrightarrow> needle = []"
| "str_contains (c # cs) needle \<longleftrightarrow> prefix needle (c # cs) \<or> str_contains cs needle"

definition secret_material :: "string \<Rightarrow> bool" where
  "secret_material v \<longleftrightarrow> (let lower = map ascii_lower v in
     str_contains lower ''secret'' \<or> str_contains lower ''token'' \<or> str_contains lower ''password'')"

primrec check_references :: "string list \<Rightarrow> unit device_result" where
  "check_references [] = Ok ()"
| "check_references (v # vs) =
     (if secret_material v
      then Err (Contract [Lit ''provider manifest contains secret material''])
      else if v = []
      then Err (Contract [Lit ''provider manifest has an empty content reference''])
      else check_references vs)"

primrec check_declared :: "effect_registry \<Rightarrow> symbol list \<Rightarrow> unit device_result" where
  "check_declared reg [] = Ok ()"
| "check_declared reg (e # es) =
     (if registry_get reg e = None
      then Err (Contract [Lit ''undeclared effect descriptor '', Show_sym e])
      else check_declared reg es)"

definition manifest_validate :: "provider_manifest \<Rightarrow> effect_registry \<Rightarrow> unit device_result" where
  "manifest_validate m reg =
     and_then (ensure (pm_version m = 1)
       (Contract [Lit ''unsupported provider manifest version '', Show_num (unat (pm_version m))]))
       (\<lambda>_.
     and_then (ensure (pm_stale_after m \<noteq> 0)
       (Contract [Lit ''provider manifest has no stale bound''])) (\<lambda>_.
     and_then (check_references [pm_profile m, pm_cassette m]) (\<lambda>_.
     check_declared reg (pm_effects m))))"

subsection \<open>Sessions and providers\<close>

text \<open>What opening a provider gives: observation only, or effect authority too.\<close>

datatype ('o, 'e) opened_session = Observe 'o | Effect 'e

definition opened_observation :: "('o, 'o) opened_session \<Rightarrow> 'o" where
  "opened_observation s = (case s of Observe session \<Rightarrow> session | Effect session \<Rightarrow> session)"

definition opened_effect :: "('o, 'e) opened_session \<Rightarrow> 'e option" where
  "opened_effect s = (case s of Observe _ \<Rightarrow> None | Effect session \<Rightarrow> Some session)"

text \<open>\<open>poll_device_sample\<close>: \<open>poll\<close> is the session's, \<open>kind\<close> and \<open>decode\<close> the sample type's.\<close>

definition poll_device_sample ::
  "(string \<Rightarrow> 's \<Rightarrow> expr option device_result \<times> 's) \<Rightarrow> string \<Rightarrow> (expr \<Rightarrow> 'a device_result) \<Rightarrow>
   's \<Rightarrow> 'a option device_result \<times> 's" where
  "poll_device_sample poll kind decode session =
     (case poll kind session of
        (Inl e, session') \<Rightarrow> (Err e, session')
      | (Inr None, session') \<Rightarrow> (Ok None, session')
      | (Inr (Some x), session') \<Rightarrow> (and_then (decode x) (\<lambda>y. Ok (Some y)), session'))"

record stub_session =
  ss_profile :: device_profile

definition stub_session_new :: "device_profile \<Rightarrow> stub_session" where
  "stub_session_new profile = \<lparr>ss_profile = profile\<rparr>"

record stub_provider =
  sp_profile :: device_profile

definition stub_provider_new :: "device_profile \<Rightarrow> stub_provider" where
  "stub_provider_new profile = \<lparr>sp_profile = profile\<rparr>"

definition stub_provider_session :: "stub_provider \<Rightarrow> stub_session" where
  "stub_provider_session p = stub_session_new (sp_profile p)"

definition stub_open :: "stub_provider \<Rightarrow> (stub_session, stub_session) opened_session device_result" where
  "stub_open p = Err Unsupported"

definition stub_start :: "stub_session \<Rightarrow> unit device_result \<times> stub_session" where
  "stub_start s = (Err Unsupported, s)"

definition stub_poll :: "string \<Rightarrow> stub_session \<Rightarrow> expr option device_result \<times> stub_session" where
  "stub_poll kind s = (Err Unsupported, s)"

definition stub_stop :: "stub_session \<Rightarrow> unit device_result \<times> stub_session" where
  "stub_stop s = (Ok (), s)"

record observation_cassette =
  oc_profile :: device_profile
  oc_samples :: "expr list"

definition observation_cassette_new :: "device_profile \<Rightarrow> expr list \<Rightarrow> observation_cassette" where
  "observation_cassette_new profile samples = \<lparr>oc_profile = profile, oc_samples = samples\<rparr>"

record cassette_session =
  cs_profile :: device_profile
  cs_samples :: "expr list"

definition cassette_open ::
  "observation_cassette \<Rightarrow> (cassette_session, 'e) opened_session device_result" where
  "cassette_open c = Ok (Observe \<lparr>cs_profile = oc_profile c, cs_samples = oc_samples c\<rparr>)"

definition cassette_start :: "cassette_session \<Rightarrow> unit device_result \<times> cassette_session" where
  "cassette_start s = (Ok (), s)"

definition cassette_poll ::
  "string \<Rightarrow> cassette_session \<Rightarrow> expr option device_result \<times> cassette_session" where
  "cassette_poll kind s =
     (case cs_samples s of
        [] \<Rightarrow> (Ok None, s)
      | x # xs \<Rightarrow> (Ok (Some x), s\<lparr>cs_samples := xs\<rparr>))"

definition cassette_stop :: "cassette_session \<Rightarrow> unit device_result \<times> cassette_session" where
  "cassette_stop s = (Ok (), s)"

subsection \<open>The fake effect session\<close>

record fake_session =
  fs_profile :: device_profile
  fs_registry :: effect_registry
  fs_receipts :: "(string, effect_receipt) btree"
  fs_invocations :: "(symbol, u64) btree"
  fs_stopped :: bool
  fs_sequence :: u64

definition fake_new :: "device_profile \<Rightarrow> effect_registry \<Rightarrow> fake_session" where
  "fake_new profile reg = \<lparr>fs_profile = profile, fs_registry = reg, fs_receipts = bt_empty,
     fs_invocations = bt_empty, fs_stopped = False, fs_sequence = 0\<rparr>"

definition fake_start :: "fake_session \<Rightarrow> unit device_result \<times> fake_session" where
  "fake_start s = (Ok (), s\<lparr>fs_stopped := False\<rparr>)"

definition fake_poll :: "string \<Rightarrow> fake_session \<Rightarrow> expr option device_result \<times> fake_session" where
  "fake_poll kind s = (Ok None, s)"

definition fake_stop :: "fake_session \<Rightarrow> unit device_result \<times> fake_session" where
  "fake_stop s = (Ok (), s\<lparr>fs_stopped := True\<rparr>)"

text \<open>\<open>invocations.entry(id).or_default()\<close>: the count, and the table with an entry for it.\<close>

definition entry_or_default :: "symbol \<Rightarrow> (symbol, u64) btree \<Rightarrow> u64 \<times> (symbol, u64) btree" where
  "entry_or_default i counts =
     (case bt_get counts i of Some n \<Rightarrow> (n, counts) | None \<Rightarrow> (0, bt_insert i 0 counts))"

text \<open>\<open>invoke\<close>; \<open>None\<close> is the overflow of one of the two counters it adds one to.\<close>

definition fake_invoke ::
  "(expr \<Rightarrow> usize) \<Rightarrow> effect_request \<Rightarrow> fake_session \<Rightarrow>
   (effect_receipt device_result \<times> fake_session) option" where
  "fake_invoke debug_len req s =
     (if fs_stopped s then Some (Err (Host [Lit ''effect session is locally stopped'']), s)
      else case registry_get (fs_registry s) (rq_descriptor req) of
        None \<Rightarrow> Some (Err (Contract [Lit ''effect is not registered'']), s)
      | Some d \<Rightarrow>
         (case authorize debug_len d req of
            Inl e \<Rightarrow> Some (Err e, s)
          | Inr _ \<Rightarrow>
             (let (count, counts) = entry_or_default (rq_descriptor req) (fs_invocations s);
                  s1 = s\<lparr>fs_invocations := counts\<rparr>
              in if max_invocations (ed_bounds d) \<le> count
                 then Some (Err (Contract [Lit ''effect invocation bound exhausted'']), s1)
                 else case Option.bind (rq_idempotence_key req) (bt_get (fs_receipts s)) of
                   Some receipt \<Rightarrow> Some (Ok receipt, s1)
                 | None \<Rightarrow>
                   do { count' \<leftarrow> checked_add count 1;
                        n \<leftarrow> checked_add (fs_sequence s) 1;
                        let receipt = \<lparr>rc_kind = ed_receipt d, rc_descriptor = ed_id d,
                                       rc_sequence = n\<rparr>;
                        Some (Ok receipt,
                          s1\<lparr>fs_invocations := bt_insert (rq_descriptor req) count' counts,
                             fs_sequence := n,
                             fs_receipts := (case rq_idempotence_key req of
                                 None \<Rightarrow> fs_receipts s
                               | Some key \<Rightarrow> bt_insert key receipt (fs_receipts s))\<rparr>) })))"

subsection \<open>The reviewed music effects\<close>

datatype music_effect = MidiSend | AudioRouteOpen | AudioRouteClose | EmergencyStop

primrec music_effect_name :: "music_effect \<Rightarrow> string" where
  "music_effect_name MidiSend = ''music-midi-send''"
| "music_effect_name AudioRouteOpen = ''music-audio-route-open''"
| "music_effect_name AudioRouteClose = ''music-audio-route-close''"
| "music_effect_name EmergencyStop = ''music-emergency-stop''"

definition music_effect_descriptor :: "music_effect \<Rightarrow> effect_descriptor" where
  "music_effect_descriptor e = \<lparr>
     ed_id = symbol_qualified ''device/effect'' (music_effect_name e),
     ed_shape = symbol_qualified ''shape/music-effect'' (music_effect_name e),
     ed_capability = ''music.effect.'' @ music_effect_name e,
     ed_bounds = \<lparr>max_request_bytes = 4096, max_invocations = 4096\<rparr>,
     ed_requires_arm = True,
     ed_expires_after = from_secs 5,
     ed_receipt = symbol_qualified ''music/effect-receipt'' (music_effect_name e),
     ed_idempotence = Keyed,
     ed_reversal = (case e of
         AudioRouteOpen \<Rightarrow>
           ReversedBy (symbol_qualified ''device/effect'' (music_effect_name AudioRouteClose))
       | _ \<Rightarrow> Irreversible),
     ed_local_stop = symbol_qualified ''device/effect'' (music_effect_name EmergencyStop)\<rparr>"

definition music_effect_registry :: "effect_registry device_result" where
  "music_effect_registry = registry_new
     (map music_effect_descriptor [MidiSend, AudioRouteOpen, AudioRouteClose, EmergencyStop])"

subsection \<open>Validation and authorization\<close>

definition complete_descriptor :: "effect_descriptor \<Rightarrow> bool" where
  "complete_descriptor d \<longleftrightarrow>
     sym_name (ed_shape d) \<noteq> [] \<and> ed_capability d \<noteq> [] \<and>
     0 < max_request_bytes (ed_bounds d) \<and> 0 < max_invocations (ed_bounds d) \<and>
     0 < ed_expires_after d \<and> sym_name (ed_receipt d) \<noteq> [] \<and>
     sym_name (ed_local_stop d) \<noteq> [] \<and> ed_reversal d \<noteq> ReversedBy (ed_id d)"

lemma descriptor_validate_Ok: "descriptor_validate d = Ok u \<longleftrightarrow> complete_descriptor d"
  by (auto simp: descriptor_validate_def complete_descriptor_def word_neq_0_conv)

lemma none_or_empty_iff: "\<not> none_or_empty x \<longleftrightarrow> (\<exists>t. x = Some t \<and> t \<noteq> [])"
  by (auto simp: none_or_empty_def split: option.splits)

lemma from_millis_mono: "from_millis a \<le> from_millis b \<longleftrightarrow> unat a \<le> unat b"
  by (simp add: from_millis_def)

text \<open>The age of an armed request, exact because the timestamps are compared first.\<close>

lemma from_millis_diff:
  "armed \<le> invoked \<Longrightarrow> from_millis (invoked - armed) = from_millis invoked - from_millis armed"
  by (simp add: from_millis_def unat_sub diff_mult_distrib)

definition authorized :: "(expr \<Rightarrow> usize) \<Rightarrow> effect_descriptor \<Rightarrow> effect_request \<Rightarrow> bool" where
  "authorized debug_len d req \<longleftrightarrow>
     complete_descriptor d \<and> rq_descriptor req = ed_id d \<and> ed_capability d \<in> set (rq_grants req) \<and>
     (ed_requires_arm d \<longrightarrow> (\<exists>t. rq_arm req = Some t \<and> t \<noteq> [])) \<and>
     rq_armed_at_ms req \<le> rq_invoked_at_ms req \<and>
     from_millis (rq_invoked_at_ms req) \<le> from_millis (rq_armed_at_ms req) + ed_expires_after d \<and>
     (ed_idempotence d = Keyed \<longrightarrow> (\<exists>k. rq_idempotence_key req = Some k \<and> k \<noteq> [])) \<and>
     debug_len (rq_payload req) \<le> max_request_bytes (ed_bounds d)"

lemma authorize_Ok: "authorize debug_len d req = Ok u \<longleftrightarrow> authorized debug_len d req"
proof -
  have age: "rq_invoked_at_ms req < rq_armed_at_ms req \<or>
      ed_expires_after d < from_millis (rq_invoked_at_ms req - rq_armed_at_ms req) \<longleftrightarrow>
    \<not> (rq_armed_at_ms req \<le> rq_invoked_at_ms req \<and>
      from_millis (rq_invoked_at_ms req) \<le> from_millis (rq_armed_at_ms req) + ed_expires_after d)"
  proof (cases "rq_armed_at_ms req \<le> rq_invoked_at_ms req")
    case True
    then have "from_millis (rq_armed_at_ms req) \<le> from_millis (rq_invoked_at_ms req)"
      by (simp add: from_millis_mono word_le_nat_alt)
    moreover have "\<not> rq_invoked_at_ms req < rq_armed_at_ms req"
      using True by (simp add: not_less)
    ultimately show ?thesis
      using from_millis_diff [OF True] True by auto
  qed (simp add: not_le)
  have "authorize debug_len d req = Ok () \<longleftrightarrow>
      complete_descriptor d \<and> rq_descriptor req = ed_id d \<and> ed_capability d \<in> set (rq_grants req) \<and>
      \<not> (ed_requires_arm d \<and> none_or_empty (rq_arm req)) \<and>
      \<not> (rq_invoked_at_ms req < rq_armed_at_ms req \<or>
        ed_expires_after d < from_millis (rq_invoked_at_ms req - rq_armed_at_ms req)) \<and>
      \<not> (ed_idempotence d = Keyed \<and> none_or_empty (rq_idempotence_key req)) \<and>
      debug_len (rq_payload req) \<le> max_request_bytes (ed_bounds d)"
    unfolding authorize_def and_then_eq_Ok descriptor_validate_Ok
    by (auto simp: not_less simp del: de_Morgan_disj de_Morgan_conj split: if_splits)
  then show ?thesis
    unfolding age authorized_def none_or_empty_iff [symmetric] by (cases u) blast
qed

subsection \<open>The registry\<close>

lemma registry_fill_Ok:
  "registry_fill ds m = Ok reg \<longleftrightarrow>
     (\<forall>d \<in> set ds. complete_descriptor d) \<and> distinct (map ed_id ds) \<and>
     (\<forall>d \<in> set ds. bt_get m (ed_id d) = None) \<and> reg = fold (\<lambda>d. bt_insert (ed_id d) d) ds m"
proof (induction ds arbitrary: m)
  case Nil
  then show ?case by auto
next
  case (Cons d ds)
  show ?case
    by (auto simp: result_simps descriptor_validate_Ok Cons.IH btree.laws split: if_splits)
      (metis image_eqI)
qed

lemma registry_new_Ok:
  "registry_new ds = Ok reg \<longleftrightarrow>
     (\<forall>d \<in> set ds. complete_descriptor d) \<and> distinct (map ed_id ds) \<and>
     reg = fold (\<lambda>d. bt_insert (ed_id d) d) ds bt_empty"
  unfolding registry_new_def registry_fill_Ok by (simp add: btree.laws)

lemma registry_new_get:
  assumes "registry_new ds = Ok reg"
  shows "registry_get reg i = Some d \<longleftrightarrow> d \<in> set ds \<and> ed_id d = i"
proof -
  have dist: "distinct (map ed_id ds)" and reg: "reg = fold (\<lambda>d. bt_insert (ed_id d) d) ds bt_empty"
    using assms by (simp_all add: registry_new_Ok)
  have get: "registry_get reg i = find (\<lambda>d. ed_id d = i) ds"
    using btree.get_fold_insert [OF dist, of "\<lambda>d. d" bt_empty i]
    by (simp add: registry_get_def reg btree.laws split: option.splits)
  show ?thesis
  proof
    assume "registry_get reg i = Some d"
    then show "d \<in> set ds \<and> ed_id d = i"
      unfolding get by (rule find_Some_mem)
  next
    assume d: "d \<in> set ds \<and> ed_id d = i"
    then obtain d' where d': "find (\<lambda>d. ed_id d = i) ds = Some d'"
      by (cases "find (\<lambda>d. ed_id d = i) ds") (auto simp: find_None_iff)
    have "d' = d"
      using find_Some_mem [OF d'] d dist by (auto simp: distinct_map dest: inj_onD)
    with d' show "registry_get reg i = Some d"
      by (simp add: get)
  qed
qed

subsection \<open>Manifests\<close>

lemma str_contains_sublist: "str_contains s needle \<longleftrightarrow> sublist needle s"
  by (induction s needle rule: str_contains.induct) (auto simp: sublist_Cons_right)

lemma check_references_Ok:
  "check_references vs = Ok u \<longleftrightarrow> (\<forall>v \<in> set vs. v \<noteq> [] \<and> \<not> secret_material v)"
  by (induction vs) auto

lemma check_declared_Ok:
  "check_declared reg es = Ok u \<longleftrightarrow> (\<forall>e \<in> set es. registry_get reg e \<noteq> None)"
  by (induction es) auto

subsection \<open>What an effect session promises\<close>

text \<open>
  A session is driven by operations; some carry an effect request, and some outcomes carry a
  receipt. The contract: a receipt is only ever the outcome of a request, and that request was
  authorized by the descriptor the session has registered under the name it asks for. The
  registered descriptors never change.
\<close>

locale effect_session =
  fixes debug_len :: "expr \<Rightarrow> usize"
    and step :: "'op \<Rightarrow> 's \<Rightarrow> ('out \<times> 's) option"
    and request_of :: "'op \<Rightarrow> effect_request option"
    and receipt_of :: "'out \<Rightarrow> effect_receipt option"
    and registered :: "'s \<Rightarrow> symbol \<Rightarrow> effect_descriptor option"
  assumes step_registered: "step op s = Some (out, s') \<Longrightarrow> registered s' = registered s"
    and step_authorized: "step op s = Some (out, s') \<Longrightarrow> receipt_of out = Some r \<Longrightarrow>
      \<exists>req d. request_of op = Some req \<and> registered s (rq_descriptor req) = Some d \<and>
        authorize debug_len d req = Ok ()"
begin

lemma run_registered: "run_steps step ops s = Some (outs, s') \<Longrightarrow> registered s' = registered s"
  by (rule run_steps_invariant [where P = "\<lambda>t. registered t = registered s"])
    (auto dest: step_registered)

lemma run_authorized:
  "run_steps step ops s = Some (outs, s') \<Longrightarrow> (op, out) \<in> set (zip ops outs) \<Longrightarrow>
   receipt_of out = Some r \<Longrightarrow>
   \<exists>req d. request_of op = Some req \<and> registered s (rq_descriptor req) = Some d \<and>
     authorized debug_len d req"
proof (induction ops arbitrary: s outs)
  case Nil
  then show ?case by simp
next
  case (Cons op1 ops)
  then obtain out1 s1 outs1 where step: "step op1 s = Some (out1, s1)"
    "run_steps step ops s1 = Some (outs1, s')" "outs = out1 # outs1"
    by (auto split: bind_splits)
  show ?case
  proof (cases "(op, out) = (op1, out1)")
    case True
    then show ?thesis
      using step_authorized [OF step(1), of r] Cons.prems(3) by (auto simp: authorize_Ok)
  next
    case False
    then have "(op, out) \<in> set (zip ops outs1)"
      using Cons.prems(2) step(3) by auto
    from Cons.IH [OF step(2) this Cons.prems(3)] show ?thesis
      using step_registered [OF step(1)] by simp
  qed
qed

end

subsection \<open>The fake session keeps the contract\<close>

datatype fake_op = StartSession | StopSession | PollSession string | InvokeEffect effect_request

datatype fake_out =
    Done "unit device_result"
  | Polled "expr option device_result"
  | Invoked "effect_receipt device_result"

primrec fake_step ::
  "(expr \<Rightarrow> usize) \<Rightarrow> fake_op \<Rightarrow> fake_session \<Rightarrow> (fake_out \<times> fake_session) option" where
  "fake_step debug_len StartSession s = Some (let (r, s') = fake_start s in (Done r, s'))"
| "fake_step debug_len StopSession s = Some (let (r, s') = fake_stop s in (Done r, s'))"
| "fake_step debug_len (PollSession kind) s = Some (let (r, s') = fake_poll kind s in (Polled r, s'))"
| "fake_step debug_len (InvokeEffect req) s =
     map_option (\<lambda>(r, s'). (Invoked r, s')) (fake_invoke debug_len req s)"

definition op_request :: "fake_op \<Rightarrow> effect_request option" where
  "op_request op = (case op of InvokeEffect req \<Rightarrow> Some req | _ \<Rightarrow> None)"

definition out_receipt :: "fake_out \<Rightarrow> effect_receipt option" where
  "out_receipt out = (case out of Invoked (Inr r) \<Rightarrow> Some r | _ \<Rightarrow> None)"

definition invocation_count :: "fake_session \<Rightarrow> symbol \<Rightarrow> u64" where
  "invocation_count s i = (case bt_get (fs_invocations s) i of None \<Rightarrow> 0 | Some n \<Rightarrow> n)"

lemma entry_or_default_eq:
  "fst (entry_or_default i (fs_invocations s)) = invocation_count s i"
  "(case bt_get (snd (entry_or_default i counts)) j of None \<Rightarrow> 0 | Some n \<Rightarrow> n)
     = (case bt_get counts j of None \<Rightarrow> 0 | Some n \<Rightarrow> n)"
  by (auto simp: entry_or_default_def invocation_count_def btree.laws split: option.splits)

text \<open>An invocation that is authorized, has room and is no replay.\<close>

lemma fake_invoke_executes:
  assumes "fake_invoke debug_len req s = Some (out, s')"
    and "\<not> fs_stopped s" "registry_get (fs_registry s) (rq_descriptor req) = Some d" "authorize debug_len d req = Ok u"
    and "\<not> max_invocations (ed_bounds d) \<le> invocation_count s (rq_descriptor req)"
    and "Option.bind (rq_idempotence_key req) (bt_get (fs_receipts s)) = None"
    and r: "r = \<lparr>rc_kind = ed_receipt d, rc_descriptor = ed_id d, rc_sequence = fs_sequence s + 1\<rparr>"
  shows "out = Ok r \<and> unat (fs_sequence s + 1) = Suc (unat (fs_sequence s)) \<and>
    unat (invocation_count s (rq_descriptor req) + 1) = Suc (unat (invocation_count s (rq_descriptor req))) \<and>
    fs_receipts s' = (case rq_idempotence_key req of None \<Rightarrow> fs_receipts s | Some key \<Rightarrow> bt_insert key r (fs_receipts s)) \<and>
    fs_registry s' = fs_registry s \<and> fs_sequence s' = fs_sequence s + 1 \<and>
    invocation_count s' = (invocation_count s)(rq_descriptor req := invocation_count s (rq_descriptor req) + 1) \<and>
    fs_stopped s' = fs_stopped s"
proof -
  let ?c = "invocation_count s (rq_descriptor req)"
  obtain counts where e: "entry_or_default (rq_descriptor req) (fs_invocations s) = (?c, counts)"
    by (metis entry_or_default_eq(1) prod.collapse)
  have inv: "(case bt_get counts i of None \<Rightarrow> 0 | Some n \<Rightarrow> n) = invocation_count s i" for i
    using entry_or_default_eq(2) [of "rq_descriptor req" "fs_invocations s" i] e by (simp add: invocation_count_def)
  have fit: "unat ?c + unat (1 :: u64) < 2 ^ 64" "unat (fs_sequence s) + unat (1 :: u64) < 2 ^ 64"
    and out: "out = Ok r" and s': "s' = s\<lparr>fs_invocations := bt_insert (rq_descriptor req) (?c + 1) counts,
      fs_sequence := fs_sequence s + 1,
      fs_receipts := (case rq_idempotence_key req of None \<Rightarrow> fs_receipts s
        | Some key \<Rightarrow> bt_insert key r (fs_receipts s))\<rparr>"
    using assms e by (auto simp: fake_invoke_def checked_add_def Let_def split: if_splits)
  have "invocation_count s' = (invocation_count s)(rq_descriptor req := ?c + 1)"
    by (rule ext) (simp add: invocation_count_def s' btree.get_insert inv [unfolded invocation_count_def])
  with fit out s' show ?thesis
    by (simp add: unat_add_no_wrap)
qed

text \<open>One that is out of room or a replay only counts.\<close>

lemma fake_invoke_counts:
  assumes "fake_invoke debug_len req s = Some (out, s')"
    and "\<not> fs_stopped s" "registry_get (fs_registry s) (rq_descriptor req) = Some d" "authorize debug_len d req = Ok u"
    and "max_invocations (ed_bounds d) \<le> invocation_count s (rq_descriptor req) \<or>
      Option.bind (rq_idempotence_key req) (bt_get (fs_receipts s)) \<noteq> None"
  shows "out = (if max_invocations (ed_bounds d) \<le> invocation_count s (rq_descriptor req)
      then Err (Contract [Lit ''effect invocation bound exhausted''])
      else Ok (the (Option.bind (rq_idempotence_key req) (bt_get (fs_receipts s))))) \<and>
    fs_receipts s' = fs_receipts s \<and> fs_registry s' = fs_registry s \<and> fs_sequence s' = fs_sequence s \<and>
    invocation_count s' = invocation_count s \<and> fs_stopped s' = fs_stopped s"
proof -
  obtain counts where e: "entry_or_default (rq_descriptor req) (fs_invocations s) =
      (invocation_count s (rq_descriptor req), counts)"
    by (metis entry_or_default_eq(1) prod.collapse)
  have same: "invocation_count (s\<lparr>fs_invocations := counts\<rparr>) = invocation_count s"
    using entry_or_default_eq(2) [of "rq_descriptor req" "fs_invocations s"] e
    by (auto simp: invocation_count_def fun_eq_iff)
  show ?thesis
    using assms e same by (auto simp: fake_invoke_def split: if_splits)
qed

text \<open>The four ways an invocation ends, each with the state it leaves.\<close>

lemma fake_invoke_cases:
  assumes "fake_invoke debug_len req s = Some (out, s')"
  obtains (refused) e where "out = Err e" "s' = s"
      "fs_stopped s \<or> (\<forall>d. registry_get (fs_registry s) (rq_descriptor req) = Some d \<longrightarrow>
         \<not> authorized debug_len d req)"
  | (exhausted) d e where "out = Err e" "\<not> fs_stopped s"
      "registry_get (fs_registry s) (rq_descriptor req) = Some d" "authorized debug_len d req"
      "max_invocations (ed_bounds d) \<le> invocation_count s (rq_descriptor req)"
      "fs_receipts s' = fs_receipts s" "fs_registry s' = fs_registry s"
      "fs_sequence s' = fs_sequence s" "invocation_count s' = invocation_count s"
      "fs_stopped s' = fs_stopped s"
  | (replayed) d key r where "out = Ok r" "\<not> fs_stopped s"
      "registry_get (fs_registry s) (rq_descriptor req) = Some d" "authorized debug_len d req"
      "invocation_count s (rq_descriptor req) < max_invocations (ed_bounds d)"
      "rq_idempotence_key req = Some key" "bt_get (fs_receipts s) key = Some r"
      "fs_receipts s' = fs_receipts s" "fs_registry s' = fs_registry s"
      "fs_sequence s' = fs_sequence s" "invocation_count s' = invocation_count s"
      "fs_stopped s' = fs_stopped s"
  | (executed) d r where "out = Ok r" "\<not> fs_stopped s"
      "registry_get (fs_registry s) (rq_descriptor req) = Some d" "authorized debug_len d req"
      "invocation_count s (rq_descriptor req) < max_invocations (ed_bounds d)"
      "Option.bind (rq_idempotence_key req) (bt_get (fs_receipts s)) = None"
      "r = \<lparr>rc_kind = ed_receipt d, rc_descriptor = ed_id d, rc_sequence = fs_sequence s + 1\<rparr>"
      "unat (fs_sequence s + 1) = Suc (unat (fs_sequence s))"
      "unat (invocation_count s (rq_descriptor req) + 1)
         = Suc (unat (invocation_count s (rq_descriptor req)))"
      "fs_receipts s' = (case rq_idempotence_key req of None \<Rightarrow> fs_receipts s
         | Some key \<Rightarrow> bt_insert key r (fs_receipts s))"
      "fs_registry s' = fs_registry s" "fs_sequence s' = fs_sequence s + 1"
      "invocation_count s' = (invocation_count s)(rq_descriptor req :=
         invocation_count s (rq_descriptor req) + 1)"
      "fs_stopped s' = fs_stopped s"
proof (cases "fs_stopped s")
  case True
  with assms show ?thesis by (auto simp: fake_invoke_def intro: refused)
next
  case running: False
  show ?thesis
  proof (cases "registry_get (fs_registry s) (rq_descriptor req)")
    case None
    with assms running show ?thesis by (auto simp: fake_invoke_def intro: refused)
  next
    case reg: (Some d)
    show ?thesis
    proof (cases "authorize debug_len d req")
      case (Inl e)
      then have "\<not> authorized debug_len d req"
        by (metis authorize_Ok Inl_Inr_False)
      with assms running reg Inl show ?thesis
        by (auto simp: fake_invoke_def intro: refused)
    next
      case (Inr u)
      then have auth: "authorized debug_len d req" by (simp add: authorize_Ok)
      note counts = fake_invoke_counts [OF assms running reg Inr]
      consider (full) "max_invocations (ed_bounds d) \<le> invocation_count s (rq_descriptor req)"
        | (replay) key r where "\<not> max_invocations (ed_bounds d) \<le> invocation_count s (rq_descriptor req)"
            "rq_idempotence_key req = Some key" "bt_get (fs_receipts s) key = Some r"
        | (new) "\<not> max_invocations (ed_bounds d) \<le> invocation_count s (rq_descriptor req)"
            "Option.bind (rq_idempotence_key req) (bt_get (fs_receipts s)) = None"
        by (cases "Option.bind (rq_idempotence_key req) (bt_get (fs_receipts s))") (auto simp: bind_eq_Some_conv)
      then show ?thesis
      proof cases
        case full
        with counts running reg auth show ?thesis by (intro exhausted) simp_all
      next
        case replay
        with counts running reg auth show ?thesis by (intro replayed) (simp_all add: not_le)
      next
        case new
        from fake_invoke_executes [OF assms running reg Inr new refl] new running reg auth show ?thesis
          by (intro executed) (simp_all add: not_le)
      qed
    qed
  qed
qed

lemma fake_step_cases:
  assumes "fake_step debug_len op s = Some (out, s')"
  obtains (other) "out_receipt out = None" "fs_registry s' = fs_registry s"
      "fs_receipts s' = fs_receipts s" "fs_sequence s' = fs_sequence s"
      "invocation_count s' = invocation_count s"
  | (invoke) req r where "op = InvokeEffect req" "out = Invoked r"
      "fake_invoke debug_len req s = Some (r, s')"
proof (cases op)
  case (InvokeEffect req)
  with assms show ?thesis by (auto intro: invoke)
qed (use assms in \<open>auto simp: fake_start_def fake_stop_def fake_poll_def out_receipt_def
       invocation_count_def intro!: other\<close>)

interpretation fake_effects: effect_session debug_len "fake_step debug_len" op_request out_receipt
    "\<lambda>s. registry_get (fs_registry s)" for debug_len
proof
  fix op s out s'
  assume step: "fake_step debug_len op s = Some (out, s')"
  from step show "registry_get (fs_registry s') = registry_get (fs_registry s)"
  proof (cases rule: fake_step_cases)
    case (invoke req r)
    from invoke(3) show ?thesis by (cases rule: fake_invoke_cases) auto
  qed simp
  fix r
  assume receipt: "out_receipt out = Some r"
  from step show "\<exists>req d. op_request op = Some req \<and>
      registry_get (fs_registry s) (rq_descriptor req) = Some d \<and> authorize debug_len d req = Ok ()"
  proof (cases rule: fake_step_cases)
    case other
    with receipt show ?thesis by simp
  next
    case (invoke req res)
    from invoke(3) invoke(1,2) receipt show ?thesis
      by (cases rule: fake_invoke_cases) (auto simp: authorize_Ok op_request_def out_receipt_def)
  qed
qed

text \<open>
  The accounts of a session: \<open>R\<close> is the set of receipts it has handed out. Their sequence
  numbers are exactly \<open>1 \<dots> fs_sequence\<close>, each once; a descriptor's count is the number of its
  receipts and within its bound; the stored receipts are among them.
\<close>

definition fake_accounts :: "effect_registry \<Rightarrow> effect_receipt set \<Rightarrow> fake_session \<Rightarrow> bool" where
  "fake_accounts reg R s \<longleftrightarrow>
     fs_registry s = reg \<and> finite R \<and> inj_on (\<lambda>r. unat (rc_sequence r)) R \<and>
     (\<lambda>r. unat (rc_sequence r)) ` R = {1..unat (fs_sequence s)} \<and>
     (\<forall>i. unat (invocation_count s i) = card {r \<in> R. rc_descriptor r = i}) \<and>
     (\<forall>key r. bt_get (fs_receipts s) key = Some r \<longrightarrow> r \<in> R) \<and>
     (\<forall>r \<in> R. \<exists>d. registry_get reg (rc_descriptor r) = Some d \<and> rc_kind r = ed_receipt d \<and>
        invocation_count s (rc_descriptor r) \<le> max_invocations (ed_bounds d))"

lemma fake_accounts_new: "fake_accounts reg {} (fake_new profile reg)"
  by (simp add: fake_accounts_def fake_new_def invocation_count_def btree.laws)

lemma fake_accounts_same:
  "fake_accounts reg R s \<Longrightarrow> fs_registry s' = fs_registry s \<Longrightarrow> fs_receipts s' = fs_receipts s \<Longrightarrow>
   fs_sequence s' = fs_sequence s \<Longrightarrow> invocation_count s' = invocation_count s \<Longrightarrow>
   fake_accounts reg R s'"
  by (simp add: fake_accounts_def)

text \<open>One more receipt counts for its own descriptor only.\<close>

lemma receipts_insert:
  assumes "finite R" "r \<notin> R"
  shows "card {x \<in> insert r R. rc_descriptor x = j} =
    card {x \<in> R. rc_descriptor x = j} + of_bool (rc_descriptor r = j)"
proof (cases "rc_descriptor r = j")
  case True
  then have "{x \<in> insert r R. rc_descriptor x = j} = insert r {x \<in> R. rc_descriptor x = j}"
    by auto
  with True assms show ?thesis by simp
next
  case False
  then have "{x \<in> insert r R. rc_descriptor x = j} = {x \<in> R. rc_descriptor x = j}"
    by auto
  with False show ?thesis by simp
qed

lemma fake_accounts_execute:
  assumes acc: "fake_accounts reg R s"
    and d: "registry_get reg i = Some d" "ed_id d = i"
    and room: "invocation_count s i < max_invocations (ed_bounds d)"
    and r: "r = \<lparr>rc_kind = ed_receipt d, rc_descriptor = ed_id d, rc_sequence = fs_sequence s + 1\<rparr>"
    and suc: "unat (fs_sequence s + 1) = Suc (unat (fs_sequence s))"
      "unat (invocation_count s i + 1) = Suc (unat (invocation_count s i))"
    and s': "fs_registry s' = fs_registry s" "fs_sequence s' = fs_sequence s + 1"
      "invocation_count s' = (invocation_count s)(i := invocation_count s i + 1)"
      "\<And>key x. bt_get (fs_receipts s') key = Some x \<Longrightarrow> x = r \<or> bt_get (fs_receipts s) key = Some x"
  shows "fake_accounts reg (insert r R) s'"
proof -
  let ?seq = "\<lambda>r. unat (rc_sequence r)"
  note acc' = acc [unfolded fake_accounts_def]
  have fresh: "?seq r \<notin> ?seq ` R"
    using acc' suc(1) by (simp add: r)
  then have new: "r \<notin> R" by auto
  have "inj_on ?seq (insert r R)"
    using acc' fresh new by (simp only: inj_on_insert Diff_insert_absorb) blast
  moreover have "?seq ` insert r R = {1..unat (fs_sequence s')}"
    using acc' suc(1) by (auto simp: r s'(2) atLeastAtMostSuc_conv)
  moreover have "unat (invocation_count s' j) = card {x \<in> insert r R. rc_descriptor x = j}" for j
    using acc' suc(2) d(2) receipts_insert [OF _ new, of j] by (simp add: s'(3) r)
  moreover have "\<exists>e. registry_get reg (rc_descriptor x) = Some e \<and> rc_kind x = ed_receipt e \<and>
      invocation_count s' (rc_descriptor x) \<le> max_invocations (ed_bounds e)"
    if "x \<in> insert r R" for x
  proof (cases "rc_descriptor x = i")
    case True
    have "invocation_count s i + 1 \<le> max_invocations (ed_bounds d)"
      using room suc(2) by (simp add: word_less_nat_alt word_le_nat_alt)
    moreover have "rc_kind x = ed_receipt d"
    proof (cases "x = r")
      case False
      with that have "x \<in> R" by simp
      with acc' obtain e where "registry_get reg (rc_descriptor x) = Some e" "rc_kind x = ed_receipt e"
        by blast
      with True d(1) show ?thesis by simp
    qed (simp add: r)
    ultimately show ?thesis
      using True d by (simp add: s'(3))
  next
    case False
    then have "x \<in> R" using that d(2) by (auto simp: r)
    with False acc' show ?thesis by (simp add: s'(3))
  qed
  moreover have "x \<in> insert r R" if "bt_get (fs_receipts s') key = Some x" for key x
    using s'(4) [OF that] acc' by auto
  moreover have "fs_registry s' = reg" "finite (insert r R)"
    using acc' s'(1) by simp_all
  ultimately show ?thesis
    unfolding fake_accounts_def by (intro conjI allI impI ballI)
qed

lemma fake_step_accounts:
  assumes acc: "fake_accounts reg R s" and ids: "\<And>i d. registry_get reg i = Some d \<Longrightarrow> ed_id d = i"
    and step: "fake_step debug_len op s = Some (out, s')"
  shows "fake_accounts reg (set_option (out_receipt out) \<union> R) s'"
  using step
proof (cases rule: fake_step_cases)
  case other
  with acc show ?thesis by (simp add: fake_accounts_same)
next
  case (invoke req res)
  have reg: "fs_registry s = reg" using acc by (simp add: fake_accounts_def)
  from invoke(3) show ?thesis
  proof (cases rule: fake_invoke_cases)
    case (refused e)
    with acc invoke(2) show ?thesis by (simp add: out_receipt_def)
  next
    case (exhausted d e)
    with acc invoke(2) show ?thesis by (simp add: out_receipt_def fake_accounts_same)
  next
    case (replayed d key r)
    then have "r \<in> R" using acc by (auto simp: fake_accounts_def)
    with replayed acc invoke(2) show ?thesis
      by (simp add: out_receipt_def insert_absorb fake_accounts_same)
  next
    case (executed d r)
    have "fake_accounts reg (insert r R) s'"
      by (rule fake_accounts_execute [OF acc executed(3) [unfolded reg] ids executed(5,7,8,9,11,12,13)])
        (use executed(3,10) reg in \<open>auto simp: btree.laws split: option.splits if_splits\<close>)
    with executed(1) invoke(2) show ?thesis by (simp add: out_receipt_def)
  qed
qed

definition receipts_of :: "fake_out list \<Rightarrow> effect_receipt set" where
  "receipts_of outs = (\<Union>out \<in> set outs. set_option (out_receipt out))"

lemma fake_run_accounts:
  assumes ids: "\<And>i d. registry_get reg i = Some d \<Longrightarrow> ed_id d = i"
  shows "fake_accounts reg R s \<Longrightarrow> run_steps (fake_step debug_len) ops s = Some (outs, s') \<Longrightarrow>
    fake_accounts reg (receipts_of outs \<union> R) s'"
proof (induction ops arbitrary: R s outs)
  case Nil
  then show ?case by (simp add: receipts_of_def)
next
  case (Cons op ops)
  then obtain out s1 outs1 where step: "fake_step debug_len op s = Some (out, s1)"
    "run_steps (fake_step debug_len) ops s1 = Some (outs1, s')" "outs = out # outs1"
    by (auto split: bind_splits)
  have "fake_accounts reg (receipts_of outs1 \<union> (set_option (out_receipt out) \<union> R)) s'"
    using Cons.IH [OF fake_step_accounts [OF Cons.prems(1) ids step(1)] step(2)] .
  then show ?case
    by (simp add: receipts_of_def step(3) Un_ac)
qed

text \<open>Neither counter can overflow in fewer than \<open>2^64\<close> operations.\<close>

lemma fake_invoke_total:
  assumes "unat (fs_sequence s) < 2 ^ 64 - 1"
  shows "\<exists>out s'. fake_invoke debug_len req s = Some (out, s')"
proof (cases "registry_get (fs_registry s) (rq_descriptor req)")
  case (Some d)
  have "unat n + unat (1 :: u64) < 2 ^ 64" if "\<not> max_invocations (ed_bounds d) \<le> n" for n
  proof -
    have "unat n < unat (max_invocations (ed_bounds d))"
      using that by (simp add: word_less_nat_alt not_le)
    then show ?thesis
      using unat_less_2p64 [of "max_invocations (ed_bounds d)"] by (simp del: unat_less_2p64)
  qed
  with Some assms show ?thesis
    by (auto simp: fake_invoke_def Let_def checked_add_def split: sum.splits prod.splits option.splits)
qed (simp add: fake_invoke_def)

lemma fake_step_total:
  assumes "unat (fs_sequence s) < 2 ^ 64 - 1"
  shows "\<exists>out s'. fake_step debug_len op s = Some (out, s') \<and>
    unat (fs_sequence s') \<le> Suc (unat (fs_sequence s))"
proof (cases op)
  case (InvokeEffect req)
  obtain res s' where inv: "fake_invoke debug_len req s = Some (res, s')"
    using fake_invoke_total [OF assms] by blast
  have "unat (fs_sequence s') \<le> Suc (unat (fs_sequence s))"
    using inv by (cases rule: fake_invoke_cases) simp_all
  with inv InvokeEffect show ?thesis by simp
qed (simp_all add: fake_start_def fake_stop_def fake_poll_def)

lemma fake_run_total:
  "unat (fs_sequence s) + length ops < 2 ^ 64 \<Longrightarrow>
   \<exists>outs s'. run_steps (fake_step debug_len) ops s = Some (outs, s')"
proof (induction ops arbitrary: s)
  case (Cons op ops)
  obtain out s1 where step: "fake_step debug_len op s = Some (out, s1)"
    "unat (fs_sequence s1) \<le> Suc (unat (fs_sequence s))"
    using fake_step_total [of s debug_len op] Cons.prems by auto
  with Cons.IH [of s1] Cons.prems show ?case by fastforce
qed simp

text \<open>A receipt filed under an idempotence key stays there.\<close>

lemma fake_step_keeps_receipt:
  assumes "fake_step debug_len op s = Some (out, s')" "bt_get (fs_receipts s) key = Some r"
  shows "bt_get (fs_receipts s') key = Some r"
  using assms(1)
proof (cases rule: fake_step_cases)
  case other
  with assms(2) show ?thesis by simp
next
  case (invoke req res)
  from invoke(3) show ?thesis
    using assms(2) by (cases rule: fake_invoke_cases) (auto simp: btree.laws split: option.splits)
qed

subsection \<open>Properties\<close>

text \<open>Requests and descriptors for the witnesses.\<close>

definition music_request :: "music_effect \<Rightarrow> string \<Rightarrow> effect_request" where
  "music_request e key = \<lparr>rq_descriptor = ed_id (music_effect_descriptor e), rq_payload = EBool True,
     rq_arm = Some ''operator-arm'', rq_idempotence_key = Some key,
     rq_grants = [ed_capability (music_effect_descriptor e)], rq_armed_at_ms = 10,
     rq_invoked_at_ms = 11\<rparr>"

lemma complete_music: "complete_descriptor (music_effect_descriptor e)"
  by (cases e) (simp_all add: complete_descriptor_def music_effect_descriptor_def from_secs_def)

lemma music_names [simp]: "music_effect_name e = music_effect_name e' \<longleftrightarrow> e = e'"
  by (cases e; cases e') simp_all

lemma music_request_authorized:
  "authorized (\<lambda>_. 4) (music_effect_descriptor e) (music_request e (CHR ''k'' # key))"
  unfolding authorized_def
  by (simp add: complete_music)
    (simp add: music_request_def music_effect_descriptor_def from_secs_def from_millis_def)

lemma music_registry_get:
  "\<exists>reg. music_effect_registry = Ok reg \<and>
     (\<forall>e. registry_get reg (ed_id (music_effect_descriptor e)) = Some (music_effect_descriptor e)) \<and>
     (\<forall>i d. registry_get reg i = Some d \<longrightarrow> (\<exists>e. d = music_effect_descriptor e \<and> i = ed_id d))"
proof -
  let ?ds = "map music_effect_descriptor [MidiSend, AudioRouteOpen, AudioRouteClose, EmergencyStop]"
  have "distinct (map ed_id ?ds)"
    by (simp add: music_effect_descriptor_def)
  then obtain reg where reg: "registry_new ?ds = Ok reg"
    using registry_new_Ok [of ?ds] complete_music by fastforce
  have "music_effect_descriptor e \<in> set ?ds" for e
    by (cases e) simp_all
  then show ?thesis
    using reg registry_new_get [OF reg] unfolding music_effect_registry_def by fastforce
qed

text \<open>
  C3. A request is authorized exactly when the descriptor is complete (nothing empty or zero, not
  its own reversal), the request names it and presents its capability, carries a non-empty arm
  token where one is required and a non-empty key where the effect is keyed, was armed no later
  than it was invoked and no longer before than the descriptor allows (no wrap-around in that
  age), and its payload is within the size bound; \<open>authorize\<close> refuses every other request.
\<close>
theorem authorize_exact:
  "authorize debug_len d req = Ok () \<longleftrightarrow>
     complete_descriptor d \<and> rq_descriptor req = ed_id d \<and> ed_capability d \<in> set (rq_grants req) \<and>
     \<not> (ed_requires_arm d \<and> (\<forall>t. rq_arm req = Some t \<longrightarrow> t = [])) \<and>
     rq_armed_at_ms req \<le> rq_invoked_at_ms req \<and>
     unat (rq_invoked_at_ms req) * 1000000 \<le> unat (rq_armed_at_ms req) * 1000000 + ed_expires_after d \<and>
     \<not> (ed_idempotence d = Keyed \<and> (\<forall>k. rq_idempotence_key req = Some k \<longrightarrow> k = [])) \<and>
     debug_len (rq_payload req) \<le> max_request_bytes (ed_bounds d)"
  unfolding authorize_Ok authorized_def from_millis_def by metis

theorem authorize_exact_witness:
  "authorize (\<lambda>_. 4) (music_effect_descriptor MidiSend) (music_request MidiSend ''k'') = Ok () \<and>
   authorize (\<lambda>_. 4) (music_effect_descriptor MidiSend)
     (music_request MidiSend ''k''\<lparr>rq_invoked_at_ms := 6000\<rparr>) \<noteq> Ok ()"
  unfolding authorize_exact
  by (simp add: complete_music)
    (simp add: music_request_def music_effect_descriptor_def from_secs_def)

text \<open>
  A registry is built exactly from complete descriptors with pairwise different names, and
  then resolves each name to the descriptor it was given under that name and nothing else.
\<close>
theorem registry_exact:
  "(\<exists>reg. registry_new ds = Ok reg) = (list_all complete_descriptor ds \<and> distinct (map ed_id ds)) \<and>
   (registry_new ds = Ok reg \<longrightarrow> (registry_get reg i = Some d) = (d \<in> set ds \<and> ed_id d = i))"
  using registry_new_Ok [of ds] registry_new_get [of ds reg i d] by (auto simp: list_all_iff)

theorem registry_exact_witness:
  "registry_get [(symbol_qualified ''device/effect'' ''music-midi-send'',
       music_effect_descriptor MidiSend)]
     (symbol_qualified ''device/effect'' ''music-midi-send'') = Some (music_effect_descriptor MidiSend)"
proof -
  have "registry_new [music_effect_descriptor MidiSend] =
    Ok [(symbol_qualified ''device/effect'' ''music-midi-send'', music_effect_descriptor MidiSend)]"
    unfolding registry_new_Ok using complete_music
    by (simp add: bt_empty_def) (simp add: music_effect_descriptor_def)
  then show ?thesis
    using registry_exact [of "[music_effect_descriptor MidiSend]"
        "[(symbol_qualified ''device/effect'' ''music-midi-send'', music_effect_descriptor MidiSend)]"
        "symbol_qualified ''device/effect'' ''music-midi-send''" "music_effect_descriptor MidiSend"]
    by (simp add: music_effect_descriptor_def)
qed

text \<open>
  A provider manifest is accepted exactly when its version is one, it has a stale bound, its
  two content references are non-empty and hold none of the words \<open>secret\<close>, \<open>token\<close> and
  \<open>password\<close> in any case, and every effect it names is registered.
\<close>
theorem manifest_validate_exact:
  "manifest_validate m reg = Ok () \<longleftrightarrow>
     pm_version m = 1 \<and> 0 < pm_stale_after m \<and>
     list_all (\<lambda>v. v \<noteq> [] \<and> list_all (\<lambda>word. \<not> sublist word (map ascii_lower v))
       [''secret'', ''token'', ''password'']) [pm_profile m, pm_cassette m] \<and>
     list_all (\<lambda>e. registry_get reg e \<noteq> None) (pm_effects m)"
  unfolding manifest_validate_def
  by (auto simp: result_simps check_references_Ok check_declared_Ok secret_material_def Let_def
      str_contains_sublist list_all_iff)

text \<open>
  C4. A fake session is faithful to its registry over any sequence of fewer than \<open>2^64\<close> calls:
  none panics, every receipt handed out answers a request that the registered descriptor of that
  name authorized, the receipts' sequence numbers are exactly \<open>1 \<dots> n\<close> each held by one receipt,
  each receipt has its descriptor's kind, and no descriptor has more receipts than its invocation
  bound.
\<close>
theorem fake_session_bounded:
  assumes "registry_new ds = Ok reg" and "length ops < 2 ^ 64"
  shows "\<exists>outs s'. run_steps (fake_step debug_len) ops (fake_new profile reg) = Some (outs, s') \<and>
    (\<forall>op out r. (op, out) \<in> set (zip ops outs) \<longrightarrow> out_receipt out = Some r \<longrightarrow>
       (\<exists>req d. op = InvokeEffect req \<and> registry_get reg (rq_descriptor req) = Some d \<and>
          authorized debug_len d req)) \<and>
    bij_betw (\<lambda>r. unat (rc_sequence r)) (receipts_of outs) {1..unat (fs_sequence s')} \<and>
    (\<forall>r \<in> receipts_of outs. \<exists>d. registry_get reg (rc_descriptor r) = Some d \<and>
       rc_kind r = ed_receipt d \<and>
       card {r' \<in> receipts_of outs. rc_descriptor r' = rc_descriptor r}
         \<le> unat (max_invocations (ed_bounds d)))"
proof -
  obtain outs s' where run: "run_steps (fake_step debug_len) ops (fake_new profile reg) = Some (outs, s')"
    using fake_run_total [of "fake_new profile reg" ops debug_len] assms(2)
    by (auto simp: fake_new_def)
  have "fake_accounts reg (receipts_of outs) s'"
    using fake_run_accounts [OF _ fake_accounts_new run] registry_new_get [OF assms(1)] by simp
  then have "bij_betw (\<lambda>r. unat (rc_sequence r)) (receipts_of outs) {1..unat (fs_sequence s')}"
    "\<forall>r \<in> receipts_of outs. \<exists>d. registry_get reg (rc_descriptor r) = Some d \<and>
       rc_kind r = ed_receipt d \<and>
       card {r' \<in> receipts_of outs. rc_descriptor r' = rc_descriptor r}
         \<le> unat (max_invocations (ed_bounds d))"
    by (auto simp: fake_accounts_def bij_betw_def word_le_nat_alt)
  moreover have "\<exists>req d. op = InvokeEffect req \<and> registry_get reg (rq_descriptor req) = Some d \<and>
          authorized debug_len d req" if "(op, out) \<in> set (zip ops outs)" "out_receipt out = Some r"
    for op out r
    using fake_effects.run_authorized [OF run that]
    by (auto simp: op_request_def fake_new_def split: fake_op.splits)
  ultimately show ?thesis using run by blast
qed

theorem fake_session_bounded_witness:
  "\<exists>reg outs s'. run_steps (fake_step (\<lambda>_. 4))
     [InvokeEffect (music_request MidiSend ''k''), StopSession] (fake_new modeled_edge reg) = Some (outs, s') \<and>
     bij_betw (\<lambda>r. unat (rc_sequence r)) (receipts_of outs) {1..unat (fs_sequence s')}"
proof -
  obtain reg where "music_effect_registry = Ok reg"
    using music_registry_get by blast
  from fake_session_bounded [OF this [unfolded music_effect_registry_def],
      of "[InvokeEffect (music_request MidiSend ''k''), StopSession]" "\<lambda>_. 4" modeled_edge]
  show ?thesis by auto
qed

text \<open>
  C31. Replaying is idempotent: once a request with some key was answered by a receipt, every
  later request with that key that the session answers with a receipt gets that same receipt and
  executes nothing (the sequence does not move), whatever calls lie in between.
\<close>
theorem fake_replay_idempotent:
  assumes "fake_invoke debug_len req s = Some (Ok r, s1)" "rq_idempotence_key req = Some key"
    and "run_steps (fake_step debug_len) ops s1 = Some (outs, s2)"
    and "fake_invoke debug_len req' s2 = Some (Ok r', s3)" "rq_idempotence_key req' = Some key"
  shows "r' = r \<and> fs_sequence s3 = fs_sequence s2 \<and> invocation_count s3 = invocation_count s2"
proof -
  have "bt_get (fs_receipts s1) key = Some r"
    using assms(1) by (cases rule: fake_invoke_cases) (use assms(2) in \<open>auto simp: btree.laws\<close>)
  then have stored: "bt_get (fs_receipts s2) key = Some r"
    by (rule run_steps_invariant [OF assms(3), where P = "\<lambda>s. bt_get (fs_receipts s) key = Some r"])
      (rule fake_step_keeps_receipt)
  show ?thesis
    using assms(4) by (cases rule: fake_invoke_cases) (use assms(5) stored in auto)
qed

lemma music_registry_id: "registry_get reg (ed_id (music_effect_descriptor e)) = Some d \<Longrightarrow>
    music_effect_registry = Ok reg \<Longrightarrow> d = music_effect_descriptor e"
  using music_registry_get by (metis option.inject sum.inject(2))

text \<open>
  A session that has executed nothing executes a first authorized request; a second one is
  then executed too unless its key was used.
\<close>

lemma fake_new_sel [simp]:
  "fs_registry (fake_new p reg) = reg" "fs_receipts (fake_new p reg) = bt_empty"
  "fs_stopped (fake_new p reg) = False" "fs_sequence (fake_new p reg) = 0"
  "invocation_count (fake_new p reg) i = 0"
  by (simp_all add: fake_new_def invocation_count_def btree.laws)

lemma fake_invoke_first:
  assumes "registry_get reg (rq_descriptor req) = Some d" "authorized debug_len d req"
    and "rq_idempotence_key req = Some key"
  shows "\<exists>s'. fake_invoke debug_len req (fake_new profile reg) = Some (Ok \<lparr>rc_kind = ed_receipt d,
      rc_descriptor = ed_id d, rc_sequence = 1\<rparr>, s') \<and> fs_registry s' = reg \<and> fs_stopped s' = False \<and>
      fs_sequence s' = 1 \<and> (\<forall>i. invocation_count s' i \<le> 1) \<and>
      bt_get (fs_receipts s') key = Some \<lparr>rc_kind = ed_receipt d,
      rc_descriptor = ed_id d, rc_sequence = 1\<rparr>"
proof -
  obtain out s' where inv: "fake_invoke debug_len req (fake_new profile reg) = Some (out, s')"
    using fake_invoke_total [of "fake_new profile reg" debug_len req] by auto
  have pos: "0 < max_invocations (ed_bounds d)"
    using assms(2) by (simp add: authorized_def complete_descriptor_def)
  from inv show ?thesis
    by (cases rule: fake_invoke_cases) (use assms pos inv in \<open>auto simp: btree.laws\<close>)
qed

lemma music_first:
  "\<exists>reg r s1. music_effect_registry = Ok reg \<and>
     fake_invoke (\<lambda>_. 4) (music_request e (CHR ''k'' # key)) (fake_new modeled_edge reg) = Some (Ok r, s1) \<and>
     rc_descriptor r = ed_id (music_effect_descriptor e) \<and> fs_sequence s1 = 1 \<and>
     (\<forall>e'. \<exists>s2. fake_invoke (\<lambda>_. 4) (music_request e' (CHR ''k'' # key)) s1 = Some (Ok r, s2) \<and>
        fs_sequence s2 = 1)"
proof -
  let ?req = "\<lambda>e. music_request e (CHR ''k'' # key)"
  have req: "rq_descriptor (?req e) = ed_id (music_effect_descriptor e)"
    "rq_idempotence_key (?req e) = Some (CHR ''k'' # key)" for e
    by (simp_all add: music_request_def)
  obtain reg where reg: "music_effect_registry = Ok reg"
    "\<And>e. registry_get reg (ed_id (music_effect_descriptor e)) = Some (music_effect_descriptor e)"
    using music_registry_get by blast
  from fake_invoke_first [of reg "?req e", OF _ music_request_authorized req(2)] reg(2) req(1)
  obtain r s1 where first: "fake_invoke (\<lambda>_. 4) (?req e) (fake_new modeled_edge reg) = Some (Ok r, s1)"
    "rc_descriptor r = ed_id (music_effect_descriptor e)" "fs_registry s1 = reg" "\<not> fs_stopped s1"
    "fs_sequence s1 = 1" "\<And>i. invocation_count s1 i \<le> 1"
    "bt_get (fs_receipts s1) (CHR ''k'' # key) = Some r"
    by fastforce
  have "\<exists>s2. fake_invoke (\<lambda>_. 4) (?req e') s1 = Some (Ok r, s2) \<and> fs_sequence s2 = 1" for e'
  proof -
    have max: "max_invocations (ed_bounds (music_effect_descriptor e')) = 4096"
      by (simp add: music_effect_descriptor_def)
    have few: "\<not> 4096 \<le> invocation_count s1 i" for i
      using first(6) [of i] by (simp add: word_le_nat_alt)
    obtain out s2 where second: "fake_invoke (\<lambda>_. 4) (?req e') s1 = Some (out, s2)"
      using fake_invoke_total [of s1 "\<lambda>_. 4" "?req e'"] first(5) by auto
    from second show ?thesis
      by (cases rule: fake_invoke_cases)
        (use second first reg(2) req music_request_authorized max few in auto)
  qed
  with reg(1) first(1,2,5) show ?thesis by blast
qed

theorem fake_replay_idempotent_witness:
  "\<exists>reg r s1 s2. fake_invoke (\<lambda>_. 4) (music_request AudioRouteOpen ''k1'') (fake_new modeled_edge reg)
       = Some (Ok r, s1) \<and>
     fake_invoke (\<lambda>_. 4) (music_request AudioRouteOpen ''k1'') s1 = Some (Ok r, s2) \<and>
     fs_sequence s2 = fs_sequence s1"
proof -
  let ?req = "music_request AudioRouteOpen ''k1''"
  have key: "rq_idempotence_key ?req = Some ''k1''" by (simp add: music_request_def)
  obtain reg r s1 s2 where
    first: "fake_invoke (\<lambda>_. 4) ?req (fake_new modeled_edge reg) = Some (Ok r, s1)"
    and second: "fake_invoke (\<lambda>_. 4) ?req s1 = Some (Ok r, s2)"
    using music_first [of AudioRouteOpen "''1''"] by metis
  from fake_replay_idempotent [OF first key _ second key, of "[]"] first second show ?thesis
    by auto
qed

text \<open>
  C29. A fake session answers a request with a receipt exactly when it is running, the request's
  effect is registered, its descriptor authorizes the request and its invocation bound is not
  used up; a refusal executes nothing and files nothing.
\<close>
theorem fake_invoke_exact:
  assumes "fake_invoke debug_len req s = Some (out, s')"
  shows "((\<exists>r. out = Ok r) \<longleftrightarrow> \<not> fs_stopped s \<and>
      (\<exists>d. registry_get (fs_registry s) (rq_descriptor req) = Some d \<and> authorized debug_len d req \<and>
        invocation_count s (rq_descriptor req) < max_invocations (ed_bounds d))) \<and>
    (\<forall>e. out = Err e \<longrightarrow> fs_sequence s' = fs_sequence s \<and> fs_receipts s' = fs_receipts s \<and>
      invocation_count s' = invocation_count s)"
  using assms by (cases rule: fake_invoke_cases) auto

theorem fake_invoke_exact_witness:
  "(\<exists>s'. fake_invoke (\<lambda>_. 4) (music_request MidiSend ''k'')
      (fake_new modeled_edge []\<lparr>fs_stopped := True\<rparr>)
      = Some (Err (Host [Lit ''effect session is locally stopped'']), s') \<and> fs_sequence s' = 0)"
  using fake_invoke_exact [of "\<lambda>_. 4" "music_request MidiSend ''k''"
      "fake_new modeled_edge []\<lparr>fs_stopped := True\<rparr>"
      "Err (Host [Lit ''effect session is locally stopped''])"
      "fake_new modeled_edge []\<lparr>fs_stopped := True\<rparr>"]
  by (simp add: fake_invoke_def)

text \<open>
  The receipts of a fake session are filed under the idempotence key alone: a request for
  another effect that reuses a key is answered with the receipt of the first effect, as if it had
  been executed, and nothing is executed for it.
\<close>
theorem fake_key_crosses_effects:
  "\<exists>reg r s1 s2. music_effect_registry = Ok reg \<and>
     fake_invoke (\<lambda>_. 4) (music_request AudioRouteOpen ''k'') (fake_new modeled_edge reg)
       = Some (Ok r, s1) \<and>
     fake_invoke (\<lambda>_. 4) (music_request MidiSend ''k'') s1 = Some (Ok r, s2) \<and>
     rc_descriptor r \<noteq> rq_descriptor (music_request MidiSend ''k'') \<and>
     fs_sequence s2 = fs_sequence s1"
proof -
  have "ed_id (music_effect_descriptor AudioRouteOpen) \<noteq> rq_descriptor (music_request MidiSend ''k'')"
    by (simp add: music_request_def music_effect_descriptor_def)
  with music_first [of AudioRouteOpen "[]"] show ?thesis
    by metis
qed

text \<open>
  The music registry is built without error and holds every reviewed effect under its own
  name and nothing else; the reversal and the local stop each of them names are registered too,
  so no descriptor points at an effect the session would refuse as unknown.
\<close>
theorem music_registry_closed:
  "\<exists>reg. music_effect_registry = Ok reg \<and>
     (\<forall>i d. registry_get reg i = Some d \<longleftrightarrow> (\<exists>e. d = music_effect_descriptor e \<and> i = ed_id d)) \<and>
     (\<forall>e. registry_get reg (ed_local_stop (music_effect_descriptor e))
        = Some (music_effect_descriptor EmergencyStop) \<and>
      (ed_reversal (music_effect_descriptor e) = Irreversible \<or>
       (\<exists>e'. ed_reversal (music_effect_descriptor e) = ReversedBy (ed_id (music_effect_descriptor e')) \<and>
          registry_get reg (ed_id (music_effect_descriptor e')) = Some (music_effect_descriptor e'))))"
proof -
  obtain reg where reg: "music_effect_registry = Ok reg"
    "\<And>e. registry_get reg (ed_id (music_effect_descriptor e)) = Some (music_effect_descriptor e)"
    "\<And>i d. registry_get reg i = Some d \<Longrightarrow> \<exists>e. d = music_effect_descriptor e \<and> i = ed_id d"
    using music_registry_get by blast
  have "ed_local_stop (music_effect_descriptor e) = ed_id (music_effect_descriptor EmergencyStop)" for e
    by (simp add: music_effect_descriptor_def)
  moreover have "ed_reversal (music_effect_descriptor e) = Irreversible \<or>
      ed_reversal (music_effect_descriptor e)
        = ReversedBy (ed_id (music_effect_descriptor AudioRouteClose))" for e
    by (cases e) (simp_all add: music_effect_descriptor_def)
  ultimately show ?thesis
    using reg by metis
qed

theorem music_registry_closed_witness:
  "\<exists>reg. music_effect_registry = Ok reg \<and>
     registry_get reg (symbol_qualified ''device/effect'' ''music-midi-send'') \<noteq> None"
proof -
  have "symbol_qualified ''device/effect'' ''music-midi-send'' = ed_id (music_effect_descriptor MidiSend)"
    by (simp add: music_effect_descriptor_def)
  with music_registry_closed show ?thesis by (metis option.distinct(1))
qed

text \<open>
  Opening an observation cassette always gives a session without effect authority, and
  polling that session replays the recorded samples in order, one per poll, whatever kinds are
  asked for, and then answers that there is none.
\<close>
theorem cassette_replays_samples:
  "\<exists>session. cassette_open c = Ok (Observe session) \<and>
     opened_effect (Observe session :: (cassette_session, 'e) opened_session) = None \<and>
     map_option fst (run_steps (\<lambda>kind s. Some (cassette_poll kind s)) kinds session)
       = Some (map (\<lambda>i. Ok (if i < length (oc_samples c) then Some (oc_samples c ! i) else None))
           [0..<length kinds])"
proof -
  have "\<exists>s'. run_steps (\<lambda>kind s. Some (cassette_poll kind s)) kinds s
      = Some (map (\<lambda>i. Ok (if i < length (cs_samples s) then Some (cs_samples s ! i) else None))
           [0..<length kinds], s')" for s
  proof (induction kinds arbitrary: s)
    case (Cons k kinds)
    obtain s1 where s1: "snd (cassette_poll k s) = s1" by blast
    have "cs_samples s1 = tl (cs_samples s)"
      using s1 by (auto simp: cassette_poll_def split: list.splits)
    with Cons.IH [of s1] s1 show ?case
      by (cases "cs_samples s")
        (auto simp: cassette_poll_def upt_conv_Cons map_Suc_upt [symmetric] simp del: upt_Suc)
  qed simp
  from this [of "\<lparr>cs_profile = oc_profile c, cs_samples = oc_samples c\<rparr>"] show ?thesis
    by (auto simp: cassette_open_def opened_effect_def)
qed

end
