(* ===== verification/Host.thy ===== *)
theory Host
  imports Kernel
begin

section \<open>Host devices, plans and configurations\<close>

text \<open>
  The records of \<open>src/model.rs\<close>, \<open>src/capability.rs\<close>, \<open>src/inventory.rs\<close> and
  \<open>src/config.rs\<close>: what a backend says of itself and its devices, what a caller asks for, the
  plan of an open and its enforcement in the execution context, and the shape checks of the
  stream profiles. Buffer policies, stream metadata and clock domains belong to
  \<open>sim_lib_stream_core\<close>; what the sources call on them is the record \<open>core_ops\<close>.
\<close>

subsection \<open>The stream core\<close>

datatype clock_domain = SampleClock | MidiTickClock | ControlClock | ServerFrameClock | OtherClock nat

record ('b, 'm) core_ops =
  co_capacity :: "'b \<Rightarrow> usize"
  co_bounded :: "usize \<Rightarrow> 'b result"
  co_buffer_expr :: "'b \<Rightarrow> expr"
  co_metadata :: "symbol \<Rightarrow> stream_media \<Rightarrow> stream_direction \<Rightarrow> symbol \<Rightarrow> 'b \<Rightarrow> 'm"
  co_meta_media :: "'m \<Rightarrow> stream_media"
  co_meta_direction :: "'m \<Rightarrow> stream_direction"
  co_media_symbol :: "stream_media \<Rightarrow> symbol"
  co_clock_symbol :: "clock_domain \<Rightarrow> symbol"
  co_clock_from :: "symbol \<Rightarrow> clock_domain result"

text \<open>
  What the properties assume of it: metadata reads back the media and direction it was built
  with, and a clock domain is recognised by its own symbol.
\<close>

definition core_laws :: "('b, 'm) core_ops \<Rightarrow> bool" where
  "core_laws co \<longleftrightarrow>
     (\<forall>i m d c b. co_meta_media co (co_metadata co i m d c b) = m \<and>
        co_meta_direction co (co_metadata co i m d c b) = d) \<and>
     (\<forall>k. co_clock_from co (co_clock_symbol co k) = Ok k)"

subsection \<open>Capabilities (\<open>src/capability.rs\<close>)\<close>

datatype device_capability = Pose | Camera | Health | Location | Mic | VendorReport

definition device_capability_all :: "device_capability list" where
  "device_capability_all = [Pose, Camera, Health, Location, Mic, VendorReport]"

primrec device_capability_str :: "device_capability \<Rightarrow> string" where
  "device_capability_str Pose = ''device/pose''"
| "device_capability_str Camera = ''device/camera''"
| "device_capability_str Health = ''device/health''"
| "device_capability_str Location = ''device/location''"
| "device_capability_str Mic = ''device/mic''"
| "device_capability_str VendorReport = ''device/vendor-report''"

definition device_capability_name :: "device_capability \<Rightarrow> capability" where
  "device_capability_name c = device_capability_str c"

text \<open>\<open>strip_prefix\<close>: \<open>None\<close> where the prefix is missing.\<close>

fun strip_prefix :: "string \<Rightarrow> string \<Rightarrow> string option" where
  "strip_prefix s [] = Some s"
| "strip_prefix [] (p # ps) = None"
| "strip_prefix (c # cs) (p # ps) = (if c = p then strip_prefix cs ps else None)"

text \<open>\<open>None\<close> is the panic of the \<open>expect\<close> in \<open>local_name\<close>.\<close>

definition device_local_name :: "device_capability \<Rightarrow> string option" where
  "device_local_name c = strip_prefix (device_capability_str c) ''device/''"

definition device_grant_symbol :: "device_capability \<Rightarrow> symbol option" where
  "device_grant_symbol c = map_option (symbol_qualified ''device'') (device_local_name c)"

definition device_capability_from_name :: "string \<Rightarrow> device_capability option" where
  "device_capability_from_name n = find (\<lambda>c. device_capability_str c = n) device_capability_all"

datatype host_capability =
    AudioInput | AudioOutput | MidiInput | MidiOutput | DuplexDevice | Hotplug | Reconnect
  | Offline | FakeTransport

primrec host_capability_symbol :: "host_capability \<Rightarrow> symbol" where
  "host_capability_symbol AudioInput = symbol_qualified ''stream/host-capability'' ''audio-input''"
| "host_capability_symbol AudioOutput = symbol_qualified ''stream/host-capability'' ''audio-output''"
| "host_capability_symbol MidiInput = symbol_qualified ''stream/host-capability'' ''midi-input''"
| "host_capability_symbol MidiOutput = symbol_qualified ''stream/host-capability'' ''midi-output''"
| "host_capability_symbol DuplexDevice = symbol_qualified ''stream/host-capability'' ''duplex''"
| "host_capability_symbol Hotplug = symbol_qualified ''stream/host-capability'' ''hotplug''"
| "host_capability_symbol Reconnect = symbol_qualified ''stream/host-capability'' ''reconnect''"
| "host_capability_symbol Offline = symbol_qualified ''stream/host-capability'' ''offline''"
| "host_capability_symbol FakeTransport = symbol_qualified ''stream/host-capability'' ''fake''"

text \<open>An entry of a card: a symbol key and its value.\<close>

definition card_entry :: "string \<Rightarrow> expr \<Rightarrow> expr \<times> expr" where
  "card_entry k v = (ESymbol (symbol_new k), v)"

definition missing_capability_card :: "symbol \<Rightarrow> host_capability \<Rightarrow> expr" where
  "missing_capability_card backend c = EMap
     [card_entry ''subject'' (ESymbol backend),
      card_entry ''kind'' (ESymbol (symbol_qualified ''stream'' ''host-missing-capability'')),
      card_entry ''capability'' (ESymbol (host_capability_symbol c))]"

subsection \<open>Backends, devices and plans (\<open>src/model.rs\<close>)\<close>

definition stream_host_capability :: capability where
  "stream_host_capability = ''stream.host''"

definition device_read_kind :: symbol where
  "device_read_kind = symbol_qualified ''effect'' ''device-read''"

definition device_write_kind :: symbol where
  "device_write_kind = symbol_qualified ''effect'' ''device-write''"

datatype host_direction = Input | Output | Duplex

primrec host_stream_direction :: "host_direction \<Rightarrow> stream_direction" where
  "host_stream_direction Input = Source"
| "host_stream_direction Output = Sink"
| "host_stream_direction Duplex = DuplexStream"

primrec host_direction_symbol :: "host_direction \<Rightarrow> symbol" where
  "host_direction_symbol Input = symbol_qualified ''stream/host-direction'' ''input''"
| "host_direction_symbol Output = symbol_qualified ''stream/host-direction'' ''output''"
| "host_direction_symbol Duplex = symbol_qualified ''stream/host-direction'' ''duplex''"

primrec effect_kinds :: "host_direction \<Rightarrow> symbol list" where
  "effect_kinds Input = [device_read_kind]"
| "effect_kinds Output = [device_write_kind]"
| "effect_kinds Duplex = [device_read_kind, device_write_kind]"

record backend_info =
  bi_id :: symbol
  bi_transport :: symbol
  bi_media :: stream_media
  bi_hardware_required :: bool
  bi_callbacks_bounded :: bool
  bi_capabilities :: "host_capability list"

definition backend_info_new :: "symbol \<Rightarrow> symbol \<Rightarrow> stream_media \<Rightarrow> bool \<Rightarrow> backend_info" where
  "backend_info_new i transport media hardware = \<lparr>bi_id = i, bi_transport = transport,
     bi_media = media, bi_hardware_required = hardware, bi_callbacks_bounded = True,
     bi_capabilities = []\<rparr>"

definition with_capabilities :: "host_capability list \<Rightarrow> backend_info \<Rightarrow> backend_info" where
  "with_capabilities cs i = i\<lparr>bi_capabilities := cs\<rparr>"

definition backend_card :: "('b, 'm) core_ops \<Rightarrow> backend_info \<Rightarrow> expr" where
  "backend_card co i = EMap
     [card_entry ''subject'' (ESymbol (bi_id i)),
      card_entry ''kind'' (ESymbol (symbol_qualified ''stream'' ''host-backend'')),
      card_entry ''transport'' (ESymbol (bi_transport i)),
      card_entry ''media'' (ESymbol (co_media_symbol co (bi_media i))),
      card_entry ''hardware-required'' (EBool (bi_hardware_required i)),
      card_entry ''callbacks-bounded'' (EBool (bi_callbacks_bounded i)),
      card_entry ''capabilities''
        (EList (map (\<lambda>c. ESymbol (host_capability_symbol c)) (bi_capabilities i)))]"

record 'b device_spec =
  ds_id :: symbol
  ds_backend :: symbol
  ds_media :: stream_media
  ds_direction :: host_direction
  ds_clock :: symbol
  ds_buffer :: 'b

definition device_spec_new ::
  "symbol \<Rightarrow> symbol \<Rightarrow> stream_media \<Rightarrow> host_direction \<Rightarrow> symbol \<Rightarrow> 'b \<Rightarrow> 'b device_spec" where
  "device_spec_new i backend media direction clock buffer = \<lparr>ds_id = i, ds_backend = backend,
     ds_media = media, ds_direction = direction, ds_clock = clock, ds_buffer = buffer\<rparr>"

definition device_metadata :: "('b, 'm) core_ops \<Rightarrow> 'b device_spec \<Rightarrow> 'm" where
  "device_metadata co d = co_metadata co (ds_id d) (ds_media d)
     (host_stream_direction (ds_direction d)) (ds_clock d) (ds_buffer d)"

record open_plan =
  op_backend :: symbol
  op_device :: symbol
  op_effect_kinds :: "symbol list"
  op_requires :: "capability list"

definition open_plan_new ::
  "symbol \<Rightarrow> symbol \<Rightarrow> symbol list \<Rightarrow> capability list \<Rightarrow> open_plan" where
  "open_plan_new backend device kinds requires = \<lparr>op_backend = backend, op_device = device,
     op_effect_kinds = kinds, op_requires = requires\<rparr>"

definition device_open_plan :: "'b device_spec \<Rightarrow> open_plan" where
  "device_open_plan d = \<lparr>op_backend = ds_backend d, op_device = ds_id d,
     op_effect_kinds = effect_kinds (ds_direction d), op_requires = [stream_host_capability]\<rparr>"

definition device_card :: "('b, 'm) core_ops \<Rightarrow> 'b device_spec \<Rightarrow> expr" where
  "device_card co d = EMap
     [card_entry ''subject'' (ESymbol (ds_id d)),
      card_entry ''kind'' (ESymbol (symbol_qualified ''stream'' ''host-device'')),
      card_entry ''backend'' (ESymbol (ds_backend d)),
      card_entry ''media'' (ESymbol (co_media_symbol co (ds_media d))),
      card_entry ''direction'' (ESymbol (host_direction_symbol (ds_direction d))),
      card_entry ''clock'' (ESymbol (ds_clock d)),
      card_entry ''buffer'' (co_buffer_expr co (ds_buffer d))]"

text \<open>
  \<open>enforce\<close>: every required capability first, then one effect per declared kind, each resolved
  to \<open>stream/host/open-authorized\<close>. The context is passed through; an error returns early.
\<close>

primrec require_all :: "('cx, 'h) context_ops \<Rightarrow> capability list \<Rightarrow> 'cx \<Rightarrow> unit result" where
  "require_all ops [] cx = Ok ()"
| "require_all ops (c # cs) cx = and_then (cx_require ops cx c) (\<lambda>_. require_all ops cs cx)"

definition plan_effect :: "open_plan \<Rightarrow> symbol \<Rightarrow> 'h \<Rightarrow> 'h effect" where
  "plan_effect plan kind handle = \<lparr>ef_handle = handle, ef_kind = kind, ef_subject = op_device plan,
     ef_object = op_backend plan, ef_result = symbol_qualified ''stream/host'' ''open-result'',
     ef_requirements = op_requires plan\<rparr>"

primrec resolve_all ::
  "('cx, 'h) context_ops \<Rightarrow> open_plan \<Rightarrow> symbol list \<Rightarrow> 'cx \<Rightarrow> unit result \<times> 'cx" where
  "resolve_all ops plan [] cx = (Ok (), cx)"
| "resolve_all ops plan (kind # kinds) cx =
     (let (handle, cx1) = cx_fresh_handle ops cx;
          (out, cx2) = cx_resolve ops cx1 (plan_effect plan kind handle)
                         (symbol_qualified ''stream/host'' ''open-authorized'')
      in case out of Inl e \<Rightarrow> (Err e, cx2) | Inr _ \<Rightarrow> resolve_all ops plan kinds cx2)"

definition plan_enforce :: "('cx, 'h) context_ops \<Rightarrow> open_plan \<Rightarrow> 'cx \<Rightarrow> unit result \<times> 'cx" where
  "plan_enforce ops plan cx =
     (case require_all ops (op_requires plan) cx of
        Inl e \<Rightarrow> (Err e, cx)
      | Inr _ \<Rightarrow> resolve_all ops plan (op_effect_kinds plan) cx)"

subsection \<open>Inventories (\<open>src/inventory.rs\<close>)\<close>

record port_spec =
  ps_id :: symbol
  ps_device :: symbol
  ps_backend :: symbol
  ps_media :: stream_media
  ps_direction :: host_direction

definition port_spec_new ::
  "symbol \<Rightarrow> symbol \<Rightarrow> symbol \<Rightarrow> stream_media \<Rightarrow> host_direction \<Rightarrow> port_spec" where
  "port_spec_new i device backend media direction = \<lparr>ps_id = i, ps_device = device,
     ps_backend = backend, ps_media = media, ps_direction = direction\<rparr>"

definition port_card :: "('b, 'm) core_ops \<Rightarrow> port_spec \<Rightarrow> expr" where
  "port_card co p = EMap
     [card_entry ''subject'' (ESymbol (ps_id p)),
      card_entry ''kind'' (ESymbol (symbol_qualified ''stream'' ''host-port'')),
      card_entry ''device'' (ESymbol (ps_device p)),
      card_entry ''backend'' (ESymbol (ps_backend p)),
      card_entry ''media'' (ESymbol (co_media_symbol co (ps_media p))),
      card_entry ''direction'' (ESymbol (host_direction_symbol (ps_direction p)))]"

record 'b inventory =
  iv_backend :: symbol
  iv_devices :: "'b device_spec list"
  iv_ports :: "port_spec list"

definition inventory_new :: "symbol \<Rightarrow> 'b inventory" where
  "inventory_new backend = \<lparr>iv_backend = backend, iv_devices = [], iv_ports = []\<rparr>"

definition with_devices :: "'b device_spec list \<Rightarrow> 'b inventory \<Rightarrow> 'b inventory" where
  "with_devices ds iv = iv\<lparr>iv_devices := ds\<rparr>"

definition with_ports :: "port_spec list \<Rightarrow> 'b inventory \<Rightarrow> 'b inventory" where
  "with_ports ps iv = iv\<lparr>iv_ports := ps\<rparr>"

definition inventory_cards :: "('b, 'm) core_ops \<Rightarrow> 'b inventory \<Rightarrow> expr list" where
  "inventory_cards co iv = map (device_card co) (iv_devices iv) @ map (port_card co) (iv_ports iv)"

subsection \<open>Configurations (\<open>src/config.rs\<close>)\<close>

record latency_info =
  li_input_frames :: u32
  li_output_frames :: u32

definition latency_default :: latency_info where
  "latency_default = \<lparr>li_input_frames = 0, li_output_frames = 0\<rparr>"

definition latency_new :: "u32 \<Rightarrow> u32 \<Rightarrow> latency_info" where
  "latency_new i out = \<lparr>li_input_frames = i, li_output_frames = out\<rparr>"

record clock_info =
  ci_clock :: symbol
  ci_sample_rate_hz :: "u32 option"
  ci_stable :: bool

definition clock_info_new :: "symbol \<Rightarrow> u32 option \<Rightarrow> bool \<Rightarrow> clock_info" where
  "clock_info_new clock rate is_stable =
     \<lparr>ci_clock = clock, ci_sample_rate_hz = rate, ci_stable = is_stable\<rparr>"

record reconnect_policy =
  rp_enabled :: bool
  rp_max_attempts :: u32
  rp_backoff_ms :: u32

definition reconnect_disabled :: reconnect_policy where
  "reconnect_disabled = \<lparr>rp_enabled = False, rp_max_attempts = 0, rp_backoff_ms = 0\<rparr>"

definition reconnect_bounded :: "u32 \<Rightarrow> u32 \<Rightarrow> reconnect_policy" where
  "reconnect_bounded attempts backoff =
     \<lparr>rp_enabled = True, rp_max_attempts = attempts, rp_backoff_ms = backoff\<rparr>"

record 'b config_request =
  cr_backend :: symbol
  cr_device :: symbol
  cr_media :: stream_media
  cr_direction :: host_direction
  cr_buffer :: 'b
  cr_clock :: symbol
  cr_reconnect :: reconnect_policy

definition request_new ::
  "('b, 'm) core_ops \<Rightarrow> symbol \<Rightarrow> symbol \<Rightarrow> stream_media \<Rightarrow> host_direction \<Rightarrow> 'b \<Rightarrow> 'b config_request" where
  "request_new co backend device media direction buffer = \<lparr>cr_backend = backend, cr_device = device,
     cr_media = media, cr_direction = direction, cr_buffer = buffer,
     cr_clock = co_clock_symbol co ServerFrameClock, cr_reconnect = reconnect_disabled\<rparr>"

definition with_clock :: "symbol \<Rightarrow> 'b config_request \<Rightarrow> 'b config_request" where
  "with_clock clock r = r\<lparr>cr_clock := clock\<rparr>"

definition with_reconnect :: "reconnect_policy \<Rightarrow> 'b config_request \<Rightarrow> 'b config_request" where
  "with_reconnect p r = r\<lparr>cr_reconnect := p\<rparr>"

record 'b stream_config =
  sc_backend :: symbol
  sc_device :: symbol
  sc_media :: stream_media
  sc_direction :: host_direction
  sc_buffer :: 'b
  sc_clock :: clock_info
  sc_latency :: latency_info
  sc_reconnect :: reconnect_policy

definition config_from_request ::
  "'b config_request \<Rightarrow> latency_info \<Rightarrow> clock_info \<Rightarrow> 'b stream_config" where
  "config_from_request r latency clock = \<lparr>sc_backend = cr_backend r, sc_device = cr_device r,
     sc_media = cr_media r, sc_direction = cr_direction r, sc_buffer = cr_buffer r,
     sc_clock = clock, sc_latency = latency, sc_reconnect = cr_reconnect r\<rparr>"

definition config_metadata :: "('b, 'm) core_ops \<Rightarrow> 'b stream_config \<Rightarrow> 'm" where
  "config_metadata co c = co_metadata co (sc_device c) (sc_media c)
     (host_stream_direction (sc_direction c)) (ci_clock (sc_clock c)) (sc_buffer c)"

definition validate_realtime_local_audio :: "('b, 'm) core_ops \<Rightarrow> 'b stream_config \<Rightarrow> unit result" where
  "validate_realtime_local_audio co c =
     and_then (ensure (sc_media c = Pcm)
       (Eval [Lit ''realtime local audio host streams require PCM media''])) (\<lambda>_.
     and_then (co_clock_from co (ci_clock (sc_clock c))) (\<lambda>domain.
     and_then (ensure (domain = SampleClock)
       (Eval [Lit ''realtime local audio host streams require the sample clock domain''])) (\<lambda>_.
     ensure (co_capacity co (sc_buffer c) \<noteq> 0)
       (Eval [Lit ''realtime local audio host streams require a bounded buffer'']))))"

definition validate_lan_midi_control :: "('b, 'm) core_ops \<Rightarrow> 'b stream_config \<Rightarrow> unit result" where
  "validate_lan_midi_control co c =
     and_then (ensure (sc_media c = Midi)
       (Eval [Lit ''LAN MIDI/control host streams require MIDI media''])) (\<lambda>_.
     and_then (co_clock_from co (ci_clock (sc_clock c))) (\<lambda>domain.
     and_then (ensure (domain = MidiTickClock \<or> domain = ControlClock)
       (Eval [Lit ''LAN MIDI/control host streams require a MIDI tick or control clock domain'']))
       (\<lambda>_.
     ensure (co_capacity co (sc_buffer c) \<noteq> 0)
       (Eval [Lit ''LAN MIDI/control host streams require a bounded buffer'']))))"

definition validate_lan_audio_preview :: "('b, 'm) core_ops \<Rightarrow> 'b stream_config \<Rightarrow> unit result" where
  "validate_lan_audio_preview co c =
     and_then (ensure (sc_media c = Pcm)
       (Eval [Lit ''LAN buffered audio preview host streams require PCM media''])) (\<lambda>_.
     ensure (co_capacity co (sc_buffer c) \<noteq> 0)
       (Eval [Lit ''LAN buffered audio preview host streams require a bounded buffer'']))"

subsection \<open>Capability names\<close>

lemma device_capability_from_name_iff:
  "device_capability_from_name n = Some c \<longleftrightarrow> n = device_capability_str c"
  by (cases c) (auto simp: device_capability_from_name_def device_capability_all_def)

lemma device_grant_symbol_str:
  "\<exists>g. device_grant_symbol c = Some g \<and> as_qualified_str g = device_capability_name c"
  by (cases c) (simp_all add: device_grant_symbol_def device_local_name_def device_capability_name_def
      as_qualified_str_def)

lemma host_capability_symbol_inject [simp]:
  "host_capability_symbol c = host_capability_symbol c' \<longleftrightarrow> c = c'"
  by (cases c; cases c') simp_all

subsection \<open>Validation\<close>

lemma validate_realtime_Ok:
  "validate_realtime_local_audio co c = Ok u \<longleftrightarrow>
     sc_media c = Pcm \<and> co_clock_from co (ci_clock (sc_clock c)) = Ok SampleClock \<and>
     co_capacity co (sc_buffer c) \<noteq> 0"
  by (auto simp: validate_realtime_local_audio_def result_simps)

lemma validate_lan_midi_Ok:
  "validate_lan_midi_control co c = Ok u \<longleftrightarrow>
     sc_media c = Midi \<and> (\<exists>d \<in> {MidiTickClock, ControlClock}.
       co_clock_from co (ci_clock (sc_clock c)) = Ok d) \<and> co_capacity co (sc_buffer c) \<noteq> 0"
  by (auto simp: validate_lan_midi_control_def result_simps)

lemma validate_lan_preview_Ok:
  "validate_lan_audio_preview co c = Ok u \<longleftrightarrow>
     sc_media c = Pcm \<and> co_capacity co (sc_buffer c) \<noteq> 0"
  by (auto simp: validate_lan_audio_preview_def result_simps)

subsection \<open>Enforcement\<close>

text \<open>
  What is assumed of the context's effect ledger, read by \<open>ledger\<close>: allocating a handle leaves
  it alone, a resolved effect is appended to it, and a failed resolution adds at most the effect
  it was asked to resolve.
\<close>

definition ledger_laws :: "('cx, 'h) context_ops \<Rightarrow> ('cx \<Rightarrow> 'h effect list) \<Rightarrow> bool" where
  "ledger_laws ops ledger \<longleftrightarrow>
     (\<forall>cx. ledger (snd (cx_fresh_handle ops cx)) = ledger cx) \<and>
     (\<forall>cx e r. case cx_resolve ops cx e r of
        (Inl _, cx') \<Rightarrow> ledger cx' = ledger cx \<or> ledger cx' = ledger cx @ [e]
      | (Inr _, cx') \<Rightarrow> ledger cx' = ledger cx @ [e])"

definition planned :: "open_plan \<Rightarrow> 'h effect \<Rightarrow> bool" where
  "planned plan e \<longleftrightarrow> ef_subject e = op_device plan \<and> ef_object e = op_backend plan \<and>
     ef_requirements e = op_requires plan"

lemma require_all_Ok:
  "require_all ops cs cx = Ok u \<longleftrightarrow> (\<forall>c \<in> set cs. cx_require ops cx c = Ok ())"
  by (induction cs) (auto simp: result_simps)

lemma resolve_all_ledger:
  assumes laws: "ledger_laws ops ledger"
  shows "resolve_all ops plan kinds cx = (out, cx') \<Longrightarrow>
    \<exists>new rest. ledger cx' = ledger cx @ new \<and> kinds = map ef_kind new @ rest \<and>
      list_all (planned plan) new \<and> (out = Ok () \<longrightarrow> rest = [])"
proof (induction kinds arbitrary: cx)
  case Nil
  then show ?case by simp
next
  case (Cons kind kinds)
  obtain handle cx1 where fresh: "cx_fresh_handle ops cx = (handle, cx1)"
    by (cases "cx_fresh_handle ops cx")
  let ?e = "plan_effect plan kind handle"
  obtain r cx2 where res: "cx_resolve ops cx1 ?e
      (symbol_qualified ''stream/host'' ''open-authorized'') = (r, cx2)"
    by (cases "cx_resolve ops cx1 ?e (symbol_qualified ''stream/host'' ''open-authorized'')")
  have e: "ef_kind ?e = kind" "planned plan ?e"
    by (simp_all add: plan_effect_def planned_def)
  have ledger1: "ledger cx1 = ledger cx"
    using laws fresh unfolding ledger_laws_def by (metis snd_conv)
  have law: "case cx_resolve ops cx1 ?e (symbol_qualified ''stream/host'' ''open-authorized'') of
        (Inl _, cx') \<Rightarrow> ledger cx' = ledger cx1 \<or> ledger cx' = ledger cx1 @ [?e]
      | (Inr _, cx') \<Rightarrow> ledger cx' = ledger cx1 @ [?e]"
    using laws [unfolded ledger_laws_def, THEN conjunct2, THEN spec, THEN spec, THEN spec] .
  show ?case
  proof (cases r)
    case (Inl err)
    with Cons.prems fresh res have "out = Err err" "cx' = cx2" by simp_all
    moreover have "ledger cx2 = ledger cx \<or> ledger cx2 = ledger cx @ [?e]"
      using law res Inl ledger1 by simp
    ultimately show ?thesis
      using e by (auto intro: exI [of _ "[]"] exI [of _ "[?e]"])
  next
    case (Inr u)
    then have ledger2: "ledger cx2 = ledger cx @ [?e]"
      using law res ledger1 by simp
    have "resolve_all ops plan kinds cx2 = (out, cx')"
      using Cons.prems fresh res Inr by simp
    from Cons.IH [OF this] obtain new rest where
      "ledger cx' = ledger cx2 @ new" "kinds = map ef_kind new @ rest"
      "list_all (planned plan) new" "out = Ok () \<longrightarrow> rest = []"
      by blast
    with ledger2 e show ?thesis
      by (intro exI [of _ "?e # new"] exI [of _ rest]) simp
  qed
qed

lemma plan_enforce_ledger:
  assumes "ledger_laws ops ledger" and "plan_enforce ops plan cx = (out, cx')"
  shows "\<exists>new rest. ledger cx' = ledger cx @ new \<and> op_effect_kinds plan = map ef_kind new @ rest \<and>
      list_all (planned plan) new \<and>
      (out = Ok () \<longrightarrow> rest = [] \<and> (\<forall>c \<in> set (op_requires plan). cx_require ops cx c = Ok ())) \<and>
      (new \<noteq> [] \<longrightarrow> (\<forall>c \<in> set (op_requires plan). cx_require ops cx c = Ok ()))"
proof (cases "require_all ops (op_requires plan) cx")
  case (Inl e)
  with assms(2) have "out = Err e" "cx' = cx" by (simp_all add: plan_enforce_def)
  then show ?thesis by simp
next
  case (Inr u)
  then have granted: "\<forall>c \<in> set (op_requires plan). cx_require ops cx c = Ok ()"
    by (simp add: require_all_Ok)
  have "resolve_all ops plan (op_effect_kinds plan) cx = (out, cx')"
    using assms(2) Inr by (simp add: plan_enforce_def)
  from resolve_all_ledger [OF assms(1) this] obtain new rest where
    "ledger cx' = ledger cx @ new" "op_effect_kinds plan = map ef_kind new @ rest"
    "list_all (planned plan) new" "out = Ok () \<longrightarrow> rest = []"
    by blast
  with granted show ?thesis
    by (intro exI [of _ new] exI [of _ rest]) simp
qed

lemma demo_ledger: "ledger_laws demo_ops dc_ledger"
  by (simp add: ledger_laws_def demo_ops_def)

subsection \<open>Properties\<close>

text \<open>
  C5. Enforcing an open plan never records an effect without authority: the effects it adds to
  the ledger are an initial segment of the declared kinds in their order, each for the plan's
  device and backend and with the plan's requirements, and there is one only when every required
  capability is granted. It succeeds only when all are granted and all declared effects are
  recorded; when a capability is missing it leaves the context untouched.
\<close>
theorem enforce_records_after_authority:
  assumes "ledger_laws ops ledger" and "plan_enforce ops plan cx = (out, cx')"
  shows "(\<exists>new rest. ledger cx' = ledger cx @ new \<and>
      op_effect_kinds plan = map ef_kind new @ rest \<and> list_all (planned plan) new \<and>
      (new \<noteq> [] \<or> out = Ok () \<longrightarrow> list_all (\<lambda>c. cx_require ops cx c = Ok ()) (op_requires plan)) \<and>
      (out = Ok () \<longrightarrow> rest = [])) \<and>
    (\<not> list_all (\<lambda>c. cx_require ops cx c = Ok ()) (op_requires plan) \<longrightarrow>
      cx' = cx \<and> (\<exists>e. out = Err e))"
proof
  show "\<exists>new rest. ledger cx' = ledger cx @ new \<and>
      op_effect_kinds plan = map ef_kind new @ rest \<and> list_all (planned plan) new \<and>
      (new \<noteq> [] \<or> out = Ok () \<longrightarrow> list_all (\<lambda>c. cx_require ops cx c = Ok ()) (op_requires plan)) \<and>
      (out = Ok () \<longrightarrow> rest = [])"
    using plan_enforce_ledger [OF assms] unfolding list_all_iff by metis
  show "\<not> list_all (\<lambda>c. cx_require ops cx c = Ok ()) (op_requires plan) \<longrightarrow>
      cx' = cx \<and> (\<exists>e. out = Err e)"
  proof
    assume "\<not> list_all (\<lambda>c. cx_require ops cx c = Ok ()) (op_requires plan)"
    then have "require_all ops (op_requires plan) cx \<noteq> Ok ()"
      unfolding require_all_Ok list_all_iff .
    then obtain e where "require_all ops (op_requires plan) cx = Err e"
      by (cases "require_all ops (op_requires plan) cx") auto
    with assms(2) have "out = Err e" "cx' = cx"
      by (simp_all add: plan_enforce_def)
    then show "cx' = cx \<and> (\<exists>e. out = Err e)"
      by blast
  qed
qed

theorem enforce_records_after_authority_witness:
  "map ef_kind (dc_ledger (snd (plan_enforce demo_ops
       \<lparr>op_backend = symbol_new ''b'', op_device = symbol_new ''d'',
        op_effect_kinds = effect_kinds Duplex, op_requires = [stream_host_capability]\<rparr>
       \<lparr>dc_grants = [''stream.host''], dc_next = 0, dc_ledger = []\<rparr>)))
     = [device_read_kind, device_write_kind]"
  using enforce_records_after_authority [OF demo_ledger prod.collapse [symmetric], of
      "\<lparr>op_backend = symbol_new ''b'', op_device = symbol_new ''d'',
        op_effect_kinds = effect_kinds Duplex, op_requires = [stream_host_capability]\<rparr>"
      "\<lparr>dc_grants = [''stream.host''], dc_next = 0, dc_ledger = []\<rparr>"]
  by (simp add: plan_enforce_def demo_ops_def stream_host_capability_def plan_effect_def)

end
