(* ===== verification/Streams.thy ===== *)
theory Streams
  imports Host
begin

section \<open>Callback queues, opened streams and backends\<close>

text \<open>
  \<open>src/queue.rs\<close>, \<open>src/backend.rs\<close>, \<open>src/registry.rs\<close>, \<open>src/fake.rs\<close>, \<open>src/rtp_midi.rs\<close> and
  \<open>src/cassette.rs\<close>. The push stream behind a queue is \<open>StreamValue\<close> of \<open>sim_lib_stream_core\<close>:
  its operations are the record \<open>stream_ops\<close>, each taking the stream and answering the changed
  stream. The clones of a queue share one stream, so the model threads that one stream through
  every call. A backend is the record of its trait methods; the locale \<open>host_backend\<close> is what
  the registry relies on, discharged for the two backends of the repository.
\<close>

subsection \<open>The push stream\<close>

datatype 'it push_result =
    Accepted
  | DroppedNewest 'it
  | DroppedOldest 'it
  | Rejected 'it
  | Closed 'it

record ('m, 'st, 'it, 'p) stream_ops =
  so_push :: "'m \<Rightarrow> 'st"
  so_metadata :: "'st \<Rightarrow> 'm"
  so_push_packet :: "'it \<Rightarrow> 'st \<Rightarrow> 'it push_result result \<times> 'st"
  so_take_packets :: "usize \<Rightarrow> 'st \<Rightarrow> 'it list result \<times> 'st"
  so_close_push :: "'st \<Rightarrow> unit result \<times> 'st"
  so_cancel :: "'st \<Rightarrow> unit result \<times> 'st"
  so_stats :: "'st \<Rightarrow> stream_stats result"
  so_item :: "'p stream_packet \<Rightarrow> 'it"
  so_packet :: "'it \<Rightarrow> 'p stream_packet"

subsection \<open>The callback queue (\<open>src/queue.rs\<close>)\<close>

record 'st callback_queue =
  cq_media :: stream_media
  cq_direction :: stream_direction
  cq_stream :: 'st

definition queue_new ::
  "('b, 'm) core_ops \<Rightarrow> ('m, 'st, 'it, 'p) stream_ops \<Rightarrow> 'st \<Rightarrow> 'st callback_queue" where
  "queue_new co so stream = \<lparr>cq_media = co_meta_media co (so_metadata so stream),
     cq_direction = co_meta_direction co (so_metadata so stream), cq_stream = stream\<rparr>"

primrec packet_media :: "'p stream_packet \<Rightarrow> stream_media" where
  "packet_media (PcmPacket _) = Pcm"
| "packet_media (MidiPacket _) = Midi"
| "packet_media (DiagnosticPacket _) = Diagnostic"
| "packet_media (DataPacket _) = Data"

definition ensure_media :: "'st callback_queue \<Rightarrow> 'p stream_packet \<Rightarrow> unit result" where
  "ensure_media q packet =
     (if packet_media packet = cq_media q then Ok ()
      else Err (TypeMismatch ''host callback packet matching device media''
                             ''host callback packet for another media''))"

definition ensure_callback_input :: "'st callback_queue \<Rightarrow> unit result" where
  "ensure_callback_input q =
     (if cq_direction q = Sink
      then Err (Eval [Lit ''host callbacks cannot push into a sink stream'']) else Ok ())"

text \<open>Running a stream operation on the queue's stream.\<close>

definition on_stream :: "('st \<Rightarrow> 'a \<times> 'st) \<Rightarrow> 'st callback_queue \<Rightarrow> 'a \<times> 'st callback_queue" where
  "on_stream f q = (let (r, st) = f (cq_stream q) in (r, q\<lparr>cq_stream := st\<rparr>))"

definition callback_item ::
  "('m, 'st, 'it, 'p) stream_ops \<Rightarrow> 'it \<Rightarrow> 'st callback_queue \<Rightarrow>
   'it push_result result \<times> 'st callback_queue" where
  "callback_item so item q =
     (case and_then (ensure_callback_input q) (\<lambda>_. ensure_media q (so_packet so item)) of
        Inl e \<Rightarrow> (Err e, q)
      | Inr _ \<Rightarrow> on_stream (so_push_packet so item) q)"

definition callback_packet ::
  "('m, 'st, 'it, 'p) stream_ops \<Rightarrow> 'p stream_packet \<Rightarrow> 'st callback_queue \<Rightarrow>
   'it push_result result \<times> 'st callback_queue" where
  "callback_packet so packet q =
     (case and_then (ensure_callback_input q) (\<lambda>_. ensure_media q packet) of
        Inl e \<Rightarrow> (Err e, q)
      | Inr _ \<Rightarrow> on_stream (so_push_packet so (so_item so packet)) q)"

definition queue_drain ::
  "('m, 'st, 'it, 'p) stream_ops \<Rightarrow> usize \<Rightarrow> 'st callback_queue \<Rightarrow> 'it list result \<times> 'st callback_queue"
  where
  "queue_drain so limit q = on_stream (so_take_packets so limit) q"

definition queue_close ::
  "('m, 'st, 'it, 'p) stream_ops \<Rightarrow> 'st callback_queue \<Rightarrow> unit result \<times> 'st callback_queue" where
  "queue_close so q = on_stream (so_close_push so) q"

definition queue_cancel ::
  "('m, 'st, 'it, 'p) stream_ops \<Rightarrow> 'st callback_queue \<Rightarrow> unit result \<times> 'st callback_queue" where
  "queue_cancel so q = on_stream (so_cancel so) q"

definition queue_stats :: "('m, 'st, 'it, 'p) stream_ops \<Rightarrow> 'st callback_queue \<Rightarrow> stream_stats result" where
  "queue_stats so q = so_stats so (cq_stream q)"

text \<open>\<open>snapshot\<close> is \<open>StreamInspectorSnapshot::from_stream_value\<close>.\<close>

definition queue_inspector ::
  "('st \<Rightarrow> symbol \<Rightarrow> 'profile \<Rightarrow> symbol list \<Rightarrow> 'snap result) \<Rightarrow> symbol \<Rightarrow> 'profile \<Rightarrow> symbol list \<Rightarrow>
   'st callback_queue \<Rightarrow> 'snap result" where
  "queue_inspector snapshot route profile diagnostics q = snapshot (cq_stream q) route profile diagnostics"

subsection \<open>Opened streams (\<open>src/backend.rs\<close>)\<close>

text \<open>
  The handle of an external driver: the driver itself and the flag \<open>closed\<close>. Every clone of an
  opened stream holds the same handle. \<open>shutdown\<close>, the driver's own method, is an argument.
\<close>

record 'd driver_handle =
  dh_driver :: 'd
  dh_closed :: bool

definition driver_handle_new :: "'d \<Rightarrow> 'd driver_handle" where
  "driver_handle_new d = \<lparr>dh_driver = d, dh_closed = False\<rparr>"

definition shutdown_once ::
  "('d \<Rightarrow> unit result \<times> 'd) \<Rightarrow> 'd driver_handle \<Rightarrow> unit result \<times> 'd driver_handle" where
  "shutdown_once shutdown h =
     (if dh_closed h then (Ok (), h)
      else let (r, d) = shutdown (dh_driver h) in (r, h\<lparr>dh_closed := True, dh_driver := d\<rparr>))"

record ('b, 'st, 'd) open_stream =
  os_config :: "'b stream_config"
  os_queue :: "'st callback_queue"
  os_driver :: "'d driver_handle option"

definition open_stream_new ::
  "('b, 'm) core_ops \<Rightarrow> ('m, 'st, 'it, 'p) stream_ops \<Rightarrow> 'b stream_config \<Rightarrow> ('b, 'st, 'd) open_stream"
  where
  "open_stream_new co so config = \<lparr>os_config = config,
     os_queue = queue_new co so (so_push so (config_metadata co config)), os_driver = None\<rparr>"

definition open_stream_with_driver ::
  "('b, 'm) core_ops \<Rightarrow> ('m, 'st, 'it, 'p) stream_ops \<Rightarrow> 'b stream_config \<Rightarrow> 'd \<Rightarrow>
   ('b, 'st, 'd) open_stream" where
  "open_stream_with_driver co so config driver = \<lparr>os_config = config,
     os_queue = queue_new co so (so_push so (config_metadata co config)),
     os_driver = Some (driver_handle_new driver)\<rparr>"

text \<open>
  \<open>build_driver\<close> receives a clone of the queue; what it pushes into the shared stream while it
  builds the driver is the changed queue it answers.
\<close>

definition try_open_with_driver ::
  "('b, 'm) core_ops \<Rightarrow> ('m, 'st, 'it, 'p) stream_ops \<Rightarrow> 'b stream_config \<Rightarrow>
   ('st callback_queue \<Rightarrow> 'd result \<times> 'st) \<Rightarrow> ('b, 'st, 'd) open_stream result" where
  "try_open_with_driver co so config build_driver =
     (let queue = queue_new co so (so_push so (config_metadata co config));
          (built, st) = build_driver queue
      in and_then built (\<lambda>driver. Ok \<lparr>os_config = config, os_queue = queue\<lparr>cq_stream := st\<rparr>,
           os_driver = Some (driver_handle_new driver)\<rparr>))"

definition open_realtime_local_audio ::
  "('b, 'm) core_ops \<Rightarrow> ('m, 'st, 'it, 'p) stream_ops \<Rightarrow> 'b stream_config \<Rightarrow>
   ('b, 'st, 'd) open_stream result" where
  "open_realtime_local_audio co so config =
     and_then (validate_realtime_local_audio co config) (\<lambda>_. Ok (open_stream_new co so config))"

definition open_realtime_with_driver ::
  "('b, 'm) core_ops \<Rightarrow> ('m, 'st, 'it, 'p) stream_ops \<Rightarrow> 'b stream_config \<Rightarrow> 'd \<Rightarrow>
   ('b, 'st, 'd) open_stream result" where
  "open_realtime_with_driver co so config driver =
     and_then (validate_realtime_local_audio co config)
       (\<lambda>_. Ok (open_stream_with_driver co so config driver))"

definition try_open_realtime_with_driver ::
  "('b, 'm) core_ops \<Rightarrow> ('m, 'st, 'it, 'p) stream_ops \<Rightarrow> 'b stream_config \<Rightarrow>
   ('st callback_queue \<Rightarrow> 'd result \<times> 'st) \<Rightarrow> ('b, 'st, 'd) open_stream result" where
  "try_open_realtime_with_driver co so config build_driver =
     and_then (validate_realtime_local_audio co config)
       (\<lambda>_. try_open_with_driver co so config build_driver)"

definition open_lan_midi_control ::
  "('b, 'm) core_ops \<Rightarrow> ('m, 'st, 'it, 'p) stream_ops \<Rightarrow> 'b stream_config \<Rightarrow>
   ('b, 'st, 'd) open_stream result" where
  "open_lan_midi_control co so config =
     and_then (validate_lan_midi_control co config) (\<lambda>_. Ok (open_stream_new co so config))"

definition open_lan_audio_preview ::
  "('b, 'm) core_ops \<Rightarrow> ('m, 'st, 'it, 'p) stream_ops \<Rightarrow> 'b stream_config \<Rightarrow>
   ('b, 'st, 'd) open_stream result" where
  "open_lan_audio_preview co so config =
     and_then (validate_lan_audio_preview co config) (\<lambda>_. Ok (open_stream_new co so config))"

definition shutdown_driver ::
  "('d \<Rightarrow> unit result \<times> 'd) \<Rightarrow> ('b, 'st, 'd) open_stream \<Rightarrow> unit result \<times> ('b, 'st, 'd) open_stream"
  where
  "shutdown_driver shutdown s =
     (case os_driver s of
        None \<Rightarrow> (Ok (), s)
      | Some h \<Rightarrow> (let (r, h') = shutdown_once shutdown h in (r, s\<lparr>os_driver := Some h'\<rparr>)))"

definition open_stream_close ::
  "('m, 'st, 'it, 'p) stream_ops \<Rightarrow> ('d \<Rightarrow> unit result \<times> 'd) \<Rightarrow> ('b, 'st, 'd) open_stream \<Rightarrow>
   unit result \<times> ('b, 'st, 'd) open_stream" where
  "open_stream_close so shutdown s =
     (let (r, q) = queue_close so (os_queue s); s1 = s\<lparr>os_queue := q\<rparr>
      in case r of Inl e \<Rightarrow> (Err e, s1) | Inr _ \<Rightarrow> shutdown_driver shutdown s1)"

definition open_stream_cancel ::
  "('m, 'st, 'it, 'p) stream_ops \<Rightarrow> ('d \<Rightarrow> unit result \<times> 'd) \<Rightarrow> ('b, 'st, 'd) open_stream \<Rightarrow>
   unit result \<times> ('b, 'st, 'd) open_stream" where
  "open_stream_cancel so shutdown s =
     (let (r, q) = queue_cancel so (os_queue s); s1 = s\<lparr>os_queue := q\<rparr>
      in case r of Inl e \<Rightarrow> (Err e, s1) | Inr _ \<Rightarrow> shutdown_driver shutdown s1)"

subsection \<open>Backends and their registry (\<open>src/backend.rs\<close>, \<open>src/registry.rs\<close>)\<close>

record ('b, 'st, 'd) backend =
  be_info :: backend_info
  be_enumerate :: "'b inventory result"
  be_open :: "'b config_request \<Rightarrow> ('b, 'st, 'd) open_stream result"

type_synonym ('b, 'st, 'd) backend_registry = "(symbol, ('b, 'st, 'd) backend) btree"

definition backend_registry_new :: "('b, 'st, 'd) backend_registry" where
  "backend_registry_new = bt_empty"

definition registry_register ::
  "('b, 'st, 'd) backend \<Rightarrow> ('b, 'st, 'd) backend_registry \<Rightarrow> unit result \<times> ('b, 'st, 'd) backend_registry"
  where
  "registry_register backend reg =
     (let i = bi_id (be_info backend)
      in if bt_get reg i \<noteq> None
         then (Err (Eval [Lit ''stream host backend '', Show_sym i, Lit '' is already registered'']), reg)
         else (Ok (), bt_insert i backend reg))"

definition registry_backend :: "('b, 'st, 'd) backend_registry \<Rightarrow> symbol \<Rightarrow> ('b, 'st, 'd) backend option" where
  "registry_backend reg i = bt_get reg i"

definition registry_enumerate :: "('b, 'st, 'd) backend_registry \<Rightarrow> 'b inventory list result" where
  "registry_enumerate reg = traverse be_enumerate (bt_values reg)"

definition backend_or_error ::
  "('b, 'st, 'd) backend_registry \<Rightarrow> symbol \<Rightarrow> ('b, 'st, 'd) backend result" where
  "backend_or_error reg i = ok_or (bt_get reg i)
     (Eval [Lit ''stream host backend '', Show_sym i, Lit '' is not registered''])"

definition plan_open :: "('b, 'st, 'd) backend_registry \<Rightarrow> 'b config_request \<Rightarrow> open_plan result" where
  "plan_open reg request =
     and_then (backend_or_error reg (cr_backend request)) (\<lambda>backend.
     and_then (be_enumerate backend) (\<lambda>inventory.
     and_then (ok_or (find (\<lambda>d. ds_id d = cr_device request) (iv_devices inventory))
         (Eval [Lit ''stream host backend '', Show_sym (cr_backend request), Lit '' has no device '',
                Show_sym (cr_device request)])) (\<lambda>device.
     if ds_media device \<noteq> cr_media request
     then Err (TypeMismatch ''request media matching host device'' ''request media for another host device'')
     else if ds_direction device \<noteq> cr_direction request
     then Err (TypeMismatch ''request direction matching host device''
                            ''request direction for another host device'')
     else Ok (device_open_plan device))))"

definition registry_open ::
  "('b, 'st, 'd) backend_registry \<Rightarrow> 'b config_request \<Rightarrow> ('b, 'st, 'd) open_stream result" where
  "registry_open reg request =
     and_then (plan_open reg request) (\<lambda>_.
     and_then (backend_or_error reg (cr_backend request)) (\<lambda>backend.
     be_open backend request))"

definition open_checked ::
  "('cx, 'h) context_ops \<Rightarrow> ('b, 'st, 'd) backend_registry \<Rightarrow> 'b config_request \<Rightarrow> 'cx \<Rightarrow>
   ('b, 'st, 'd) open_stream result \<times> 'cx" where
  "open_checked ops reg request cx =
     (case plan_open reg request of
        Inl e \<Rightarrow> (Err e, cx)
      | Inr plan \<Rightarrow>
          (case plan_enforce ops plan cx of
             (Inl e, cx') \<Rightarrow> (Err e, cx')
           | (Inr _, cx') \<Rightarrow> (registry_open reg request, cx')))"

definition registry_cards ::
  "('b, 'm) core_ops \<Rightarrow> ('b, 'st, 'd) backend_registry \<Rightarrow> expr list result" where
  "registry_cards co reg =
     and_then (traverse (\<lambda>backend. and_then (be_enumerate backend)
         (\<lambda>inventory. Ok (backend_card co (be_info backend) # inventory_cards co inventory)))
       (bt_values reg)) (\<lambda>cards. Ok (concat cards))"

definition registry_missing_capability_card :: "('b, 'st, 'd) backend_registry \<Rightarrow> symbol \<Rightarrow> host_capability \<Rightarrow> expr" where
  "registry_missing_capability_card reg backend c = missing_capability_card backend c"

subsection \<open>The fake backend (\<open>src/fake.rs\<close>)\<close>

definition fake_backend_symbol :: symbol where
  "fake_backend_symbol = symbol_qualified ''stream/host'' ''fake''"

primrec fake_clock :: "('b, 'm) core_ops \<Rightarrow> stream_media \<Rightarrow> symbol" where
  "fake_clock co Pcm = co_clock_symbol co SampleClock"
| "fake_clock co Midi = co_clock_symbol co MidiTickClock"
| "fake_clock co Diagnostic = co_clock_symbol co ServerFrameClock"
| "fake_clock co Data = co_clock_symbol co ServerFrameClock"

text \<open>\<open>None\<close> is the panic of \<open>expect("valid fake buffer")\<close>.\<close>

definition fake_device ::
  "('b, 'm) core_ops \<Rightarrow> string \<Rightarrow> stream_media \<Rightarrow> host_direction \<Rightarrow> usize \<Rightarrow> 'b device_spec option" where
  "fake_device co i media direction capacity =
     (case co_bounded co capacity of
        Inl _ \<Rightarrow> None
      | Inr buffer \<Rightarrow> Some (device_spec_new (symbol_new i) fake_backend_symbol media direction
                          (fake_clock co media) buffer))"

definition fake_port :: "string \<Rightarrow> symbol \<Rightarrow> stream_media \<Rightarrow> host_direction \<Rightarrow> port_spec" where
  "fake_port i device media direction =
     port_spec_new (symbol_new i) device fake_backend_symbol media direction"

record 'b fake_backend =
  fb_info :: backend_info
  fb_inventory :: "'b inventory"

definition fake_backend_new :: "('b, 'm) core_ops \<Rightarrow> 'b fake_backend option" where
  "fake_backend_new co =
     do { data \<leftarrow> fake_device co ''fake/data'' Data Input 8;
          data_duplex \<leftarrow> fake_device co ''fake/data-duplex'' Data Duplex 8;
          midi \<leftarrow> fake_device co ''fake/midi'' Midi Input 8;
          pcm \<leftarrow> fake_device co ''fake/pcm'' Pcm Output 8;
          let ports =
            [fake_port ''fake/data/in'' (ds_id data) Data Input,
             fake_port ''fake/data-duplex/io'' (ds_id data_duplex) Data Duplex,
             fake_port ''fake/midi/in'' (ds_id midi) Midi Input,
             fake_port ''fake/pcm/out'' (ds_id pcm) Pcm Output];
          Some \<lparr>fb_info = with_capabilities [FakeTransport, Offline, MidiInput, AudioOutput, DuplexDevice]
                  (backend_info_new fake_backend_symbol
                    (symbol_qualified ''stream/transport'' ''fake'') Data False),
                fb_inventory = with_ports ports (with_devices [data, data_duplex, midi, pcm]
                  (inventory_new fake_backend_symbol))\<rparr> }"

definition fake_data_request :: "('b, 'm) core_ops \<Rightarrow> usize \<Rightarrow> 'b config_request result" where
  "fake_data_request co capacity = and_then (co_bounded co capacity) (\<lambda>buffer.
     Ok (request_new co fake_backend_symbol (symbol_new ''fake/data'') Data Input buffer))"

definition fake_duplex_request :: "('b, 'm) core_ops \<Rightarrow> usize \<Rightarrow> 'b config_request result" where
  "fake_duplex_request co capacity = and_then (co_bounded co capacity) (\<lambda>buffer.
     Ok (request_new co fake_backend_symbol (symbol_new ''fake/data-duplex'') Data Duplex buffer))"

definition fake_enumerate :: "'b fake_backend \<Rightarrow> 'b inventory result" where
  "fake_enumerate fb = Ok (fb_inventory fb)"

definition fake_open ::
  "('b, 'm) core_ops \<Rightarrow> ('m, 'st, 'it, 'p) stream_ops \<Rightarrow> 'b fake_backend \<Rightarrow> 'b config_request \<Rightarrow>
   ('b, 'st, 'd) open_stream result" where
  "fake_open co so fb request =
     (if cr_backend request \<noteq> bi_id (fb_info fb)
      then Err (Eval [Lit ''fake backend cannot open '', Show_sym (cr_backend request), Lit '' requests''])
      else case find (\<lambda>d. ds_id d = cr_device request) (iv_devices (fb_inventory fb)) of
        None \<Rightarrow> Err (Eval [Lit ''fake backend has no device '', Show_sym (cr_device request)])
      | Some device \<Rightarrow>
          if ds_media device \<noteq> cr_media request
          then Err (TypeMismatch ''request media matching fake device''
                                 ''request media for another fake device'')
          else if ds_direction device \<noteq> cr_direction request
          then Err (TypeMismatch ''request direction matching fake device''
                                 ''request direction for another fake device'')
          else Ok (open_stream_new co so (config_from_request request latency_default
                 (clock_info_new (fake_clock co (ds_media device)) None True))))"

definition fake_as_backend ::
  "('b, 'm) core_ops \<Rightarrow> ('m, 'st, 'it, 'p) stream_ops \<Rightarrow> 'b fake_backend \<Rightarrow> ('b, 'st, 'd) backend" where
  "fake_as_backend co so fb = \<lparr>be_info = fb_info fb, be_enumerate = fake_enumerate fb,
     be_open = fake_open co so fb\<rparr>"

subsection \<open>The RTP-MIDI backend (\<open>src/rtp_midi.rs\<close>)\<close>

definition rtp_midi_backend_symbol :: symbol where
  "rtp_midi_backend_symbol = symbol_qualified ''stream/host'' ''rtp-midi''"

definition rtp_midi_info :: backend_info where
  "rtp_midi_info = with_capabilities [MidiInput, Offline]
     (backend_info_new rtp_midi_backend_symbol
       (symbol_qualified ''stream/transport'' ''rtp-midi'') Midi False)"

definition rtp_source_spec :: "('b, 'm) core_ops \<Rightarrow> string \<Rightarrow> usize \<Rightarrow> 'b device_spec result" where
  "rtp_source_spec co i capacity = and_then (co_bounded co capacity) (\<lambda>buffer.
     Ok (device_spec_new (symbol_new i) rtp_midi_backend_symbol Midi Input
           (co_clock_symbol co MidiTickClock) buffer))"

definition rtp_enumerate :: "('b, 'm) core_ops \<Rightarrow> 'b inventory result" where
  "rtp_enumerate co = and_then (rtp_source_spec co ''rtp-midi/default'' 8) (\<lambda>device.
     let port = port_spec_new (symbol_new ''rtp-midi/default/in'') (ds_id device)
                  rtp_midi_backend_symbol Midi Input
     in Ok (with_ports [port] (with_devices [device] (inventory_new rtp_midi_backend_symbol))))"

definition rtp_device_for_request ::
  "('b, 'm) core_ops \<Rightarrow> 'b config_request \<Rightarrow> 'b device_spec result" where
  "rtp_device_for_request co request = and_then (rtp_enumerate co) (\<lambda>inventory.
     ok_or (find (\<lambda>d. ds_id d = cr_device request) (iv_devices inventory))
       (Eval [Lit ''unknown RTP-MIDI device '', Show_sym (cr_device request)]))"

definition rtp_open ::
  "('b, 'm) core_ops \<Rightarrow> ('m, 'st, 'it, 'p) stream_ops \<Rightarrow> 'b config_request \<Rightarrow>
   ('b, 'st, 'd) open_stream result" where
  "rtp_open co so request =
     (if cr_backend request \<noteq> bi_id rtp_midi_info
      then Err (Eval [Lit ''RTP-MIDI backend cannot open '', Show_sym (cr_backend request),
                      Lit '' requests''])
      else and_then (rtp_device_for_request co request) (\<lambda>device.
        if ds_media device \<noteq> cr_media request
        then Err (TypeMismatch ''MIDI host stream request'' ''non-MIDI host stream request'')
        else if ds_direction device \<noteq> cr_direction request
        then Err (TypeMismatch ''RTP-MIDI input or duplex stream request''
                               ''request direction for another RTP-MIDI device'')
        else open_lan_midi_control co so (config_from_request request latency_default
               (clock_info_new (cr_clock request) None True))))"

definition rtp_as_backend ::
  "('b, 'm) core_ops \<Rightarrow> ('m, 'st, 'it, 'p) stream_ops \<Rightarrow> ('b, 'st, 'd) backend" where
  "rtp_as_backend co so = \<lparr>be_info = rtp_midi_info, be_enumerate = rtp_enumerate co,
     be_open = rtp_open co so\<rparr>"

record ('b, 'st) rtp_port =
  rp_spec :: "'b device_spec"
  rp_queue :: "'st callback_queue"

definition rtp_open_source ::
  "('cx, 'h) context_ops \<Rightarrow> ('b, 'm) core_ops \<Rightarrow> ('m, 'st, 'it, 'p) stream_ops \<Rightarrow>
   'b device_spec \<Rightarrow> 'cx \<Rightarrow> ('b, 'st) rtp_port result \<times> 'cx" where
  "rtp_open_source ops co so spec cx =
     (if ds_backend spec \<noteq> bi_id rtp_midi_info
      then (Err (Eval [Lit ''RTP-MIDI backend cannot open '', Show_sym (ds_backend spec),
                       Lit '' device specs'']), cx)
      else if ds_media spec \<noteq> Midi
      then (Err (TypeMismatch ''MIDI host device'' ''non-MIDI host device''), cx)
      else if ds_direction spec = Output
      then (Err (TypeMismatch ''RTP-MIDI input or duplex device'' ''output-only host device''), cx)
      else case plan_enforce ops (device_open_plan spec) cx of
        (Inl e, cx') \<Rightarrow> (Err e, cx')
      | (Inr _, cx') \<Rightarrow> (Ok \<lparr>rp_spec = spec,
            rp_queue = queue_new co so (so_push so (device_metadata co spec))\<rparr>, cx'))"

definition rtp_receive_packet ::
  "('m, 'st, 'it, 'p) stream_ops \<Rightarrow> 'p \<Rightarrow> ('b, 'st) rtp_port \<Rightarrow> unit result \<times> ('b, 'st) rtp_port" where
  "rtp_receive_packet so packet port =
     (let (r, q) = callback_packet so (MidiPacket packet) (rp_queue port)
      in (and_then r (\<lambda>_. Ok ()), port\<lparr>rp_queue := q\<rparr>))"

text \<open>\<open>StreamEnvelope::from_item_with_profile\<close> under the LAN MIDI profile is the argument \<open>envelope\<close>.\<close>

definition rtp_receive_envelope ::
  "('b, 'm) core_ops \<Rightarrow> ('m, 'st, 'it, 'p) stream_ops \<Rightarrow> ('m \<Rightarrow> u64 \<Rightarrow> 'it \<Rightarrow> 'env result) \<Rightarrow>
   u64 \<Rightarrow> 'p \<Rightarrow> ('b, 'st) rtp_port \<Rightarrow> 'env result \<times> ('b, 'st) rtp_port" where
  "rtp_receive_envelope co so envelope seq packet port =
     (let item = so_item so (MidiPacket packet)
      in case envelope (device_metadata co (rp_spec port)) seq item of
        Inl e \<Rightarrow> (Err e, port)
      | Inr env \<Rightarrow>
          (let (r, q) = callback_item so item (rp_queue port)
           in (and_then r (\<lambda>_. Ok env), port\<lparr>rp_queue := q\<rparr>)))"

definition rtp_port_close ::
  "('m, 'st, 'it, 'p) stream_ops \<Rightarrow> ('b, 'st) rtp_port \<Rightarrow> unit result \<times> ('b, 'st) rtp_port" where
  "rtp_port_close so port = (let (r, q) = queue_close so (rp_queue port) in (r, port\<lparr>rp_queue := q\<rparr>))"

subsection \<open>Callback cassettes (\<open>src/cassette.rs\<close>)\<close>

record 'it callback_cassette =
  cc_items :: "'it list"

definition cassette_new :: "'it callback_cassette" where
  "cassette_new = \<lparr>cc_items = []\<rparr>"

definition record_item :: "'it \<Rightarrow> 'it callback_cassette \<Rightarrow> 'it callback_cassette" where
  "record_item item c = c\<lparr>cc_items := cc_items c @ [item]\<rparr>"

definition record_packet ::
  "('m, 'st, 'it, 'p) stream_ops \<Rightarrow> 'p stream_packet \<Rightarrow> 'it callback_cassette \<Rightarrow> 'it callback_cassette"
  where
  "record_packet so packet c = record_item (so_item so packet) c"

text \<open>The shared cassette format: \<open>StreamCassette::items\<close> and \<open>::from_items\<close> are arguments.\<close>

definition from_stream_cassette ::
  "('c \<Rightarrow> 'it list result) \<Rightarrow> 'c \<Rightarrow> 'it callback_cassette result" where
  "from_stream_cassette items_of c = and_then (items_of c) (\<lambda>items. Ok \<lparr>cc_items = items\<rparr>)"

definition to_stream_cassette ::
  "('m \<Rightarrow> 'it list \<Rightarrow> 'prof \<Rightarrow> stream_stats \<Rightarrow> 'c result) \<Rightarrow> 'm \<Rightarrow> 'prof \<Rightarrow>
   'it callback_cassette \<Rightarrow> 'c result" where
  "to_stream_cassette from_items metadata profile c =
     from_items metadata (cc_items c) profile
       (stats_default\<lparr>st_pushed := vec_len (cc_items c), st_accepted := vec_len (cc_items c)\<rparr>)"

record replay_report =
  rr_accepted :: u64
  rr_dropped_newest :: u64
  rr_dropped_oldest :: u64
  rr_rejected :: u64
  rr_closed :: u64

definition report_default :: replay_report where
  "report_default = \<lparr>rr_accepted = 0, rr_dropped_newest = 0, rr_dropped_oldest = 0,
     rr_rejected = 0, rr_closed = 0\<rparr>"

primrec report_record :: "'it push_result \<Rightarrow> replay_report \<Rightarrow> replay_report" where
  "report_record Accepted r = r\<lparr>rr_accepted := sat_add (rr_accepted r) 1\<rparr>"
| "report_record (DroppedNewest x) r = r\<lparr>rr_dropped_newest := sat_add (rr_dropped_newest r) 1\<rparr>"
| "report_record (DroppedOldest x) r = r\<lparr>rr_dropped_oldest := sat_add (rr_dropped_oldest r) 1\<rparr>"
| "report_record (Rejected x) r = r\<lparr>rr_rejected := sat_add (rr_rejected r) 1\<rparr>"
| "report_record (Closed x) r = r\<lparr>rr_closed := sat_add (rr_closed r) 1\<rparr>"

primrec replay_items ::
  "('m, 'st, 'it, 'p) stream_ops \<Rightarrow> 'it list \<Rightarrow> replay_report \<Rightarrow> 'st callback_queue \<Rightarrow>
   replay_report result \<times> 'st callback_queue" where
  "replay_items so [] report q = (Ok report, q)"
| "replay_items so (item # items) report q =
     (let (r, q') = callback_item so item q
      in case r of Inl e \<Rightarrow> (Err e, q')
                 | Inr pushed \<Rightarrow> replay_items so items (report_record pushed report) q')"

definition cassette_replay ::
  "('m, 'st, 'it, 'p) stream_ops \<Rightarrow> 'it callback_cassette \<Rightarrow> 'st callback_queue \<Rightarrow>
   replay_report result \<times> 'st callback_queue" where
  "cassette_replay so c q = replay_items so (cc_items c) report_default q"

subsection \<open>The guard of the queue\<close>

text \<open>What a queue lets through to its stream: any packet of its own medium, unless it is a sink.\<close>

definition admits :: "('m, 'st, 'it, 'p) stream_ops \<Rightarrow> 'st callback_queue \<Rightarrow> 'it \<Rightarrow> bool" where
  "admits so q item \<longleftrightarrow> cq_direction q \<noteq> Sink \<and> packet_media (so_packet so item) = cq_media q"

lemma callback_item_eq:
  "admits so q item \<Longrightarrow> callback_item so item q = on_stream (so_push_packet so item) q"
  "\<not> admits so q item \<Longrightarrow> \<exists>e. callback_item so item q = (Err e, q)"
  by (auto simp: callback_item_def admits_def ensure_callback_input_def ensure_media_def)

lemma on_stream_sel [simp]:
  "cq_media (snd (on_stream f q)) = cq_media q"
  "cq_direction (snd (on_stream f q)) = cq_direction q"
  "cq_stream (snd (on_stream f q)) = snd (f (cq_stream q))"
  "fst (on_stream f q) = fst (f (cq_stream q))"
  by (simp_all add: on_stream_def split_beta)

lemma callback_item_keeps:
  "cq_media (snd (callback_item so item q)) = cq_media q"
  "cq_direction (snd (callback_item so item q)) = cq_direction q"
  by (simp_all add: callback_item_def split: sum.splits)

lemma queue_new_sel:
  assumes "core_laws co" "\<And>m. so_metadata so (so_push so m) = m"
  shows "cq_media (queue_new co so (so_push so (co_metadata co i m d c b))) = m"
    and "cq_direction (queue_new co so (so_push so (co_metadata co i m d c b))) = d"
  using assms by (simp_all add: queue_new_def core_laws_def)

definition report_total :: "replay_report \<Rightarrow> nat" where
  "report_total r = unat (rr_accepted r) + unat (rr_dropped_newest r) + unat (rr_dropped_oldest r)
     + unat (rr_rejected r) + unat (rr_closed r)"

lemma report_record_total:
  "report_total r < 2 ^ 64 - 1 \<Longrightarrow> report_total (report_record p r) = Suc (report_total r)"
  by (cases p) (simp_all add: report_total_def unat_sat_add64)

text \<open>The stream after pushing the items one by one, in order.\<close>

definition push_all :: "('m, 'st, 'it, 'p) stream_ops \<Rightarrow> 'it list \<Rightarrow> 'st \<Rightarrow> 'st" where
  "push_all so items st = fold (\<lambda>item st. snd (so_push_packet so item st)) items st"

text \<open>One item either is refused, leaving the queue, or reaches the stream, which answers or fails.\<close>

lemma callback_item_cases:
  obtains (refused) e where "\<not> admits so q item" "callback_item so item q = (Err e, q)"
  | (failed) e q1 where "admits so q item" "callback_item so item q = (Err e, q1)"
      "cq_stream q1 = snd (so_push_packet so item (cq_stream q))"
  | (pushed) r q1 where "admits so q item" "callback_item so item q = (Ok r, q1)" "admits so q1 = admits so q"
      "cq_stream q1 = snd (so_push_packet so item (cq_stream q))"
proof (cases "admits so q item")
  case False
  then show ?thesis
    using refused callback_item_eq(2) [OF False] by blast
next
  case True
  obtain r q1 where step: "callback_item so item q = (r, q1)"
    by (cases "callback_item so item q")
  have st1: "cq_stream q1 = snd (so_push_packet so item (cq_stream q))"
    using step callback_item_eq(1) [OF True] by (metis on_stream_sel(3) snd_conv)
  have "admits so (snd (callback_item so item q)) = admits so q"
    by (rule ext) (simp add: admits_def callback_item_keeps)
  with True step st1 show ?thesis
    by (cases r) (auto intro: failed pushed)
qed

lemma replay_items_spec:
  "replay_items so items report q = (out, q') \<Longrightarrow> report_total report + length items < 2 ^ 64 \<Longrightarrow>
   (\<forall>r. out = Ok r \<longrightarrow> report_total r = report_total report + length items \<and>
      list_all (admits so q) items \<and> cq_stream q' = push_all so items (cq_stream q)) \<and>
   (\<forall>e. out = Err e \<longrightarrow> (\<exists>done item rest. items = done @ item # rest \<and>
      list_all (admits so q) done \<and> cq_stream q' = (if admits so q item
        then push_all so (done @ [item]) (cq_stream q) else push_all so done (cq_stream q))))"
proof (induction items arbitrary: report q)
  case Nil
  then show ?case by (auto simp: push_all_def)
next
  case (Cons item items)
  show ?case
  proof (cases rule: callback_item_cases [of so q item])
    case (refused e)
    with Cons.prems(1) have "out = Err e" "q' = q" by simp_all
    with refused(1) show ?thesis
      by (auto intro!: exI [of _ "[]"] simp: push_all_def)
  next
    case (failed e q1)
    with Cons.prems(1) have "out = Err e" "q' = q1" by simp_all
    with failed(1,3) show ?thesis
      by (auto intro!: exI [of _ "[]"] simp: push_all_def)
  next
    case (pushed r q1)
    have rec: "replay_items so items (report_record r report) q1 = (out, q')"
      using Cons.prems(1) pushed(2) by simp
    have tot: "report_total (report_record r report) = Suc (report_total report)"
      using Cons.prems(2) by (intro report_record_total) simp
    note IH = Cons.IH [OF rec, unfolded tot pushed(3)]
    show ?thesis
    proof (cases out)
      case (Inr r')
      then show ?thesis
        using IH Cons.prems(2) pushed(1,4) by (simp add: push_all_def)
    next
      case (Inl e)
      then obtain "done" item' rest where "items = done @ item' # rest"
        "list_all (admits so q) done" "cq_stream q' = (if admits so q item'
          then push_all so (done @ [item']) (cq_stream q1) else push_all so done (cq_stream q1))"
        using IH Cons.prems(2) by auto
      with Inl pushed(1,4) show ?thesis
        by (auto intro!: exI [of _ "item # done"] simp: push_all_def)
    qed
  qed
qed

subsection \<open>Ending a stream\<close>

datatype end_op = CloseStream | CancelStream

primrec end_step ::
  "('m, 'st, 'it, 'p) stream_ops \<Rightarrow> ('d \<Rightarrow> unit result \<times> 'd) \<Rightarrow> end_op \<Rightarrow>
   ('b, 'st, 'd) open_stream \<Rightarrow> (unit result \<times> ('b, 'st, 'd) open_stream) option" where
  "end_step so shutdown CloseStream s = Some (open_stream_close so shutdown s)"
| "end_step so shutdown CancelStream s = Some (open_stream_cancel so shutdown s)"

lemma shutdown_once_simps [simp]:
  "dh_closed h \<Longrightarrow> shutdown_once shutdown h = (Ok (), h)"
  "\<not> dh_closed h \<Longrightarrow> shutdown_once shutdown h = (fst (shutdown (dh_driver h)),
     \<lparr>dh_driver = snd (shutdown (dh_driver h)), dh_closed = True\<rparr>)"
  by (simp_all add: shutdown_once_def split_beta)

text \<open>One call: either the queue failed and the driver is as it was, or the handle was shut down.\<close>

lemma end_step_driver:
  assumes "end_step so shutdown op s = Some (out, s')" "os_driver s = Some h"
  shows "(\<exists>e. out = Err e \<and> os_driver s' = Some h) \<or>
    out = fst (shutdown_once shutdown h) \<and> os_driver s' = Some (snd (shutdown_once shutdown h))"
  using assms
  by (cases op)
    (auto simp: open_stream_close_def open_stream_cancel_def shutdown_driver_def split_beta Let_def
      split: sum.splits intro: sym)

definition driver_ended :: "('d \<Rightarrow> unit result \<times> 'd) \<Rightarrow> 'd \<Rightarrow> ('b, 'st, 'd) open_stream \<Rightarrow> bool" where
  "driver_ended shutdown d s \<longleftrightarrow> (\<exists>h. os_driver s = Some h \<and>
     dh_driver h = (if dh_closed h then snd (shutdown d) else d))"

lemma end_step_ended:
  assumes step: "end_step so shutdown op s = Some (out, s')" and s: "driver_ended shutdown d s"
  shows "driver_ended shutdown d s'"
    and "out = Ok () \<or> dh_closed (the (os_driver s)) \<Longrightarrow> dh_closed (the (os_driver s'))"
proof -
  obtain h where h: "os_driver s = Some h" "dh_driver h = (if dh_closed h then snd (shutdown d) else d)"
    using s by (auto simp: driver_ended_def)
  show "driver_ended shutdown d s'"
    using end_step_driver [OF step h(1)] h(2) by (cases "dh_closed h") (auto simp: driver_ended_def)
  show "dh_closed (the (os_driver s'))" if "out = Ok () \<or> dh_closed (the (os_driver s))"
    using end_step_driver [OF step h(1)] h(1) that by (cases "dh_closed h") auto
qed

lemma end_run_ended:
  "run_steps (end_step so shutdown) ops s = Some (outs, s') \<Longrightarrow> driver_ended shutdown d s \<Longrightarrow>
   driver_ended shutdown d s' \<and>
   (Ok () \<in> set outs \<or> dh_closed (the (os_driver s)) \<longrightarrow> dh_closed (the (os_driver s')))"
proof (induction ops arbitrary: s outs)
  case Nil
  then show ?case by simp
next
  case (Cons op ops)
  then obtain out s1 outs1 where step: "end_step so shutdown op s = Some (out, s1)"
    "run_steps (end_step so shutdown) ops s1 = Some (outs1, s')" "outs = out # outs1"
    by (auto split: bind_splits)
  note e = end_step_ended [OF step(1) Cons.prems(2)]
  show ?case
    using Cons.IH [OF step(2) e(1)] e(2) step(3) by auto
qed

subsection \<open>What the registry relies on\<close>

text \<open>
  The contract of a host backend, over an environment \<open>e\<close> (the external operations and the
  backend's own state): the devices it enumerates are its own and have different names, it opens
  only a request for itself that matches an enumerated device in medium and direction, and the
  stream it answers has the configuration that was asked for and a queue of that medium and
  direction.
\<close>

locale host_backend =
  fixes wf :: "'e \<Rightarrow> bool"
    and info :: "'e \<Rightarrow> backend_info"
    and enumerate :: "'e \<Rightarrow> 'b inventory result"
    and open_request :: "'e \<Rightarrow> 'b config_request \<Rightarrow> ('b, 'st, 'd) open_stream result"
  assumes enumerate_distinct: "wf e \<Longrightarrow> enumerate e = Ok iv \<Longrightarrow> distinct (map ds_id (iv_devices iv))"
    and enumerate_owned: "wf e \<Longrightarrow> enumerate e = Ok iv \<Longrightarrow> d \<in> set (iv_devices iv) \<Longrightarrow>
      ds_backend d = bi_id (info e)"
    and open_enumerated: "wf e \<Longrightarrow> open_request e r = Ok s \<Longrightarrow>
      \<exists>iv. enumerate e = Ok iv \<and> (\<exists>d \<in> set (iv_devices iv). ds_id d = cr_device r \<and>
        ds_media d = cr_media r \<and> ds_direction d = cr_direction r)"
    and open_config: "wf e \<Longrightarrow> open_request e r = Ok s \<Longrightarrow>
      cr_backend r = bi_id (info e) \<and> sc_backend (os_config s) = cr_backend r \<and>
      sc_device (os_config s) = cr_device r \<and> sc_media (os_config s) = cr_media r \<and>
      sc_direction (os_config s) = cr_direction r \<and> sc_buffer (os_config s) = cr_buffer r \<and>
      sc_reconnect (os_config s) = cr_reconnect r"
    and open_queue: "wf e \<Longrightarrow> open_request e r = Ok s \<Longrightarrow>
      cq_media (os_queue s) = cr_media r \<and>
      cq_direction (os_queue s) = host_stream_direction (cr_direction r)"
begin

text \<open>The registry's own checks refuse nothing that the backend accepts.\<close>

lemma registry_agrees:
  assumes wf: "wf e"
    and reg: "bt_get reg (bi_id (info e)) = Some \<lparr>be_info = info e, be_enumerate = enumerate e,
      be_open = open_request e\<rparr>"
    and r: "cr_backend r = bi_id (info e)"
  shows "registry_open reg r = Ok s \<longleftrightarrow> open_request e r = Ok s"
proof
  assume "registry_open reg r = Ok s"
  then show "open_request e r = Ok s"
    using reg by (auto simp: registry_open_def backend_or_error_def r result_simps)
next
  assume ok: "open_request e r = Ok s"
  obtain iv d where iv: "enumerate e = Ok iv" "d \<in> set (iv_devices iv)" "ds_id d = cr_device r"
    "ds_media d = cr_media r" "ds_direction d = cr_direction r"
    using open_enumerated [OF wf ok] by blast
  obtain d' where d': "find (\<lambda>d. ds_id d = cr_device r) (iv_devices iv) = Some d'"
    using iv(2,3) by (cases "find (\<lambda>d. ds_id d = cr_device r) (iv_devices iv)")
      (auto simp: find_None_iff)
  have "d' = d"
    using find_Some_mem [OF d'] iv(2,3) enumerate_distinct [OF wf iv(1)]
    by (metis distinct_map inj_onD)
  then have "plan_open reg r = Ok (device_open_plan d)"
    using reg iv d' by (simp add: plan_open_def backend_or_error_def r)
  then show "registry_open reg r = Ok s"
    using reg ok by (simp add: registry_open_def backend_or_error_def r)
qed

end

definition stream_laws :: "('m, 'st, 'it, 'p) stream_ops \<Rightarrow> bool" where
  "stream_laws so \<longleftrightarrow> (\<forall>m. so_metadata so (so_push so m) = m)"

lemma open_stream_new_sel:
  "os_config (open_stream_new co so c) = c"
  "core_laws co \<Longrightarrow> stream_laws so \<Longrightarrow> cq_media (os_queue (open_stream_new co so c)) = sc_media c"
  "core_laws co \<Longrightarrow> stream_laws so \<Longrightarrow>
     cq_direction (os_queue (open_stream_new co so c)) = host_stream_direction (sc_direction c)"
  by (simp_all add: open_stream_new_def queue_new_def config_metadata_def stream_laws_def core_laws_def)

lemma config_from_request_sel [simp]:
  "sc_backend (config_from_request r l c) = cr_backend r"
  "sc_device (config_from_request r l c) = cr_device r"
  "sc_media (config_from_request r l c) = cr_media r"
  "sc_direction (config_from_request r l c) = cr_direction r"
  "sc_buffer (config_from_request r l c) = cr_buffer r"
  "sc_reconnect (config_from_request r l c) = cr_reconnect r"
  "sc_clock (config_from_request r l c) = c"
  by (simp_all add: config_from_request_def)

lemma fake_device_sel:
  "fake_device co i m dir n = Some d \<Longrightarrow> ds_id d = symbol_new i \<and> ds_backend d = fake_backend_symbol \<and>
     ds_media d = m \<and> ds_direction d = dir"
  by (auto simp: fake_device_def device_spec_new_def split: sum.splits)

lemma fake_backend_new_sel:
  assumes "fake_backend_new co = Some fb"
  shows "bi_id (fb_info fb) = fake_backend_symbol"
    and "map ds_id (iv_devices (fb_inventory fb)) = map symbol_new
      [''fake/data'', ''fake/data-duplex'', ''fake/midi'', ''fake/pcm'']"
    and "d \<in> set (iv_devices (fb_inventory fb)) \<Longrightarrow> ds_backend d = fake_backend_symbol"
  using assms
  by (auto simp: fake_backend_new_def Let_def with_capabilities_def backend_info_new_def
      with_ports_def with_devices_def inventory_new_def dest!: fake_device_sel split: bind_splits)

lemma fake_open_Ok:
  "fake_open co so fb r = Ok s \<longleftrightarrow> cr_backend r = bi_id (fb_info fb) \<and>
     (\<exists>d. find (\<lambda>d. ds_id d = cr_device r) (iv_devices (fb_inventory fb)) = Some d \<and>
        ds_media d = cr_media r \<and> ds_direction d = cr_direction r \<and>
        s = open_stream_new co so (config_from_request r latency_default
              (clock_info_new (fake_clock co (ds_media d)) None True)))"
  by (auto simp: fake_open_def split: option.splits if_splits)

interpretation fake_host: host_backend
    "\<lambda>(co, so, fb). core_laws co \<and> stream_laws so \<and> fake_backend_new co = Some fb"
    "\<lambda>(co, so, fb). fb_info fb" "\<lambda>(co, so, fb). fake_enumerate fb"
    "\<lambda>(co, so, fb). fake_open co so fb"
  by unfold_locales
    (auto simp: fake_enumerate_def fake_open_Ok fake_backend_new_sel open_stream_new_sel
      dest!: find_Some_mem)

lemma rtp_enumerate_Ok:
  "rtp_enumerate co = Ok iv \<longleftrightarrow> (\<exists>d. rtp_source_spec co ''rtp-midi/default'' 8 = Ok d \<and>
     iv = \<lparr>iv_backend = rtp_midi_backend_symbol, iv_devices = [d],
           iv_ports = [port_spec_new (symbol_new ''rtp-midi/default/in'') (ds_id d)
                         rtp_midi_backend_symbol Midi Input]\<rparr>)"
  by (auto simp: rtp_enumerate_def Let_def result_simps with_ports_def with_devices_def inventory_new_def)

lemma rtp_source_spec_Ok:
  "rtp_source_spec co i n = Ok d \<longleftrightarrow> (\<exists>b. co_bounded co n = Ok b \<and>
     d = \<lparr>ds_id = symbol_new i, ds_backend = rtp_midi_backend_symbol, ds_media = Midi,
          ds_direction = Input, ds_clock = co_clock_symbol co MidiTickClock, ds_buffer = b\<rparr>)"
  by (auto simp: rtp_source_spec_def result_simps device_spec_new_def)

lemma rtp_midi_info_id [simp]: "bi_id rtp_midi_info = rtp_midi_backend_symbol"
  by (simp add: rtp_midi_info_def with_capabilities_def backend_info_new_def)

lemma rtp_device_for_request_eq:
  "rtp_device_for_request co r = and_then (co_bounded co 8) (\<lambda>b.
     if cr_device r = symbol_new ''rtp-midi/default''
     then Ok \<lparr>ds_id = symbol_new ''rtp-midi/default'', ds_backend = rtp_midi_backend_symbol,
       ds_media = Midi, ds_direction = Input, ds_clock = co_clock_symbol co MidiTickClock, ds_buffer = b\<rparr>
     else Err (Eval [Lit ''unknown RTP-MIDI device '', Show_sym (cr_device r)]))"
  by (cases "co_bounded co 8")
    (auto simp: rtp_device_for_request_def rtp_enumerate_def rtp_source_spec_def Let_def
      device_spec_new_def with_ports_def with_devices_def inventory_new_def)

lemma rtp_open_Ok:
  "rtp_open co so r = Ok s \<longleftrightarrow> cr_backend r = rtp_midi_backend_symbol \<and>
     (\<exists>b. co_bounded co 8 = Ok b) \<and> cr_device r = symbol_new ''rtp-midi/default'' \<and>
     cr_media r = Midi \<and> cr_direction r = Input \<and>
     (\<exists>d \<in> {MidiTickClock, ControlClock}. co_clock_from co (cr_clock r) = Ok d) \<and>
     co_capacity co (cr_buffer r) \<noteq> 0 \<and>
     s = open_stream_new co so (config_from_request r latency_default
           (clock_info_new (cr_clock r) None True))"
  by (cases "co_bounded co 8")
    (auto simp: rtp_open_def rtp_device_for_request_eq
      open_lan_midi_control_def validate_lan_midi_Ok clock_info_new_def result_simps
      split: if_splits)

interpretation rtp_host: host_backend
    "\<lambda>(co, so). core_laws co \<and> stream_laws so" "\<lambda>(co, so). rtp_midi_info"
    "\<lambda>(co, so). rtp_enumerate co" "\<lambda>(co, so). rtp_open co so"
  by unfold_locales
    (auto simp: rtp_enumerate_Ok rtp_open_Ok rtp_source_spec_Ok open_stream_new_sel)

subsection \<open>Properties\<close>

text \<open>
  A small stream core for the witnesses: capacities are buffer policies, metadata is the medium
  and direction, a stream is its metadata, the packets pushed and whether it was ended.
\<close>

definition demo_core :: "(usize, stream_media \<times> stream_direction) core_ops" where
  "demo_core = \<lparr>
     co_capacity = (\<lambda>n. n),
     co_bounded = (\<lambda>n. if n = 0 then Err (Eval [Lit ''capacity'']) else Ok n),
     co_buffer_expr = (\<lambda>_. ENil),
     co_metadata = (\<lambda>_ m d _ _. (m, d)),
     co_meta_media = fst,
     co_meta_direction = snd,
     co_media_symbol = (\<lambda>_. symbol_new ''media''),
     co_clock_symbol = (\<lambda>k. case k of
         SampleClock \<Rightarrow> symbol_qualified ''clock'' ''sample''
       | MidiTickClock \<Rightarrow> symbol_qualified ''clock'' ''midi''
       | ControlClock \<Rightarrow> symbol_qualified ''clock'' ''control''
       | ServerFrameClock \<Rightarrow> symbol_qualified ''clock'' ''server''
       | OtherClock n \<Rightarrow> symbol_new (replicate n (CHR ''x''))),
     co_clock_from = (\<lambda>s. if sym_namespace s = None then Ok (OtherClock (length (sym_name s)))
       else if sym_name s = ''sample'' then Ok SampleClock
       else if sym_name s = ''midi'' then Ok MidiTickClock
       else if sym_name s = ''control'' then Ok ControlClock else Ok ServerFrameClock)\<rparr>"

type_synonym demo_stream = "(stream_media \<times> stream_direction) \<times> nat stream_packet list \<times> bool"

definition demo_streams ::
  "(stream_media \<times> stream_direction, demo_stream, nat stream_packet, nat) stream_ops" where
  "demo_streams = \<lparr>
     so_push = (\<lambda>m. (m, [], False)),
     so_metadata = fst,
     so_push_packet = (\<lambda>x (m, xs, ended). if ended then (Ok (Closed x), (m, xs, ended))
       else (Ok Accepted, (m, xs @ [x], ended))),
     so_take_packets = (\<lambda>n (m, xs, ended). (Ok (take (unat n) xs), (m, drop (unat n) xs, ended))),
     so_close_push = (\<lambda>(m, xs, _). (Ok (), (m, xs, True))),
     so_cancel = (\<lambda>(m, _, _). (Ok (), (m, [], True))),
     so_stats = (\<lambda>_. Ok stats_default),
     so_item = (\<lambda>p. p),
     so_packet = (\<lambda>p. p)\<rparr>"

lemma demo_core_laws: "core_laws demo_core"
  by (auto simp: core_laws_def demo_core_def split: clock_domain.splits
      dest: arg_cong [where f = length])

lemma demo_stream_laws: "stream_laws demo_streams"
  by (simp add: stream_laws_def demo_streams_def)

text \<open>
  C36. Replaying a cassette into a queue stops at the first item the queue refuses or the stream
  fails on, with exactly the items before it pushed in order; it succeeds only when every item is
  of the queue's medium and the queue is not a sink, then every item was pushed in order and the
  counters of the report add up to the number of recorded items.
\<close>
theorem replay_accounts:
  assumes "cassette_replay so c q = (out, q')" and "length (cc_items c) < 2 ^ 64"
  shows "(\<forall>report. out = Ok report \<longrightarrow> report_total report = length (cc_items c) \<and>
      list_all (admits so q) (cc_items c) \<and> cq_stream q' = push_all so (cc_items c) (cq_stream q)) \<and>
    (\<forall>e. out = Err e \<longrightarrow> (\<exists>done item rest. cc_items c = done @ item # rest \<and>
      list_all (admits so q) done \<and> cq_stream q' = (if admits so q item
        then push_all so (done @ [item]) (cq_stream q) else push_all so done (cq_stream q))))"
proof -
  have "report_total report_default = 0"
    by (simp add: report_total_def report_default_def)
  with replay_items_spec [of so "cc_items c" report_default q out q'] assms show ?thesis
    unfolding cassette_replay_def by simp
qed

theorem replay_accounts_witness:
  "\<exists>report q'. cassette_replay demo_streams \<lparr>cc_items = [MidiPacket 1, MidiPacket 2]\<rparr>
      (queue_new demo_core demo_streams (so_push demo_streams (Midi, Source))) = (Ok report, q') \<and>
    report_total report = 2"
proof -
  let ?q = "queue_new demo_core demo_streams (so_push demo_streams (Midi, Source))"
  have "\<exists>report q'. cassette_replay demo_streams \<lparr>cc_items = [MidiPacket 1, MidiPacket 2]\<rparr> ?q
      = (Ok report, q')"
    by (simp add: cassette_replay_def callback_item_def ensure_callback_input_def ensure_media_def
        queue_new_def on_stream_def demo_streams_def demo_core_def)
  then obtain report q' where "cassette_replay demo_streams \<lparr>cc_items = [MidiPacket 1, MidiPacket 2]\<rparr> ?q
      = (Ok report, q')"
    by blast
  with replay_accounts [OF this] show ?thesis by simp
qed

text \<open>
  C11. Whatever sequence of closes and cancels an opened stream and its clones go through, the
  external driver's shutdown runs at most once: the driver is either as it was opened or as its
  one shutdown left it, and as soon as one of the calls reports success it has been run.
\<close>
theorem driver_shutdown_at_most_once:
  assumes "os_driver s = Some (driver_handle_new d)"
    and "run_steps (end_step so shutdown) ops s = Some (outs, s')"
  shows "\<exists>h. os_driver s' = Some h \<and> dh_driver h = (if dh_closed h then snd (shutdown d) else d) \<and>
    (Ok () \<in> set outs \<longrightarrow> dh_closed h)"
proof -
  have "driver_ended shutdown d s"
    using assms(1) by (simp add: driver_ended_def driver_handle_new_def)
  with end_run_ended [OF assms(2) this] show ?thesis
    by (auto simp: driver_ended_def)
qed

definition demo_config :: "stream_media \<Rightarrow> host_direction \<Rightarrow> usize stream_config" where
  "demo_config media direction = config_from_request
     (request_new demo_core (symbol_new ''b'') (symbol_new ''d'') media direction 4) latency_default
     (clock_info_new (symbol_qualified ''clock'' ''midi'') None True)"

theorem driver_shutdown_at_most_once_witness:
  "\<exists>s'. run_steps (end_step demo_streams (\<lambda>n. (Ok (), Suc n))) [CloseStream, CancelStream, CloseStream]
      (open_stream_with_driver demo_core demo_streams (demo_config Midi Input) 0)
      = Some ([Ok (), Ok (), Ok ()], s') \<and> map_option dh_driver (os_driver s') = Some (1 :: nat)"
proof -
  let ?s = "open_stream_with_driver demo_core demo_streams (demo_config Midi Input) (0 :: nat)"
  have d: "os_driver ?s = Some (driver_handle_new 0)"
    by (simp add: open_stream_with_driver_def)
  have "\<exists>s'. run_steps (end_step demo_streams (\<lambda>n. (Ok (), Suc n)))
      [CloseStream, CancelStream, CloseStream] ?s = Some ([Ok (), Ok (), Ok ()], s')"
    by (simp add: open_stream_close_def open_stream_cancel_def queue_close_def queue_cancel_def
        on_stream_def demo_streams_def shutdown_driver_def shutdown_once_def split_beta
        open_stream_with_driver_def driver_handle_new_def Let_def)
  then obtain s' where run: "run_steps (end_step demo_streams (\<lambda>n. (Ok (), Suc n)))
      [CloseStream, CancelStream, CloseStream] ?s = Some ([Ok (), Ok (), Ok ()], s')"
    by blast
  from driver_shutdown_at_most_once [OF d run] run show ?thesis by auto
qed

text \<open>
  A driver whose shutdown fails is not asked again: the close that hit the failure reports
  it, and the next close reports success with the driver left as the failed shutdown left it.
\<close>
theorem failed_shutdown_not_retried:
  assumes "os_driver s = Some (driver_handle_new d)" and "shutdown d = (Err e, d')"
    and "fst (so_close_push so (cq_stream (os_queue s))) = Ok ()"
    and "open_stream_close so shutdown s = (out1, s1)"
    and "fst (so_close_push so (cq_stream (os_queue s1))) = Ok ()"
    and "open_stream_close so shutdown s1 = (out2, s2)"
  shows "out1 = Err e \<and> out2 = Ok () \<and> map_option dh_driver (os_driver s2) = Some d'"
  using assms
  by (auto simp: open_stream_close_def queue_close_def shutdown_driver_def shutdown_once_def
      driver_handle_new_def split_beta Let_def)

theorem failed_shutdown_not_retried_witness:
  "\<exists>s1 s2. open_stream_close demo_streams (\<lambda>n. (Err (HostError [Lit ''busy'']), Suc n))
       (open_stream_with_driver demo_core demo_streams (demo_config Midi Input) (0 :: nat))
       = (Err (HostError [Lit ''busy'']), s1) \<and>
     open_stream_close demo_streams (\<lambda>n. (Err (HostError [Lit ''busy'']), Suc n)) s1 = (Ok (), s2) \<and>
     map_option dh_driver (os_driver s2) = Some 1"
proof -
  let ?shut = "\<lambda>n :: nat. (Err (HostError [Lit ''busy'']) :: unit result, Suc n)"
  let ?s = "open_stream_with_driver demo_core demo_streams (demo_config Midi Input) (0 :: nat)"
  have close: "fst (so_close_push demo_streams st) = Ok ()" for st
    by (cases st) (simp add: demo_streams_def)
  have d: "os_driver ?s = Some (driver_handle_new 0)"
    by (simp add: open_stream_with_driver_def)
  obtain out1 s1 where c1: "open_stream_close demo_streams ?shut ?s = (out1, s1)"
    by (cases "open_stream_close demo_streams ?shut ?s")
  obtain out2 s2 where c2: "open_stream_close demo_streams ?shut s1 = (out2, s2)"
    by (cases "open_stream_close demo_streams ?shut s1")
  from failed_shutdown_not_retried [OF d refl close c1 close c2] c1 c2 show ?thesis by auto
qed

lemma plan_open_Ok:
  assumes "plan_open reg r = Ok plan"
  obtains backend iv d where "bt_get reg (cr_backend r) = Some backend" "be_enumerate backend = Ok iv"
    "d \<in> set (iv_devices iv)" "ds_id d = cr_device r" "ds_media d = cr_media r" "ds_direction d = cr_direction r"
    "plan = device_open_plan d" "op_requires plan = [stream_host_capability]"
    "op_effect_kinds plan = effect_kinds (cr_direction r)" "registry_open reg r = be_open backend r"
proof -
  obtain backend iv d where plan: "bt_get reg (cr_backend r) = Some backend"
    "be_enumerate backend = Ok iv" "find (\<lambda>d. ds_id d = cr_device r) (iv_devices iv) = Some d"
    "ds_media d = cr_media r" "ds_direction d = cr_direction r" "plan = device_open_plan d"
    using assms by (auto simp: plan_open_def backend_or_error_def result_simps split: if_splits)
  then show thesis
    using find_Some_mem [OF plan(3)] assms
    by (intro that) (auto simp: device_open_plan_def registry_open_def backend_or_error_def result_simps)
qed

text \<open>
  A checked open reaches a backend only with authority: when it answers a stream, the
  context grants \<open>stream.host\<close>, the backend named in the request is registered and enumerates a
  device of that name, medium and direction, the ledger has grown by exactly the effects of that
  direction, and the stream is what the backend answered; without the grant the context is
  untouched and there is no stream.
\<close>
lemma open_checked_gated:
  assumes "ledger_laws ops ledger" and "open_checked ops reg r cx = (out, cx')"
  shows "(\<forall>s. out = Ok s \<longrightarrow> cx_require ops cx stream_host_capability = Ok () \<and>
      (\<exists>backend iv d new. bt_get reg (cr_backend r) = Some backend \<and> be_enumerate backend = Ok iv \<and>
        d \<in> set (iv_devices iv) \<and> ds_id d = cr_device r \<and> ds_media d = cr_media r \<and>
        ds_direction d = cr_direction r \<and> be_open backend r = Ok s \<and>
        ledger cx' = ledger cx @ new \<and> map ef_kind new = effect_kinds (cr_direction r) \<and>
        list_all (planned (device_open_plan d)) new)) \<and>
    (cx_require ops cx stream_host_capability \<noteq> Ok () \<longrightarrow> cx' = cx \<and> (\<exists>e. out = Err e))"
proof (cases "plan_open reg r")
  case (Inl e)
  with assms(2) have "out = Err e" "cx' = cx" by (simp_all add: open_checked_def)
  then show ?thesis by simp
next
  case (Inr plan)
  then obtain backend iv d where plan: "bt_get reg (cr_backend r) = Some backend" "be_enumerate backend = Ok iv"
    "d \<in> set (iv_devices iv)" "ds_id d = cr_device r" "ds_media d = cr_media r" "ds_direction d = cr_direction r"
    "plan = device_open_plan d" "registry_open reg r = be_open backend r"
    and sel: "op_requires plan = [stream_host_capability]" "op_effect_kinds plan = effect_kinds (cr_direction r)"
    by (rule plan_open_Ok)
  obtain enf cx1 where enf: "plan_enforce ops plan cx = (enf, cx1)"
    by (cases "plan_enforce ops plan cx")
  obtain new rest where new: "ledger cx1 = ledger cx @ new"
    "op_effect_kinds plan = map ef_kind new @ rest" "list_all (planned plan) new"
    "enf = Ok () \<longrightarrow> rest = [] \<and> (\<forall>c \<in> set (op_requires plan). cx_require ops cx c = Ok ())"
    using plan_enforce_ledger [OF assms(1) enf] by blast
  show ?thesis
  proof (cases enf)
    case err: (Inl e)
    then have "out = Err e" "cx' = cx1"
      using assms(2) Inr enf by (simp_all add: open_checked_def)
    moreover have "cx1 = cx" if "cx_require ops cx stream_host_capability \<noteq> Ok ()"
      using enf that sel(1)
      by (cases "cx_require ops cx stream_host_capability") (auto simp: plan_enforce_def)
    ultimately show ?thesis by blast
  next
    case ok: (Inr u)
    then have out: "out = registry_open reg r" "cx' = cx1"
      using assms(2) Inr enf by (simp_all add: open_checked_def)
    have granted: "cx_require ops cx stream_host_capability = Ok ()"
      using new(4) ok sel(1) by simp
    with plan new ok out sel(2) show ?thesis
      by auto
  qed
qed

text \<open>The registry holding the two backends of the repository.\<close>

definition both_backends ::
  "('b, 'm) core_ops \<Rightarrow> ('m, 'st, 'it, 'p) stream_ops \<Rightarrow> 'b fake_backend \<Rightarrow>
   unit result \<times> unit result \<times> ('b, 'st, 'd) backend_registry" where
  "both_backends co so fb =
     (let (r1, reg1) = registry_register (fake_as_backend co so fb) backend_registry_new;
          (r2, reg2) = registry_register (rtp_as_backend co so) reg1
      in (r1, r2, reg2))"

lemma both_backends_get:
  assumes "fake_backend_new co = Some fb" "both_backends co so fb = (r1, r2, reg)"
  shows "r1 = Ok () \<and> r2 = Ok () \<and>
    bt_get reg i = (if i = fake_backend_symbol then Some (fake_as_backend co so fb)
      else if i = rtp_midi_backend_symbol then Some (rtp_as_backend co so) else None)"
proof -
  have "fake_backend_symbol \<noteq> rtp_midi_backend_symbol"
    by (simp add: fake_backend_symbol_def rtp_midi_backend_symbol_def)
  then show ?thesis
    using fake_backend_new_sel(1) [OF assms(1)] assms(2)
    by (auto simp: both_backends_def registry_register_def backend_registry_new_def Let_def
        fake_as_backend_def rtp_as_backend_def btree.laws)
qed

text \<open>
  Registered together, the two backends of the repository are dispatched by the id in the
  request, and the registry's checks refuse nothing the named backend accepts; whatever stream
  is opened has a queue of the requested medium, a sink exactly for an output, and the buffer
  that was asked for.
\<close>
theorem registry_dispatches:
  assumes "core_laws co" "stream_laws so" "fake_backend_new co = Some fb"
    and "both_backends co so fb = (r1, r2, reg)"
  shows "r1 = Ok () \<and> r2 = Ok () \<and>
    (registry_open reg r = Ok s \<longleftrightarrow>
       (cr_backend r = fake_backend_symbol \<and> fake_open co so fb r = Ok s) \<or>
       (cr_backend r = rtp_midi_backend_symbol \<and> rtp_open co so r = Ok s)) \<and>
    (registry_open reg r = Ok s \<longrightarrow> cq_media (os_queue s) = cr_media r \<and>
       (cq_direction (os_queue s) = Sink) = (cr_direction r = Output) \<and>
       sc_buffer (os_config s) = cr_buffer r)"
proof -
  have wf: "(\<lambda>(co, so, fb). core_laws co \<and> stream_laws so \<and> fake_backend_new co = Some fb) (co, so, fb)"
    "(\<lambda>(co, so). core_laws co \<and> stream_laws so) (co, so)"
    using assms(1-3) by simp_all
  have r: "r1 = Ok ()" "r2 = Ok ()"
    and get: "bt_get reg i = (if i = fake_backend_symbol then Some (fake_as_backend co so fb)
      else if i = rtp_midi_backend_symbol then Some (rtp_as_backend co so) else None)" for i
    using both_backends_get [OF assms(3,4)] by simp_all
  have ne: "fake_backend_symbol \<noteq> rtp_midi_backend_symbol"
    by (simp add: fake_backend_symbol_def rtp_midi_backend_symbol_def)
  have id: "bi_id (fb_info fb) = fake_backend_symbol"
    by (rule fake_backend_new_sel(1) [OF assms(3)])
  have fake: "registry_open reg r = Ok s \<longleftrightarrow> fake_open co so fb r = Ok s"
    if "cr_backend r = fake_backend_symbol"
    using fake_host.registry_agrees [OF wf(1), of reg r s] that get id
    by (simp add: fake_as_backend_def)
  have rtp: "registry_open reg r = Ok s \<longleftrightarrow> rtp_open co so r = Ok s"
    if "cr_backend r = rtp_midi_backend_symbol"
    using rtp_host.registry_agrees [OF wf(2), of reg r s] that get ne
    by (simp add: rtp_as_backend_def)
  have none: "registry_open reg r \<noteq> Ok s"
    if "cr_backend r \<noteq> fake_backend_symbol" "cr_backend r \<noteq> rtp_midi_backend_symbol"
    using that get by (simp add: registry_open_def plan_open_def backend_or_error_def)
  have sink: "(host_stream_direction d = Sink) = (d = Output)" for d
    by (cases d) simp_all
  have iff: "registry_open reg r = Ok s \<longleftrightarrow>
       (cr_backend r = fake_backend_symbol \<and> fake_open co so fb r = Ok s) \<or>
       (cr_backend r = rtp_midi_backend_symbol \<and> rtp_open co so r = Ok s)"
    using fake rtp none ne by metis
  moreover have "cq_media (os_queue s) = cr_media r \<and>
       (cq_direction (os_queue s) = Sink) = (cr_direction r = Output) \<and>
       sc_buffer (os_config s) = cr_buffer r" if "registry_open reg r = Ok s"
  proof -
    from that iff consider "fake_open co so fb r = Ok s" | "rtp_open co so r = Ok s" by blast
    then show ?thesis
    proof cases
      case 1
      with fake_host.open_queue [OF wf(1), of r s] fake_host.open_config [OF wf(1), of r s] sink
      show ?thesis by simp
    next
      case 2
      with rtp_host.open_queue [OF wf(2), of r s] rtp_host.open_config [OF wf(2), of r s] sink
      show ?thesis by simp
    qed
  qed
  ultimately show ?thesis using r by blast
qed

lemma demo_fake_backend: "\<exists>fb. fake_backend_new demo_core = Some fb"
  by (simp add: fake_backend_new_def fake_device_def demo_core_def)

theorem registry_dispatches_witness:
  "\<exists>reg s. registry_open reg (with_clock (symbol_qualified ''clock'' ''midi'')
       (request_new demo_core rtp_midi_backend_symbol (symbol_new ''rtp-midi/default'') Midi Input 4))
     = Ok (s :: (usize, demo_stream, nat) open_stream) \<and> cq_media (os_queue s) = Midi"
proof -
  let ?r = "with_clock (symbol_qualified ''clock'' ''midi'')
    (request_new demo_core rtp_midi_backend_symbol (symbol_new ''rtp-midi/default'') Midi Input 4)"
  obtain fb where fb: "fake_backend_new demo_core = Some fb"
    using demo_fake_backend by blast
  obtain r1 r2 and reg :: "(usize, demo_stream, nat) backend_registry"
    where both: "both_backends demo_core demo_streams fb = (r1, r2, reg)"
    by (cases "both_backends demo_core demo_streams fb
        :: unit result \<times> unit result \<times> (usize, demo_stream, nat) backend_registry")
  have "\<exists>s :: (usize, demo_stream, nat) open_stream. rtp_open demo_core demo_streams ?r = Ok s"
    unfolding rtp_open_Ok by (simp add: with_clock_def request_new_def demo_core_def)
  then obtain s :: "(usize, demo_stream, nat) open_stream"
    where s: "rtp_open demo_core demo_streams ?r = Ok s" by blast
  have "cr_backend ?r = rtp_midi_backend_symbol" "cr_media ?r = Midi"
    by (simp_all add: with_clock_def request_new_def)
  with registry_dispatches [OF demo_core_laws demo_stream_laws fb both, of ?r s] s show ?thesis
    by auto
qed

end
