(* ===== verification/OpenRuns.thy ===== *)
theory OpenRuns
  imports Streams
begin

section \<open>Sequences of checked opens\<close>

text \<open>
  A caller of \<open>HostBackendRegistry::open_checked\<close> (\<open>src/registry.rs\<close>)
  opens one stream after the other in one kernel context. The ledger of that context is the audit
  trail of the opens: this theory says what it holds after any sequence of them, whatever each
  answered.
\<close>

primrec open_run ::
  "('cx, 'h) context_ops \<Rightarrow> ('b, 'st, 'd) backend_registry \<Rightarrow> 'b config_request list \<Rightarrow> 'cx \<Rightarrow>
   ('b, 'st, 'd) open_stream result list \<times> 'cx" where
  "open_run ops reg [] cx = ([], cx)"
| "open_run ops reg (r # rs) cx =
     (let (out, cx1) = open_checked ops reg r cx; (outs, cx2) = open_run ops reg rs cx1
      in (out # outs, cx2))"

text \<open>
  The entries of one open: none for a backend that is not registered, a prefix of the effects of the
  requested direction otherwise, and all of them, naming the device and the backend, when a stream
  was handed out. That stream is what the backend named in the request answered for it.
\<close>

definition audited ::
  "('b, 'st, 'd) backend_registry \<Rightarrow> 'b config_request \<Rightarrow> ('b, 'st, 'd) open_stream result \<Rightarrow> 'h effect list \<Rightarrow> bool"
  where
  "audited reg r out entries \<longleftrightarrow>
     (bt_get reg (cr_backend r) = None \<longrightarrow> entries = []) \<and>
     (\<exists>rest. effect_kinds (cr_direction r) = map ef_kind entries @ rest) \<and>
     (\<forall>s. out = Ok s \<longrightarrow> map ef_kind entries = effect_kinds (cr_direction r) \<and>
        (\<exists>backend iv d. bt_get reg (cr_backend r) = Some backend \<and> be_enumerate backend = Ok iv \<and>
           d \<in> set (iv_devices iv) \<and> ds_id d = cr_device r \<and> ds_media d = cr_media r \<and>
           ds_direction d = cr_direction r \<and> be_open backend r = Ok s \<and>
           list_all (planned (device_open_plan d)) entries))"

lemma open_checked_entries:
  assumes "ledger_laws ops ledger" and "open_checked ops reg r cx = (out, cx')"
  shows "\<exists>new rest. ledger cx' = ledger cx @ new \<and> effect_kinds (cr_direction r) = map ef_kind new @ rest"
proof (cases "plan_open reg r")
  case (Inl e)
  with assms(2) show ?thesis
    by (simp add: open_checked_def)
next
  case (Inr plan)
  then have kinds: "op_effect_kinds plan = effect_kinds (cr_direction r)"
    by (rule plan_open_Ok)
  obtain enf cx1 where enf: "plan_enforce ops plan cx = (enf, cx1)"
    by (cases "plan_enforce ops plan cx")
  have "cx' = cx1"
    using assms(2) Inr enf by (auto simp: open_checked_def split: sum.splits)
  with plan_enforce_ledger [OF assms(1) enf] kinds show ?thesis
    by auto
qed

lemma open_checked_audited:
  assumes "ledger_laws ops ledger" and "open_checked ops reg r cx = (out, cx')"
  shows "\<exists>entries. ledger cx' = ledger cx @ entries \<and> audited reg r out entries"
proof -
  obtain new rest where new: "ledger cx' = ledger cx @ new" "effect_kinds (cr_direction r) = map ef_kind new @ rest"
    using open_checked_entries [OF assms] by blast
  have "new = []" if "bt_get reg (cr_backend r) = None"
    using assms(2) new(1) that by (auto simp: open_checked_def plan_open_def backend_or_error_def)
  then have "audited reg r out new"
    using open_checked_gated [OF assms] new by (fastforce simp: audited_def)
  with new(1) show ?thesis
    by blast
qed

lemma open_run_audit:
  "ledger_laws ops ledger \<Longrightarrow> open_run ops reg rs cx = (outs, cx') \<Longrightarrow>
   \<exists>trail. ledger cx' = ledger cx @ concat trail \<and> length outs = length rs \<and>
     list_all2 (\<lambda>(r, out). audited reg r out) (zip rs outs) trail"
proof (induction rs arbitrary: cx outs)
  case (Cons r rs)
  obtain out cx1 where first: "open_checked ops reg r cx = (out, cx1)"
    by (cases "open_checked ops reg r cx")
  with Cons.prems(2) obtain outs1 where rest: "open_run ops reg rs cx1 = (outs1, cx')" "outs = out # outs1"
    by (auto split: prod.splits)
  obtain trail where "ledger cx' = ledger cx1 @ concat trail" "length outs1 = length rs"
      "list_all2 (\<lambda>(r, out). audited reg r out) (zip rs outs1) trail"
    using Cons.IH [OF Cons.prems(1) rest(1)] by blast
  moreover obtain entries where "ledger cx1 = ledger cx @ entries" "audited reg r out entries"
    using open_checked_audited [OF Cons.prems(1) first] by blast
  ultimately show ?case
    using rest(2) by (intro exI [of _ "entries # trail"]) simp
qed simp

lemma open_run_denied:
  "ledger_laws ops ledger \<Longrightarrow> open_run ops reg rs cx = (outs, cx') \<Longrightarrow>
   cx_require ops cx stream_host_capability \<noteq> Ok () \<Longrightarrow> cx' = cx \<and> (\<forall>out \<in> set outs. \<exists>e. out = Err e)"
proof (induction rs arbitrary: outs)
  case (Cons r rs)
  obtain out cx1 where first: "open_checked ops reg r cx = (out, cx1)"
    by (cases "open_checked ops reg r cx")
  have "cx1 = cx" "\<exists>e. out = Err e"
    using open_checked_gated [OF Cons.prems(1) first] Cons.prems(3) by blast+
  with Cons first show ?case
    by (auto split: prod.splits)
qed simp

text \<open>
  C6. The ledger is a complete audit trail of the checked opens. After any sequence of requests,
  whatever each was answered, the ledger has grown by one block per request, in their order: nothing
  for a backend that is not registered, otherwise a prefix of the effects of the requested
  direction, and all of them exactly as planned when a stream was handed out, which is then what the
  registered backend answered for a device it enumerates. Without the host capability no stream is
  handed out and the context is as before.
\<close>
theorem open_run_audited:
  assumes "ledger_laws ops ledger" and "open_run ops reg rs cx = (outs, cx')"
  shows "(\<exists>trail. ledger cx' = ledger cx @ concat trail \<and> length outs = length rs \<and>
      list_all2 (\<lambda>(r, out) entries.
        (bt_get reg (cr_backend r) = None \<longrightarrow> entries = []) \<and>
        (\<exists>rest. effect_kinds (cr_direction r) = map ef_kind entries @ rest) \<and>
        (\<forall>s. out = Ok s \<longrightarrow> map ef_kind entries = effect_kinds (cr_direction r) \<and>
          (\<exists>backend iv d. bt_get reg (cr_backend r) = Some backend \<and> be_enumerate backend = Ok iv \<and>
             d \<in> set (iv_devices iv) \<and> ds_id d = cr_device r \<and> ds_media d = cr_media r \<and>
             ds_direction d = cr_direction r \<and> be_open backend r = Ok s \<and>
             list_all (planned (device_open_plan d)) entries))) (zip rs outs) trail) \<and>
    (cx_require ops cx stream_host_capability \<noteq> Ok () \<longrightarrow> cx' = cx \<and> (\<forall>out \<in> set outs. \<exists>e. out = Err e))"
  using open_run_audit [OF assms] open_run_denied [OF assms] unfolding audited_def by blast

text \<open>A registry of the fake backend; one request it serves and one for a backend that is not there.\<close>

definition fake_registry :: "usize fake_backend \<Rightarrow> (usize, demo_stream, nat) backend_registry" where
  "fake_registry fb = [(fake_backend_symbol, fake_as_backend demo_core demo_streams fb)]"

definition demo_requests :: "usize config_request list" where
  "demo_requests =
     [request_new demo_core rtp_midi_backend_symbol (symbol_new ''rtp-midi/default'') Midi Input 4,
      request_new demo_core fake_backend_symbol (symbol_new ''fake/pcm'') Pcm Output 4]"

lemma fake_pcm_opens:
  assumes "fake_backend_new demo_core = Some fb"
  shows "\<exists>s. fst (open_checked demo_ops (fake_registry fb) (demo_requests ! 1)
    \<lparr>dc_grants = [''stream.host''], dc_next = 0, dc_ledger = []\<rparr>) = Ok s"
  using assms
  by (auto simp: open_checked_def fake_registry_def demo_requests_def plan_open_def backend_or_error_def bt_get_def
      fake_as_backend_def fake_enumerate_def fake_backend_new_def fake_device_def demo_core_def
      request_new_def device_spec_new_def Let_def with_ports_def with_devices_def inventory_new_def
      device_open_plan_def plan_enforce_def demo_ops_def stream_host_capability_def
      registry_open_def fake_open_def with_capabilities_def backend_info_new_def)

lemma missing_backend_refused:
  "open_checked ops (fake_registry fb) (demo_requests ! 0) cx =
     (Err (Eval [Lit ''stream host backend '', Show_sym rtp_midi_backend_symbol, Lit '' is not registered'']), cx)"
proof -
  have "bt_get (fake_registry fb) rtp_midi_backend_symbol = None"
    by (simp add: fake_registry_def bt_get_def fake_backend_symbol_def rtp_midi_backend_symbol_def)
  then show ?thesis
    by (simp add: open_checked_def plan_open_def backend_or_error_def demo_requests_def request_new_def)
qed

theorem open_run_audited_witness:
  "\<exists>fb e s cx'. open_run demo_ops (fake_registry fb) demo_requests
       \<lparr>dc_grants = [''stream.host''], dc_next = 0, dc_ledger = []\<rparr> = ([Err e, Ok s], cx') \<and>
     map ef_kind (dc_ledger cx') = [device_write_kind]"
proof -
  let ?cx = "\<lparr>dc_grants = [''stream.host''], dc_next = 0, dc_ledger = []\<rparr> :: demo_cx"
  obtain fb where fb: "fake_backend_new demo_core = Some fb"
    using demo_fake_backend by blast
  obtain outs cx' where run: "open_run demo_ops (fake_registry fb) demo_requests ?cx = (outs, cx')"
    by (cases "open_run demo_ops (fake_registry fb) demo_requests ?cx")
  obtain s where s: "fst (open_checked demo_ops (fake_registry fb) (demo_requests ! 1) ?cx) = Ok s"
    using fake_pcm_opens [OF fb] by blast
  have demo: "demo_requests = [demo_requests ! 0, demo_requests ! 1]"
    by (simp add: demo_requests_def)
  have outs: "outs = [Err (Eval [Lit ''stream host backend '', Show_sym rtp_midi_backend_symbol, Lit '' is not registered'']), Ok s]"
    using run s by (subst (asm) demo) (auto simp: missing_backend_refused split: prod.splits)
  have pairs: "zip demo_requests outs = [(demo_requests ! 0, outs ! 0), (demo_requests ! 1, outs ! 1)]"
    unfolding outs by (subst demo) simp
  obtain trail where ledger: "dc_ledger cx' = dc_ledger ?cx @ concat trail"
    and trail: "list_all2 (\<lambda>(r, out). audited (fake_registry fb) r out) (zip demo_requests outs) trail"
    using open_run_audited [OF demo_ledger run] unfolding audited_def by blast
  obtain first second where entries: "trail = [first, second]"
    "audited (fake_registry fb) (demo_requests ! 0) (outs ! 0) first"
    "audited (fake_registry fb) (demo_requests ! 1) (outs ! 1) second"
    using trail unfolding pairs by (auto simp: list_all2_Cons1)
  have "first = []"
    using entries(2) by (simp add: audited_def demo_requests_def request_new_def fake_registry_def bt_get_def
        fake_backend_symbol_def rtp_midi_backend_symbol_def)
  moreover have "map ef_kind second = [device_write_kind]"
    using entries(3) outs by (simp add: audited_def demo_requests_def request_new_def)
  ultimately show ?thesis
    using run outs ledger entries(1) by (intro exI [of _ fb] exI [of _ s] exI [of _ cx'] exI) simp
qed

end
