(* ===== verification/Placement.thy ===== *)
theory Placement
  imports Streams Effects
begin

section \<open>Placement records\<close>

text \<open>
  \<open>src/placement.rs\<close>, \<open>src/placement/audio.rs\<close>, \<open>src/placement/device.rs\<close>, \<open>src/site.rs\<close>
  and \<open>src/glasses_placement.rs\<close>: where a device's encoder and its latency-critical adapter
  run, the cards and catalog records of audio and MIDI devices, and the resolution of the
  glasses routes. The main result is that a resolved glasses placement always keeps the adapter
  at the device edge.
\<close>

subsection \<open>Sites (\<open>src/site.rs\<close>)\<close>

datatype site_locality = EdgeLocal | HostLocal | Remote

record device_site =
  dv_symbol :: symbol
  dv_profile :: device_profile
  dv_codec :: symbol
  dv_locality :: site_locality

definition device_site_new :: "symbol \<Rightarrow> device_profile \<Rightarrow> symbol \<Rightarrow> site_locality \<Rightarrow> device_site" where
  "device_site_new s profile codec locality =
     \<lparr>dv_symbol = s, dv_profile = profile, dv_codec = codec, dv_locality = locality\<rparr>"

definition edge_local :: "symbol \<Rightarrow> device_profile \<Rightarrow> symbol \<Rightarrow> device_site" where
  "edge_local s profile codec = device_site_new s profile codec EdgeLocal"

definition host_local :: "symbol \<Rightarrow> device_profile \<Rightarrow> symbol \<Rightarrow> device_site" where
  "host_local s profile codec = device_site_new s profile codec HostLocal"

definition remote_site :: "symbol \<Rightarrow> device_profile \<Rightarrow> symbol \<Rightarrow> device_site" where
  "remote_site s profile codec = device_site_new s profile codec Remote"

definition is_edge_local :: "device_site \<Rightarrow> bool" where
  "is_edge_local s \<longleftrightarrow> dv_locality s = EdgeLocal"

definition require_edge_local :: "device_site \<Rightarrow> unit device_result" where
  "require_edge_local s =
     (if is_edge_local s then Ok ()
      else Err (Host [Lit ''device adapter site '', Show_sym (dv_symbol s), Lit '' must be edge-local'']))"

subsection \<open>Device placements (\<open>src/placement.rs\<close>)\<close>

datatype placement_error = AdapterMustBeEdgeLocal

primrec placement_error_display :: "placement_error \<Rightarrow> message" where
  "placement_error_display AdapterMustBeEdgeLocal = [Lit ''device adapter must be edge-local'']"

record device_placement =
  pl_encoder :: device_site
  pl_adapter :: device_site

definition device_placement_new :: "device_site \<Rightarrow> device_site \<Rightarrow> device_placement" where
  "device_placement_new encoder adapter = \<lparr>pl_encoder = encoder, pl_adapter = adapter\<rparr>"

definition placement_validate :: "device_placement \<Rightarrow> placement_error + unit" where
  "placement_validate p = (if is_edge_local (pl_adapter p) then Ok () else Err AdapterMustBeEdgeLocal)"

subsection \<open>Audio cards and catalog records (\<open>src/placement/audio.rs\<close>, \<open>src/placement/device.rs\<close>)\<close>

datatype audio_site_key = AudioSiteKey (key_symbol: symbol)

instantiation audio_site_key :: linorder
begin

definition less_eq_audio_site_key :: "audio_site_key \<Rightarrow> audio_site_key \<Rightarrow> bool" where
  "less_eq_audio_site_key a b \<longleftrightarrow> key_symbol a \<le> key_symbol b"

definition less_audio_site_key :: "audio_site_key \<Rightarrow> audio_site_key \<Rightarrow> bool" where
  "less_audio_site_key a b \<longleftrightarrow> key_symbol a < key_symbol b"

instance
  by standard
    (auto simp: less_eq_audio_site_key_def less_audio_site_key_def less_le_not_le
      intro: audio_site_key.expand)

end

definition audio_site_key_new :: "string \<Rightarrow> audio_site_key" where
  "audio_site_key_new name = AudioSiteKey (symbol_new name)"

record audio_card =
  ac_key :: audio_site_key
  ac_display_name :: string
  ac_channels_out :: u16
  ac_channels_in :: u16
  ac_sample_rates :: "u32 list"
  ac_hardware_required :: bool

definition audio_card_modeled :: "audio_site_key \<Rightarrow> string \<Rightarrow> audio_card" where
  "audio_card_modeled key name = \<lparr>ac_key = key, ac_display_name = name, ac_channels_out = 2,
     ac_channels_in = 2, ac_sample_rates = [44100, 48000], ac_hardware_required = False\<rparr>"

record 'b placement_request =
  pr_site_key :: audio_site_key
  pr_stream_request :: "'b config_request"

datatype placement = Modeled | Hardware symbol

datatype device_kind = AudioKind | MidiKind

datatype device_direction = CatalogInput | CatalogOutput | CatalogDuplex

primrec device_effect_kinds :: "device_direction \<Rightarrow> symbol list" where
  "device_effect_kinds CatalogInput = [device_read_kind]"
| "device_effect_kinds CatalogOutput = [device_write_kind]"
| "device_effect_kinds CatalogDuplex = [device_read_kind, device_write_kind]"

record device_record =
  dr_id :: symbol
  dr_display_name :: string
  dr_kind :: device_kind
  dr_direction :: device_direction
  dr_placement :: placement

definition record_modeled ::
  "string \<Rightarrow> string \<Rightarrow> device_kind \<Rightarrow> device_direction \<Rightarrow> device_record" where
  "record_modeled i name kind direction = \<lparr>dr_id = symbol_new i, dr_display_name = name,
     dr_kind = kind, dr_direction = direction, dr_placement = Modeled\<rparr>"

definition modeled_midi_input :: "string \<Rightarrow> string \<Rightarrow> device_record" where
  "modeled_midi_input i name = record_modeled i name MidiKind CatalogInput"

definition modeled_midi_output :: "string \<Rightarrow> string \<Rightarrow> device_record" where
  "modeled_midi_output i name = record_modeled i name MidiKind CatalogOutput"

definition modeled_audio_output :: "string \<Rightarrow> string \<Rightarrow> device_record" where
  "modeled_audio_output i name = record_modeled i name AudioKind CatalogOutput"

definition audio_from_card :: "audio_card \<Rightarrow> placement \<Rightarrow> device_record" where
  "audio_from_card c where_placed = \<lparr>dr_id = key_symbol (ac_key c),
     dr_display_name = ac_display_name c, dr_kind = AudioKind,
     dr_direction = (case (0 < ac_channels_in c, 0 < ac_channels_out c) of
         (True, True) \<Rightarrow> CatalogDuplex
       | (True, False) \<Rightarrow> CatalogInput
       | (False, _) \<Rightarrow> CatalogOutput),
     dr_placement = where_placed\<rparr>"

definition modeled_audio_from_card :: "audio_card \<Rightarrow> device_record" where
  "modeled_audio_from_card c = audio_from_card c Modeled"

definition plan_backend_symbol :: "device_record \<Rightarrow> symbol" where
  "plan_backend_symbol r = (case dr_placement r of
       Modeled \<Rightarrow> symbol_qualified ''stream/host'' ''modeled-catalog''
     | Hardware transport \<Rightarrow> transport)"

definition record_open_plan :: "device_record \<Rightarrow> open_plan" where
  "record_open_plan r = open_plan_new (plan_backend_symbol r) (dr_id r)
     (device_effect_kinds (dr_direction r)) [stream_host_capability]"

text \<open>The trait of audio sites, and the modeled site over a host backend.\<close>

record ('b, 'st, 'd) audio_site =
  as_key :: audio_site_key
  as_card :: audio_card
  as_open :: "'b config_request \<Rightarrow> ('b, 'st, 'd) open_stream result"

definition modeled_audio_site ::
  "audio_card \<Rightarrow> ('b, 'st, 'd) backend \<Rightarrow> ('b, 'st, 'd) audio_site" where
  "modeled_audio_site c backend =
     \<lparr>as_key = ac_key c, as_card = c, as_open = be_open backend\<rparr>"

subsection \<open>Glasses routes (\<open>src/glasses_placement.rs\<close>)\<close>

datatype glasses_adapter = Reprojector | Glance | Mirror | ControllerIntent

primrec adapter_token :: "glasses_adapter \<Rightarrow> string" where
  "adapter_token Reprojector = ''glasses-reprojector''"
| "adapter_token Glance = ''glasses-glance-adapter''"
| "adapter_token Mirror = ''glasses-mirror-adapter''"
| "adapter_token ControllerIntent = ''glasses-controller-intent''"

definition adapter_codec :: "glasses_adapter \<Rightarrow> symbol" where
  "adapter_codec a = symbol_qualified ''codec'' (case a of
       Reprojector \<Rightarrow> ''scene-spatial''
     | Glance \<Rightarrow> ''scene-glance''
     | Mirror \<Rightarrow> ''scene-mirror''
     | ControllerIntent \<Rightarrow> ''intent'')"

record glasses_request =
  gr_route :: symbol
  gr_profile :: device_profile
  gr_encoder_locality :: site_locality
  gr_adapter :: glasses_adapter

definition glasses_request_new ::
  "symbol \<Rightarrow> device_profile \<Rightarrow> site_locality \<Rightarrow> glasses_adapter \<Rightarrow> glasses_request" where
  "glasses_request_new route profile locality adapter = \<lparr>gr_route = route, gr_profile = profile,
     gr_encoder_locality = locality, gr_adapter = adapter\<rparr>"

record resolved_glasses =
  rg_route :: symbol
  rg_adapter :: glasses_adapter
  rg_placement :: device_placement

definition route_site_symbol :: "symbol \<Rightarrow> string \<Rightarrow> symbol" where
  "route_site_symbol route role = symbol_qualified ''device/site'' (sym_name route @ ''-'' @ role)"

definition glasses_resolve :: "glasses_request \<Rightarrow> placement_error + resolved_glasses" where
  "glasses_resolve r =
     (let codec = adapter_codec (gr_adapter r);
          encoder = device_site_new (route_site_symbol (gr_route r) ''encoder'') (gr_profile r) codec
                      (gr_encoder_locality r);
          adapter = edge_local (symbol_qualified ''device/site'' (adapter_token (gr_adapter r)))
                      (gr_profile r) codec;
          placed = device_placement_new encoder adapter
      in and_then (placement_validate placed)
           (\<lambda>_. Ok \<lparr>rg_route = gr_route r, rg_adapter = gr_adapter r, rg_placement = placed\<rparr>))"

datatype glasses_error = UnknownRoute symbol | InvalidPlacement placement_error

definition glasses_error_from_placement :: "placement_error \<Rightarrow> glasses_error" where
  "glasses_error_from_placement e = InvalidPlacement e"

primrec glasses_error_display :: "glasses_error \<Rightarrow> message" where
  "glasses_error_display (UnknownRoute route) = [Lit ''unknown glasses route: '', Show_sym route]"
| "glasses_error_display (InvalidPlacement e) = placement_error_display e"

definition glasses_route_choice :: "string \<Rightarrow> (site_locality \<times> glasses_adapter) option" where
  "glasses_route_choice name =
     (if name = ''direct-linux'' \<or> name = ''android-usb'' then Some (HostLocal, Reprojector)
      else if name = ''neckband-local'' then Some (EdgeLocal, Reprojector)
      else if name = ''neckband-relay'' then Some (Remote, Reprojector)
      else if name = ''mobile-dock-display'' then Some (HostLocal, Mirror)
      else if name = ''ble-direct'' \<or> name = ''web-bluetooth'' then Some (HostLocal, Glance)
      else if name = ''phone-relay'' then Some (Remote, Glance)
      else if name = ''controller-hid'' then Some (HostLocal, ControllerIntent)
      else None)"

definition resolve_glasses_placement ::
  "symbol \<Rightarrow> device_profile \<Rightarrow> glasses_error + resolved_glasses" where
  "resolve_glasses_placement route profile =
     (if sym_namespace route \<noteq> Some ''device/route'' then Err (UnknownRoute route)
      else case glasses_route_choice (sym_name route) of
        None \<Rightarrow> Err (UnknownRoute route)
      | Some (locality, adapter) \<Rightarrow>
          map_err InvalidPlacement
            (glasses_resolve (glasses_request_new route profile locality adapter)))"

subsection \<open>Lemmas and properties\<close>

lemma device_site_new_sel [simp]:
  "dv_symbol (device_site_new s p c l) = s" "dv_profile (device_site_new s p c l) = p"
  "dv_codec (device_site_new s p c l) = c" "dv_locality (device_site_new s p c l) = l"
  by (simp_all add: device_site_new_def)

text \<open>The adapter of a glasses request is built edge-local, so validation cannot refuse it.\<close>

lemma glasses_resolve_Ok:
  "glasses_resolve r = Ok \<lparr>rg_route = gr_route r, rg_adapter = gr_adapter r,
     rg_placement = \<lparr>
       pl_encoder = device_site_new (route_site_symbol (gr_route r) ''encoder'') (gr_profile r)
         (adapter_codec (gr_adapter r)) (gr_encoder_locality r),
       pl_adapter = device_site_new (symbol_qualified ''device/site'' (adapter_token (gr_adapter r)))
         (gr_profile r) (adapter_codec (gr_adapter r)) EdgeLocal\<rparr>\<rparr>"
  by (simp add: glasses_resolve_def device_placement_new_def edge_local_def placement_validate_def
      is_edge_local_def Let_def)

text \<open>
  Glasses routes are resolved exactly when the route symbol is in \<open>device/route\<close> and names
  one of the known routes; a resolved placement always validates: its adapter is at the device
  edge whatever the encoder's locality, both sites carry the profile and share the codec of the
  chosen adapter, and they have different site symbols. The error for an invalid placement is
  never returned.
\<close>
theorem glasses_placement_sound:
  "(case resolve_glasses_placement route profile of
      Inl e \<Rightarrow> e = UnknownRoute route \<and>
        \<not> (sym_namespace route = Some ''device/route'' \<and> glasses_route_choice (sym_name route) \<noteq> None)
    | Inr r \<Rightarrow> sym_namespace route = Some ''device/route'' \<and>
        glasses_route_choice (sym_name route)
          = Some (dv_locality (pl_encoder (rg_placement r)), rg_adapter r) \<and>
        placement_validate (rg_placement r) = Ok () \<and>
        require_edge_local (pl_adapter (rg_placement r)) = Ok () \<and>
        dv_profile (pl_encoder (rg_placement r)) = profile \<and>
        dv_profile (pl_adapter (rg_placement r)) = profile \<and>
        dv_codec (pl_encoder (rg_placement r)) = adapter_codec (rg_adapter r) \<and>
        dv_codec (pl_adapter (rg_placement r)) = adapter_codec (rg_adapter r) \<and>
        dv_symbol (pl_encoder (rg_placement r)) \<noteq> dv_symbol (pl_adapter (rg_placement r)))"
proof (cases "sym_namespace route = Some ''device/route'' \<and> glasses_route_choice (sym_name route) \<noteq> None")
  case False
  then have "resolve_glasses_placement route profile = Err (UnknownRoute route)"
    by (auto simp: resolve_glasses_placement_def split: option.splits)
  with False show ?thesis by simp
next
  case True
  then obtain locality adapter where choice:
    "glasses_route_choice (sym_name route) = Some (locality, adapter)"
    by auto
  have known: "sym_name route \<in> {''direct-linux'', ''android-usb'', ''neckband-local'',
      ''neckband-relay'', ''mobile-dock-display'', ''ble-direct'', ''web-bluetooth'',
      ''phone-relay'', ''controller-hid''}"
    using choice by (auto simp: glasses_route_choice_def split: if_splits)
  have "sym_name route @ ''-encoder'' \<noteq> adapter_token adapter"
    using known by (cases adapter) auto
  then have "route_site_symbol route ''encoder''
      \<noteq> symbol_qualified ''device/site'' (adapter_token adapter)"
    by (simp add: route_site_symbol_def)
  with True choice show ?thesis
    by (simp add: resolve_glasses_placement_def glasses_resolve_Ok glasses_request_new_def map_err_def
        placement_validate_def require_edge_local_def is_edge_local_def)
qed

end
