(* ===== verification/Router.thy ===== *)
theory Router
  imports Placement "HOL-Library.Multiset"
begin

section \<open>The audio router and provider registration\<close>

text \<open>
  \<open>src/router.rs\<close> and \<open>src/provider.rs\<close>. The router is a \<open>HashMap\<close> from site keys to a site and
  its owner; the model keeps the rows in key order and takes the order in which the hash map
  iterates as the argument \<open>shuffle\<close>, of which only that it permutes is assumed. The registrar a
  provider is handed keeps the first error and ignores everything after it.
\<close>

subsection \<open>The router (\<open>src/router.rs\<close>)\<close>

record ('b, 'st, 'd) registered_site =
  rs_owner :: symbol
  rs_site :: "('b, 'st, 'd) audio_site"

type_synonym ('b, 'st, 'd) router = "(audio_site_key, ('b, 'st, 'd) registered_site) btree"

definition router_new :: "('b, 'st, 'd) router" where
  "router_new = bt_empty"

definition local_audio_site_owner :: symbol where
  "local_audio_site_owner = symbol_qualified ''audio/provider'' ''local-modeled''"

definition register_owned ::
  "symbol \<Rightarrow> ('b, 'st, 'd) audio_site \<Rightarrow> ('b, 'st, 'd) router \<Rightarrow> unit result \<times> ('b, 'st, 'd) router" where
  "register_owned owner site r =
     (let key = as_key site
      in if bt_get r key \<noteq> None
         then (Err (Eval [Lit ''audio site '', Show_sym (key_symbol key), Lit '' is already registered'']), r)
         else (Ok (), bt_insert key \<lparr>rs_owner = owner, rs_site = site\<rparr> r))"

text \<open>\<open>register\<close>; \<open>None\<close> is the panic of its \<open>expect\<close>.\<close>

definition router_register ::
  "('b, 'st, 'd) audio_site \<Rightarrow> ('b, 'st, 'd) router \<Rightarrow> ('b, 'st, 'd) router option" where
  "router_register site r =
     (case register_owned local_audio_site_owner site r of (Inl _, _) \<Rightarrow> None | (Inr _, r') \<Rightarrow> Some r')"

definition reload_owned ::
  "symbol \<Rightarrow> ('b, 'st, 'd) audio_site \<Rightarrow> ('b, 'st, 'd) router \<Rightarrow> unit result \<times> ('b, 'st, 'd) router" where
  "reload_owned owner site r =
     (let key = as_key site; row = \<lparr>rs_owner = owner, rs_site = site\<rparr>
      in case bt_get r key of
        Some existing \<Rightarrow>
          if rs_owner existing \<noteq> owner
          then (Err (Eval [Lit ''audio site '', Show_sym (key_symbol key), Lit '' is already owned by '',
                           Show_sym (rs_owner existing)]), r)
          else (Ok (), bt_insert key row r)
      | None \<Rightarrow> (Ok (), bt_insert key row r))"

definition unregister_owner :: "symbol \<Rightarrow> ('b, 'st, 'd) router \<Rightarrow> nat \<times> ('b, 'st, 'd) router" where
  "unregister_owner owner r =
     (let r' = filter (\<lambda>(_, row). rs_owner row \<noteq> owner) r in (length r - length r', r'))"

definition router_site :: "('b, 'st, 'd) router \<Rightarrow> audio_site_key \<Rightarrow> ('b, 'st, 'd) audio_site option" where
  "router_site r key = map_option rs_site (bt_get r key)"

definition site_owner :: "('b, 'st, 'd) router \<Rightarrow> audio_site_key \<Rightarrow> symbol option" where
  "site_owner r key = map_option rs_owner (bt_get r key)"

definition registered_sites ::
  "(('b, 'st, 'd) registered_site list \<Rightarrow> ('b, 'st, 'd) registered_site list) \<Rightarrow>
   ('b, 'st, 'd) router \<Rightarrow> ('b, 'st, 'd) registered_site list" where
  "registered_sites shuffle r = shuffle (bt_values r)"

definition site_keys :: "(audio_site_key list \<Rightarrow> audio_site_key list) \<Rightarrow> ('b, 'st, 'd) router \<Rightarrow>
   audio_site_key list" where
  "site_keys shuffle r = shuffle (bt_keys r)"

definition card_fits :: "u16 \<Rightarrow> u32 list \<Rightarrow> audio_card \<Rightarrow> bool" where
  "card_fits min_channels_out preferred_rates c \<longleftrightarrow> min_channels_out \<le> ac_channels_out c \<and>
     list_ex (\<lambda>rate. rate \<in> set (ac_sample_rates c)) preferred_rates"

definition sites_by_capability ::
  "(('b, 'st, 'd) registered_site list \<Rightarrow> ('b, 'st, 'd) registered_site list) \<Rightarrow>
   u16 \<Rightarrow> u32 list \<Rightarrow> ('b, 'st, 'd) router \<Rightarrow> audio_site_key list" where
  "sites_by_capability shuffle min_channels_out preferred_rates r =
     sort_key (\<lambda>key. as_qualified_str (key_symbol key))
       (map (\<lambda>row. as_key (rs_site row))
         (filter (\<lambda>row. card_fits min_channels_out preferred_rates (as_card (rs_site row)))
           (registered_sites shuffle r)))"

definition resolve_or_modeled ::
  "audio_site_key \<Rightarrow> audio_site_key \<Rightarrow> ('b, 'st, 'd) router \<Rightarrow> audio_site_key result" where
  "resolve_or_modeled key modeled r =
     (if bt_get r key \<noteq> None then Ok key
      else if bt_get r modeled \<noteq> None then Ok modeled
      else Err (Eval [Lit ''no audio site registered for '', Debug_sym (key_symbol key),
                      Lit '' and no modeled fallback '', Debug_sym (key_symbol modeled)]))"

definition no_site_error :: "audio_site_key \<Rightarrow> error" where
  "no_site_error key = Eval [Lit ''no audio site registered for '', Debug_sym (key_symbol key)]"

definition open_placement ::
  "('b, 'st, 'd) router \<Rightarrow> 'b placement_request \<Rightarrow> ('b, 'st, 'd) open_stream result" where
  "open_placement r request =
     and_then (ok_or (bt_get r (pr_site_key request)) (no_site_error (pr_site_key request)))
       (\<lambda>row. as_open (rs_site row) (pr_stream_request request))"

definition placement_plan :: "'b placement_request \<Rightarrow> open_plan" where
  "placement_plan request =
     (let stream = pr_stream_request request
      in open_plan_new (cr_backend stream) (cr_device stream) (effect_kinds (cr_direction stream))
           [stream_host_capability])"

definition open_placement_checked ::
  "('cx, 'h) context_ops \<Rightarrow> ('b, 'st, 'd) router \<Rightarrow> 'b placement_request \<Rightarrow> 'cx \<Rightarrow>
   ('b, 'st, 'd) open_stream result \<times> 'cx" where
  "open_placement_checked ops r request cx =
     (if bt_get r (pr_site_key request) = None then (Err (no_site_error (pr_site_key request)), cx)
      else case plan_enforce ops (placement_plan request) cx of
        (Inl e, cx') \<Rightarrow> (Err e, cx')
      | (Inr _, cx') \<Rightarrow> (open_placement r request, cx'))"

subsection \<open>Provider registration (\<open>src/provider.rs\<close>)\<close>

definition native_audio_provider_capability :: capability where
  "native_audio_provider_capability = ''audio.provider.native''"

definition audio_provider_abi_version :: u32 where
  "audio_provider_abi_version = 1"

text \<open>The registrar, with the router it borrows.\<close>

record ('b, 'st, 'd) registrar =
  rg_router :: "('b, 'st, 'd) router"
  rg_owner :: symbol
  rg_allowed :: "symbol list option"
  rg_error :: "error option"

definition registrar_new :: "('b, 'st, 'd) router \<Rightarrow> ('b, 'st, 'd) registrar" where
  "registrar_new r = \<lparr>rg_router = r, rg_owner = symbol_qualified ''audio/provider'' ''proof'',
     rg_allowed = None, rg_error = None\<rparr>"

definition registrar_for_provider ::
  "('b, 'st, 'd) router \<Rightarrow> symbol \<Rightarrow> symbol list \<Rightarrow> ('b, 'st, 'd) registrar" where
  "registrar_for_provider r owner allowed = \<lparr>rg_router = r, rg_owner = owner,
     rg_allowed = Some allowed, rg_error = None\<rparr>"

definition registrar_finish :: "('b, 'st, 'd) registrar \<Rightarrow> unit result" where
  "registrar_finish g = (case rg_error g of Some e \<Rightarrow> Err e | None \<Rightarrow> Ok ())"

definition record_error :: "error \<Rightarrow> ('b, 'st, 'd) registrar \<Rightarrow> ('b, 'st, 'd) registrar" where
  "record_error e g = (if rg_error g = None then g\<lparr>rg_error := Some e\<rparr> else g)"

definition host_abi_version :: "('b, 'st, 'd) registrar \<Rightarrow> u32" where
  "host_abi_version g = audio_provider_abi_version"

definition register_site ::
  "('b, 'st, 'd) audio_site \<Rightarrow> ('b, 'st, 'd) registrar \<Rightarrow> ('b, 'st, 'd) registrar" where
  "register_site site g =
     (if rg_error g \<noteq> None then g
      else let s = key_symbol (as_key site)
        in if \<exists>allowed. rg_allowed g = Some allowed \<and> s \<notin> set allowed
           then record_error (HostError [Lit ''audio provider '', Show_sym (rg_owner g),
                  Lit '' registered undeclared site '', Show_sym s]) g
           else case register_owned (rg_owner g) site (rg_router g) of
             (Inl e, r) \<Rightarrow> record_error e (g\<lparr>rg_router := r\<rparr>)
           | (Inr _, r) \<Rightarrow> g\<lparr>rg_router := r\<rparr>)"

text \<open>
  The exports of a library manifest: the symbols of its sites and one constructor for the other
  kinds. The declared sites are a \<open>BTreeSet\<close>; only membership and emptiness are asked of it.
\<close>

datatype export = SiteExport symbol | OtherExport

record lib_manifest =
  lm_id :: symbol
  lm_exports :: "export list"

primrec site_exports :: "symbol \<Rightarrow> export list \<Rightarrow> symbol list result" where
  "site_exports provider [] = Ok []"
| "site_exports provider (x # xs) =
     (case x of
        OtherExport \<Rightarrow> site_exports provider xs
      | SiteExport s \<Rightarrow>
          if sym_namespace s \<noteq> Some ''audio/site''
          then Err (HostError [Lit ''audio provider '', Show_sym provider,
                 Lit '' declared invalid site export '', Show_sym s, Lit ''; expected audio/site''])
          else and_then (site_exports provider xs) (\<lambda>ss. Ok (s # ss)))"

definition exports_from_manifest :: "lib_manifest \<Rightarrow> symbol list result" where
  "exports_from_manifest m =
     and_then (site_exports (lm_id m) (lm_exports m)) (\<lambda>symbols.
     and_then (ensure (symbols \<noteq> []) (HostError [Lit ''audio provider '', Show_sym (lm_id m),
                 Lit '' declared no audio/site exports''])) (\<lambda>_. Ok symbols))"

text \<open>
  An entry point, supplied by the provider: what it registers, in order, and what it answers.
  It sees the registrar only through \<open>register_site\<close> and the constant ABI version.
\<close>

type_synonym ('b, 'st, 'd) provider_entry = "('b, 'st, 'd) audio_site list \<times> unit result"

type_synonym ('b, 'st, 'd) proof_entries = "(symbol, ('b, 'st, 'd) provider_entry) btree"

definition proof_entries_new :: "('b, 'st, 'd) proof_entries" where
  "proof_entries_new = bt_empty"

definition proof_entries_insert ::
  "symbol \<Rightarrow> ('b, 'st, 'd) provider_entry \<Rightarrow> ('b, 'st, 'd) proof_entries \<Rightarrow> ('b, 'st, 'd) proof_entries" where
  "proof_entries_insert provider entry m = bt_insert provider entry m"

definition with_proof_entry ::
  "symbol \<Rightarrow> ('b, 'st, 'd) provider_entry \<Rightarrow> ('b, 'st, 'd) proof_entries \<Rightarrow> ('b, 'st, 'd) proof_entries" where
  "with_proof_entry provider entry m = proof_entries_insert provider entry m"

definition proof_entry :: "('b, 'st, 'd) proof_entries \<Rightarrow> symbol \<Rightarrow> ('b, 'st, 'd) provider_entry result" where
  "proof_entry m provider = ok_or (bt_get m provider)
     (HostError [Lit ''audio provider '', Show_sym provider, Lit '' has no proof entry for '',
                 Lit ''sim_audio_provider_v1''])"

definition run_entry ::
  "('b, 'st, 'd) provider_entry \<Rightarrow> ('b, 'st, 'd) registrar \<Rightarrow> unit result \<times> ('b, 'st, 'd) registrar" where
  "run_entry entry g = (snd entry, fold register_site (fst entry) g)"

definition register_provider_lib ::
  "lib_manifest \<Rightarrow> ('b, 'st, 'd) proof_entries \<Rightarrow> ('b, 'st, 'd) router \<Rightarrow>
   unit result \<times> ('b, 'st, 'd) router" where
  "register_provider_lib manifest entries r =
     (case exports_from_manifest manifest of
        Inl e \<Rightarrow> (Err e, r)
      | Inr symbols \<Rightarrow>
          (case proof_entry entries (lm_id manifest) of
             Inl e \<Rightarrow> (Err e, r)
           | Inr entry \<Rightarrow>
               (let (ran, g) = run_entry entry (registrar_for_provider r (lm_id manifest) symbols)
                in (and_then ran (\<lambda>_. registrar_finish g), rg_router g))))"

text \<open>\<open>load_lib\<close>, the loader registry's, is an argument; it may change the context.\<close>

definition load_into ::
  "('cx, 'h) context_ops \<Rightarrow> ('src \<Rightarrow> 'cx \<Rightarrow> lib_manifest result \<times> 'cx) \<Rightarrow>
   ('b, 'st, 'd) proof_entries \<Rightarrow> 'src \<Rightarrow> ('b, 'st, 'd) router \<Rightarrow> 'cx \<Rightarrow>
   unit result \<times> ('b, 'st, 'd) router \<times> 'cx" where
  "load_into ops load_lib entries source r cx =
     (case cx_require ops cx native_audio_provider_capability of
        Inl e \<Rightarrow> (Err e, r, cx)
      | Inr _ \<Rightarrow>
          (case load_lib source cx of
             (Inl e, cx') \<Rightarrow> (Err e, r, cx')
           | (Inr manifest, cx') \<Rightarrow>
               (let (out, r') = register_provider_lib manifest entries r in (out, r', cx'))))"

text \<open>The host that loads providers: the context it borrows, the loader registry and the proof entries.\<close>

record ('cx, 'src, 'b, 'st, 'd) provider_host =
  ph_cx :: 'cx
  ph_load_lib :: "'src \<Rightarrow> 'cx \<Rightarrow> lib_manifest result \<times> 'cx"
  ph_entries :: "('b, 'st, 'd) proof_entries"

definition provider_host_new ::
  "'cx \<Rightarrow> ('src \<Rightarrow> 'cx \<Rightarrow> lib_manifest result \<times> 'cx) \<Rightarrow> ('cx, 'src, 'b, 'st, 'd) provider_host" where
  "provider_host_new cx load_lib = \<lparr>ph_cx = cx, ph_load_lib = load_lib, ph_entries = proof_entries_new\<rparr>"

definition host_with_proof_entry ::
  "symbol \<Rightarrow> ('b, 'st, 'd) provider_entry \<Rightarrow> ('cx, 'src, 'b, 'st, 'd) provider_host \<Rightarrow>
   ('cx, 'src, 'b, 'st, 'd) provider_host" where
  "host_with_proof_entry provider entry h = h\<lparr>ph_entries := proof_entries_insert provider entry (ph_entries h)\<rparr>"

definition host_with_entry ::
  "symbol \<Rightarrow> ('b, 'st, 'd) provider_entry \<Rightarrow> ('cx, 'src, 'b, 'st, 'd) provider_host \<Rightarrow>
   ('cx, 'src, 'b, 'st, 'd) provider_host" where
  "host_with_entry provider entry h = host_with_proof_entry provider entry h"

definition host_load_into ::
  "('cx, 'h) context_ops \<Rightarrow> 'src \<Rightarrow> ('cx, 'src, 'b, 'st, 'd) provider_host \<Rightarrow> ('b, 'st, 'd) router \<Rightarrow>
   unit result \<times> ('cx, 'src, 'b, 'st, 'd) provider_host \<times> ('b, 'st, 'd) router" where
  "host_load_into ops source h r =
     (let (out, r', cx') = load_into ops (ph_load_lib h) (ph_entries h) source r (ph_cx h)
      in (out, h\<lparr>ph_cx := cx'\<rparr>, r'))"

text \<open>Loading one source after the other through one host, whatever each load answers.\<close>

primrec host_load_all ::
  "('cx, 'h) context_ops \<Rightarrow> 'src list \<Rightarrow> ('cx, 'src, 'b, 'st, 'd) provider_host \<Rightarrow> ('b, 'st, 'd) router \<Rightarrow>
   unit result list \<times> ('cx, 'src, 'b, 'st, 'd) provider_host \<times> ('b, 'st, 'd) router" where
  "host_load_all ops [] h r = ([], h, r)"
| "host_load_all ops (source # sources) h r =
     (let (out, h1, r1) = host_load_into ops source h r; (outs, h2, r2) = host_load_all ops sources h1 r1
      in (out # outs, h2, r2))"

subsection \<open>The router's rows\<close>

definition router_inv :: "('b, 'st, 'd) router \<Rightarrow> bool" where
  "router_inv r \<longleftrightarrow> bt_wf r \<and> (\<forall>k row. bt_get r k = Some row \<longrightarrow> as_key (rs_site row) = k)"

lemma router_inv_new: "router_inv router_new"
  by (simp add: router_inv_def router_new_def btree.wf_empty btree.laws)

lemma router_inv_insert:
  "router_inv r \<Longrightarrow> router_inv (bt_insert (as_key site) \<lparr>rs_owner = owner, rs_site = site\<rparr> r)"
  by (simp add: router_inv_def btree.wf_insert btree.laws)

lemma unregister_owner_get:
  assumes "bt_wf r"
  shows "bt_wf (snd (unregister_owner owner r))"
    and "bt_get (snd (unregister_owner owner r)) k = (case bt_get r k of
      None \<Rightarrow> None | Some row \<Rightarrow> if rs_owner row = owner then None else Some row)"
proof -
  let ?r' = "snd (unregister_owner owner r)"
  have r': "?r' = filter (\<lambda>(_, row). rs_owner row \<noteq> owner) r"
    by (simp add: unregister_owner_def Let_def)
  show wf: "bt_wf ?r'"
    using assms unfolding bt_wf_def r' sorted_wrt_map by (rule sorted_wrt_filter)
  have iff: "bt_get ?r' k = Some row \<longleftrightarrow> bt_get r k = Some row \<and> rs_owner row \<noteq> owner" for row
    unfolding bt_get_mem [OF wf] bt_get_mem [OF assms] by (simp add: r')
  show "bt_get ?r' k = (case bt_get r k of
      None \<Rightarrow> None | Some row \<Rightarrow> if rs_owner row = owner then None else Some row)"
  proof (cases "bt_get ?r' k")
    case None
    with iff show ?thesis by (cases "bt_get r k") auto
  next
    case (Some row)
    with iff [of row] show ?thesis by simp
  qed
qed

lemma register_owned_eq:
  "register_owned owner site r =
     (if bt_get r (as_key site) = None
      then (Ok (), bt_insert (as_key site) \<lparr>rs_owner = owner, rs_site = site\<rparr> r)
      else (Err (Eval [Lit ''audio site '', Show_sym (key_symbol (as_key site)),
              Lit '' is already registered'']), r))"
  by (simp add: register_owned_def Let_def)

datatype ('b, 'st, 'd) router_op =
    RegisterOwned symbol "('b, 'st, 'd) audio_site"
  | ReloadOwned symbol "('b, 'st, 'd) audio_site"
  | UnregisterOwner symbol

primrec router_apply :: "('b, 'st, 'd) router_op \<Rightarrow> ('b, 'st, 'd) router \<Rightarrow> ('b, 'st, 'd) router" where
  "router_apply (RegisterOwned owner site) r = snd (register_owned owner site r)"
| "router_apply (ReloadOwned owner site) r = snd (reload_owned owner site r)"
| "router_apply (UnregisterOwner owner) r = snd (unregister_owner owner r)"

lemma router_apply_inv: "router_inv r \<Longrightarrow> router_inv (router_apply op r)"
proof (cases op)
  case (RegisterOwned owner site)
  moreover assume "router_inv r"
  ultimately show ?thesis by (simp add: register_owned_eq router_inv_insert)
next
  case (ReloadOwned owner site)
  moreover assume "router_inv r"
  ultimately show ?thesis
    by (simp add: reload_owned_def Let_def router_inv_insert split: option.splits)
next
  case (UnregisterOwner owner)
  moreover assume inv: "router_inv r"
  ultimately show ?thesis
    using unregister_owner_get [of r owner]
    by (auto simp: router_inv_def split: option.splits if_splits)
qed

text \<open>What one operation does to the owner of one key.\<close>

lemma router_apply_owner:
  assumes "router_inv r" "site_owner r k = Some owner"
  shows "site_owner (router_apply op r) k =
    (if op = UnregisterOwner owner then None else Some owner)"
proof -
  obtain row where row: "bt_get r k = Some row" "rs_owner row = owner"
    using assms(2) by (auto simp: site_owner_def)
  have wf: "bt_wf r" using assms(1) by (simp add: router_inv_def)
  show ?thesis
    using row unregister_owner_get(2) [OF wf, of _ k]
    by (cases op)
      (auto simp: site_owner_def register_owned_eq reload_owned_def Let_def btree.laws split: option.splits)
qed


definition demo_site :: "string \<Rightarrow> (usize, demo_stream, nat) audio_site" where
  "demo_site name = \<lparr>as_key = audio_site_key_new name,
     as_card = audio_card_modeled (audio_site_key_new name) name,
     as_open = (\<lambda>r. Ok (open_stream_new demo_core demo_streams (config_from_request r latency_default
       (clock_info_new (cr_clock r) None True))))\<rparr>"

definition demo_router :: "(usize, demo_stream, nat) router" where
  "demo_router = bt_insert (as_key (demo_site ''x'')) \<lparr>rs_owner = symbol_new ''a'',
     rs_site = demo_site ''x''\<rparr> router_new"

lemma demo_router_inv: "router_inv demo_router"
  unfolding demo_router_def by (rule router_inv_insert [OF router_inv_new])

lemma demo_router_get: "bt_get demo_router k =
    (if k = audio_site_key_new ''x'' then Some \<lparr>rs_owner = symbol_new ''a'', rs_site = demo_site ''x''\<rparr>
     else None)"
  by (simp add: demo_router_def router_new_def btree.laws demo_site_def)


subsection \<open>Capability lookup\<close>

lemma bt_values_rows:
  assumes "router_inv r"
  shows "row \<in> set (bt_values r) \<longleftrightarrow> bt_get r (as_key (rs_site row)) = Some row"
    and "distinct (map (\<lambda>row. as_key (rs_site row)) (bt_values r))"
  using assms bt_values_by_key [of r "\<lambda>row. as_key (rs_site row)"] by (auto simp: router_inv_def)

text \<open>
  The sites found for an output shape do not depend on the hash map's order as a set: each
  registered site whose card has enough output channels and one of the preferred rates is listed
  exactly once, nothing else is, and the list is sorted by the printed key.
\<close>
theorem sites_by_capability_exact:
  assumes "router_inv r" and "mset (shuffle (bt_values r)) = mset (bt_values r)"
  shows "set (sites_by_capability shuffle n rates r) =
      {k. \<exists>row. bt_get r k = Some row \<and> card_fits n rates (as_card (rs_site row))} \<and>
    distinct (sites_by_capability shuffle n rates r) \<and>
    sorted (map (\<lambda>k. as_qualified_str (key_symbol k)) (sites_by_capability shuffle n rates r))"
proof -
  note rows = bt_values_rows [OF assms(1)]
  have set: "set (shuffle (bt_values r)) = set (bt_values r)"
    using assms(2) by (metis set_mset_mset)
  have "mset (map (\<lambda>row. as_key (rs_site row)) (shuffle (bt_values r)))
      = mset (map (\<lambda>row. as_key (rs_site row)) (bt_values r))"
    using assms(2) by simp
  then have "distinct (map (\<lambda>row. as_key (rs_site row)) (shuffle (bt_values r)))"
    using rows(2) by (metis mset_eq_imp_distinct_iff)
  then have "distinct (sites_by_capability shuffle n rates r)"
    by (simp add: sites_by_capability_def registered_sites_def distinct_map_filter)
  moreover have "set (sites_by_capability shuffle n rates r) =
      {k. \<exists>row. bt_get r k = Some row \<and> card_fits n rates (as_card (rs_site row))}"
  proof (rule set_eqI)
    fix k
    have "k \<in> set (sites_by_capability shuffle n rates r) \<longleftrightarrow>
        (\<exists>row \<in> set (bt_values r). card_fits n rates (as_card (rs_site row)) \<and> as_key (rs_site row) = k)"
      using set by (auto simp: sites_by_capability_def registered_sites_def)
    also have "\<dots> \<longleftrightarrow> (\<exists>row. bt_get r k = Some row \<and> card_fits n rates (as_card (rs_site row)))"
      using rows(1) assms(1) unfolding router_inv_def by metis
    finally show "k \<in> set (sites_by_capability shuffle n rates r) \<longleftrightarrow>
        k \<in> {k. \<exists>row. bt_get r k = Some row \<and> card_fits n rates (as_card (rs_site row))}"
      by simp
  qed
  ultimately show ?thesis
    by (simp add: sites_by_capability_def)
qed

theorem sites_by_capability_exact_witness:
  "set (sites_by_capability rev 2 [44100] demo_router) = {audio_site_key_new ''x''}"
  using sites_by_capability_exact [OF demo_router_inv, where shuffle = rev and n = 2 and rates = "[44100]"]
  by (auto simp: demo_router_get demo_site_def card_fits_def audio_card_modeled_def)

subsection \<open>Provider registration\<close>

definition add_sites ::
  "symbol \<Rightarrow> ('b, 'st, 'd) audio_site list \<Rightarrow> ('b, 'st, 'd) router \<Rightarrow> ('b, 'st, 'd) router" where
  "add_sites owner sites r =
     fold (\<lambda>site. bt_insert (as_key site) \<lparr>rs_owner = owner, rs_site = site\<rparr>) sites r"

lemma add_sites_get:
  "distinct (map as_key sites) \<Longrightarrow> bt_get (add_sites owner sites r) k =
     (case find (\<lambda>site. as_key site = k) sites of
        Some site \<Rightarrow> Some \<lparr>rs_owner = owner, rs_site = site\<rparr> | None \<Rightarrow> bt_get r k)"
  unfolding add_sites_def by (rule btree.get_fold_insert)

lemma add_sites_keeps:
  assumes "distinct (map as_key sites)" "list_all (\<lambda>site. bt_get r (as_key site) = None) sites" "bt_get r k = Some row"
  shows "bt_get (add_sites owner sites r) k = Some row"
proof (cases "find (\<lambda>site. as_key site = k) sites")
  case (Some site)
  from find_Some_mem [OF this] assms(2,3) show ?thesis
    by (auto simp: list_all_iff)
qed (simp add: add_sites_get [OF assms(1)] assms(3))

lemma add_sites_new:
  assumes "distinct (map as_key sites)" "bt_get r k = None" "bt_get (add_sites owner sites r) k = Some row"
  shows "\<exists>site \<in> set sites. as_key site = k \<and> row = \<lparr>rs_owner = owner, rs_site = site\<rparr>"
proof (cases "find (\<lambda>site. as_key site = k) sites")
  case None
  with assms(2,3) show ?thesis
    by (simp add: add_sites_get [OF assms(1)])
next
  case (Some site)
  with assms(3) have "row = \<lparr>rs_owner = owner, rs_site = site\<rparr>"
    by (simp add: add_sites_get [OF assms(1)])
  with find_Some_mem [OF Some] show ?thesis
    by blast
qed

lemma add_sites_mem:
  assumes "distinct (map as_key sites)" "site \<in> set sites"
  shows "bt_get (add_sites owner sites r) (as_key site) = Some \<lparr>rs_owner = owner, rs_site = site\<rparr>"
proof -
  obtain site' where f: "find (\<lambda>s. as_key s = as_key site) sites = Some site'"
    using assms(2) by (cases "find (\<lambda>s. as_key s = as_key site) sites") (auto simp: find_None_iff)
  have "site' = site"
    using find_Some_mem [OF f] assms by (metis distinct_map inj_onD)
  with f show ?thesis
    by (simp add: add_sites_get [OF assms(1)])
qed

lemma register_sites_stopped: "rg_error g \<noteq> None \<Longrightarrow> fold register_site sites g = g"
  by (induction sites) (auto simp: register_site_def)

lemma register_site_sel [simp]:
  "rg_owner (register_site site g) = rg_owner g" "rg_allowed (register_site site g) = rg_allowed g"
  by (simp_all add: register_site_def record_error_def Let_def split: prod.splits sum.splits)

lemma register_site_cases:
  assumes "rg_error g = None" "rg_allowed g = Some allowed"
  shows "(key_symbol (as_key site) \<in> set allowed \<and> bt_get (rg_router g) (as_key site) = None \<and>
      rg_error (register_site site g) = None \<and>
      rg_router (register_site site g) = add_sites (rg_owner g) [site] (rg_router g)) \<or>
    (rg_error (register_site site g) \<noteq> None \<and> rg_router (register_site site g) = rg_router g)"
  using assms
  by (auto simp: register_site_def record_error_def register_owned_eq add_sites_def Let_def)

lemma register_sites_spec:
  "rg_error g = None \<Longrightarrow> rg_allowed g = Some allowed \<Longrightarrow>
   \<exists>done rest. sites = done @ rest \<and> distinct (map as_key done) \<and>
     list_all (\<lambda>site. key_symbol (as_key site) \<in> set allowed \<and>
       bt_get (rg_router g) (as_key site) = None) done \<and>
     rg_router (fold register_site sites g) = add_sites (rg_owner g) done (rg_router g) \<and>
     (rg_error (fold register_site sites g) = None \<longrightarrow> rest = [])"
proof (induction sites arbitrary: g)
  case Nil
  then show ?case by (simp add: add_sites_def)
next
  case (Cons site sites)
  let ?g = "register_site site g"
  show ?case
  proof (cases "rg_error ?g")
    case (Some e)
    then have "rg_router ?g = rg_router g"
      using register_site_cases [OF Cons.prems, of site] by auto
    with Some show ?thesis
      using register_sites_stopped [of ?g sites]
      by (intro exI [of _ "[]"] exI [of _ "site # sites"]) (simp add: add_sites_def)
  next
    case None
    then have site: "key_symbol (as_key site) \<in> set allowed" "bt_get (rg_router g) (as_key site) = None"
      "rg_router ?g = add_sites (rg_owner g) [site] (rg_router g)"
      using register_site_cases [OF Cons.prems, of site] by auto
    have allowed: "rg_allowed ?g = Some allowed" using Cons.prems(2) by simp
    from Cons.IH [OF None allowed] obtain "done" rest where IH:
      "sites = done @ rest" "distinct (map as_key done)"
      "list_all (\<lambda>site. key_symbol (as_key site) \<in> set allowed \<and>
         bt_get (rg_router ?g) (as_key site) = None) done"
      "rg_router (fold register_site sites ?g) = add_sites (rg_owner ?g) done (rg_router ?g)"
      "rg_error (fold register_site sites ?g) = None \<longrightarrow> rest = []"
      by - (elim exE conjE, rule that)
    have "bt_get (rg_router ?g) k = (if k = as_key site then Some \<lparr>rs_owner = rg_owner g, rs_site = site\<rparr>
        else bt_get (rg_router g) k)" for k
      by (simp add: site(3) add_sites_def btree.laws)
    then have fresh: "list_all (\<lambda>site. key_symbol (as_key site) \<in> set allowed \<and>
         bt_get (rg_router g) (as_key site) = None) done" "as_key site \<notin> set (map as_key done)"
      using IH(3) by (auto simp: list_all_iff split: if_splits)
    have "rg_router (fold register_site (site # sites) g) = add_sites (rg_owner g) (site # done) (rg_router g)"
      using IH(4) site(3) by (simp add: add_sites_def)
    then show ?thesis
      using IH(1,2,5) fresh site(1,2)
      by (intro exI [of _ "site # done"] exI [of _ rest]) simp
  qed
qed

lemma site_exports_Ok:
  "site_exports provider xs = Ok ss \<Longrightarrow>
     set ss = {s. SiteExport s \<in> set xs} \<and> (\<forall>s \<in> set ss. sym_namespace s = Some ''audio/site'')"
  by (induction xs arbitrary: ss) (auto simp: result_simps split: export.splits if_splits)

lemma exports_from_manifest_Ok:
  "exports_from_manifest m = Ok ss \<Longrightarrow>
     ss \<noteq> [] \<and> set ss = {s. SiteExport s \<in> set (lm_exports m)} \<and>
     (\<forall>s \<in> set ss. sym_namespace s = Some ''audio/site'')"
  by (auto simp: exports_from_manifest_def result_simps dest: site_exports_Ok)

text \<open>What loading one provider library does to the router, whether it succeeds or not.\<close>

lemma register_provider_lib_rows:
  assumes "register_provider_lib m entries r = (out, r')"
  shows "\<exists>added. distinct (map as_key added) \<and> r' = add_sites (lm_id m) added r \<and>
    list_all (\<lambda>site. bt_get r (as_key site) = None \<and> SiteExport (key_symbol (as_key site)) \<in> set (lm_exports m) \<and>
      sym_namespace (key_symbol (as_key site)) = Some ''audio/site'') added \<and>
    (out = Ok () \<longrightarrow> (\<exists>entry. bt_get entries (lm_id m) = Some entry \<and> added = fst entry))"
proof -
  have none: "add_sites (lm_id m) [] r = r" by (simp add: add_sites_def)
  show ?thesis
  proof (cases "exports_from_manifest m")
    case (Inl e)
    with assms have "out = Err e" "r' = r" by (simp_all add: register_provider_lib_def)
    then show ?thesis using none by (intro exI [of _ "[]"]) simp
  next
    case exports: (Inr symbols)
    show ?thesis
    proof (cases "proof_entry entries (lm_id m)")
      case (Inl e)
      with assms exports have "out = Err e" "r' = r" by (simp_all add: register_provider_lib_def)
      then show ?thesis using none by (intro exI [of _ "[]"]) simp
    next
      case (Inr entry)
      let ?start = "registrar_for_provider r (lm_id m) symbols"
      let ?final = "fold register_site (fst entry) ?start"
      have g0: "rg_error ?start = None" "rg_allowed ?start = Some symbols" "rg_router ?start = r"
        "rg_owner ?start = lm_id m"
        by (simp_all add: registrar_for_provider_def)
      have out: "out = and_then (snd entry) (\<lambda>_. registrar_finish ?final)" "r' = rg_router ?final"
        using assms exports Inr by (auto simp: register_provider_lib_def run_entry_def Let_def)
      from register_sites_spec [OF g0(1,2), of "fst entry"] obtain "done" rest where d:
        "fst entry = done @ rest" "distinct (map as_key done)"
        "list_all (\<lambda>site. key_symbol (as_key site) \<in> set symbols \<and> bt_get r (as_key site) = None) done"
        "rg_router ?final = add_sites (lm_id m) done r" "rg_error ?final = None \<longrightarrow> rest = []"
        unfolding g0 by - (elim exE conjE, rule that)
      have sym: "set symbols = {s. SiteExport s \<in> set (lm_exports m)}"
        "\<forall>s \<in> set symbols. sym_namespace s = Some ''audio/site''"
        using exports_from_manifest_Ok [OF exports] by simp_all
      have "list_all (\<lambda>site. bt_get r (as_key site) = None \<and>
          SiteExport (key_symbol (as_key site)) \<in> set (lm_exports m) \<and>
          sym_namespace (key_symbol (as_key site)) = Some ''audio/site'') done"
        using d(3) sym by (auto simp: list_all_iff)
      moreover have "rest = []" if "out = Ok ()"
        using that out(1) d(5)
        by (cases "rg_error ?final") (auto simp: result_simps registrar_finish_def)
      moreover have "bt_get entries (lm_id m) = Some entry"
        using Inr by (simp add: proof_entry_def)
      ultimately show ?thesis
        using d(1,2,4) out(2) by (intro exI [of _ "done"]) auto
    qed
  qed
qed

text \<open>What the entry point of a provider does to the router, whatever it answers.\<close>

lemma register_provider_lib_sound:
  assumes "register_provider_lib m entries r = (out, r')"
  shows "bt_get r k = Some row \<Longrightarrow> bt_get r' k = Some row"
    and "bt_get r k = None \<Longrightarrow> bt_get r' k = Some row \<Longrightarrow>
      rs_owner row = lm_id m \<and> as_key (rs_site row) = k \<and> SiteExport (key_symbol k) \<in> set (lm_exports m) \<and>
      sym_namespace (key_symbol k) = Some ''audio/site''"
    and "out = Ok () \<Longrightarrow> \<exists>entry. bt_get entries (lm_id m) = Some entry \<and>
      list_all (\<lambda>site. bt_get r' (as_key site) = Some \<lparr>rs_owner = lm_id m, rs_site = site\<rparr>) (fst entry)"
proof -
  from register_provider_lib_rows [OF assms] obtain added where added:
    "distinct (map as_key added)" "r' = add_sites (lm_id m) added r"
    "list_all (\<lambda>site. bt_get r (as_key site) = None \<and>
      SiteExport (key_symbol (as_key site)) \<in> set (lm_exports m) \<and>
      sym_namespace (key_symbol (as_key site)) = Some ''audio/site'') added"
    "out = Ok () \<longrightarrow> (\<exists>entry. bt_get entries (lm_id m) = Some entry \<and> added = fst entry)"
    by blast
  have "list_all (\<lambda>site. bt_get r (as_key site) = None) added"
    using added(3) by (simp add: list_all_iff)
  then show "bt_get r k = Some row \<Longrightarrow> bt_get r' k = Some row"
    using add_sites_keeps [OF added(1)] added(2) by blast
  show "rs_owner row = lm_id m \<and> as_key (rs_site row) = k \<and> SiteExport (key_symbol k) \<in> set (lm_exports m) \<and>
      sym_namespace (key_symbol k) = Some ''audio/site''" if "bt_get r k = None" "bt_get r' k = Some row"
    using that add_sites_new [OF added(1), of r k "lm_id m" row] added(2,3) by (auto simp: list_all_iff)
  show "\<exists>entry. bt_get entries (lm_id m) = Some entry \<and>
      list_all (\<lambda>site. bt_get r' (as_key site) = Some \<lparr>rs_owner = lm_id m, rs_site = site\<rparr>) (fst entry)" if "out = Ok ()"
    using that added(2,4) add_sites_mem [OF added(1)] by (auto simp: list_all_iff)
qed

lemma load_into_granted:
  assumes "load_into ops load_lib entries source r cx = (out, r', cx')"
    and "cx_require ops cx native_audio_provider_capability = Ok ()" and "fst (load_lib source cx) = Ok m"
  shows "register_provider_lib m entries r = (out, r')"
  using assms by (auto simp: load_into_def Let_def split: prod.splits)

text \<open>
  Loading a provider needs the native provider capability, without which nothing is loaded
  and nothing changes. Whatever the outcome, no existing row changes, and every row that appears
  is owned by the loaded library under the key of its site, a key the library's manifest
  declares in \<open>audio/site\<close>; when loading succeeds every site the provider registered is there.
\<close>
lemma provider_load_sound:
  assumes "load_into ops load_lib entries source r cx = (out, r', cx')"
  shows "(cx_require ops cx native_audio_provider_capability \<noteq> Ok () \<longrightarrow>
      (\<exists>e. out = Err e) \<and> r' = r \<and> cx' = cx) \<and>
    (\<forall>k row. bt_get r k = Some row \<longrightarrow> bt_get r' k = Some row) \<and>
    (\<forall>k row. bt_get r k = None \<and> bt_get r' k = Some row \<longrightarrow>
      (\<exists>m. fst (load_lib source cx) = Ok m \<and> rs_owner row = lm_id m \<and> as_key (rs_site row) = k \<and>
        SiteExport (key_symbol k) \<in> set (lm_exports m) \<and>
        sym_namespace (key_symbol k) = Some ''audio/site'')) \<and>
    (out = Ok () \<longrightarrow> (\<exists>m entry. fst (load_lib source cx) = Ok m \<and> bt_get entries (lm_id m) = Some entry \<and>
        list_all (\<lambda>site. bt_get r' (as_key site) = Some \<lparr>rs_owner = lm_id m, rs_site = site\<rparr>) (fst entry)))"
proof (cases "cx_require ops cx native_audio_provider_capability")
  case (Inl e)
  with assms have "out = Err e" "r' = r" "cx' = cx" by (simp_all add: load_into_def)
  then show ?thesis by auto
next
  case granted: (Inr u)
  show ?thesis
  proof (cases "fst (load_lib source cx)")
    case (Inl e)
    with assms granted have "out = Err e" "r' = r"
      by (auto simp: load_into_def split: prod.splits)
    with granted show ?thesis by auto
  next
    case (Inr m)
    have "register_provider_lib m entries r = (out, r')"
      by (rule load_into_granted [OF assms _ Inr]) (simp add: granted)
    note sound = register_provider_lib_sound [OF this]
    have "\<forall>k row. bt_get r k = None \<and> bt_get r' k = Some row \<longrightarrow>
      rs_owner row = lm_id m \<and> as_key (rs_site row) = k \<and> SiteExport (key_symbol k) \<in> set (lm_exports m) \<and>
      sym_namespace (key_symbol k) = Some ''audio/site''"
      using sound(2) by blast
    with sound(1,3) show ?thesis
      unfolding Inr by (simp add: granted)
  qed
qed

definition demo_manifest :: lib_manifest where
  "demo_manifest = \<lparr>lm_id = symbol_new ''lib'',
     lm_exports = [OtherExport, SiteExport (symbol_qualified ''audio/site'' ''a'')]\<rparr>"

definition native_site :: "symbol \<Rightarrow> (usize, demo_stream, nat) audio_site" where
  "native_site s = \<lparr>as_key = AudioSiteKey s, as_card = audio_card_modeled (AudioSiteKey s) ''native'',
     as_open = (\<lambda>r. Err (HostError [Lit ''busy'']))\<rparr>"

text \<open>
  A provider that fails half way leaves behind the sites it had registered: loading reports
  the error, but the router still routes to them under the failed library's ownership.
\<close>
theorem failed_load_keeps_sites:
  "\<exists>r'. register_provider_lib demo_manifest
      (proof_entries_insert (symbol_new ''lib'')
        ([native_site (symbol_qualified ''audio/site'' ''a''), native_site (symbol_qualified ''audio/site'' ''b'')], Ok ())
        proof_entries_new) router_new
    = (Err (HostError [Lit ''audio provider '', Show_sym (symbol_new ''lib''),
         Lit '' registered undeclared site '', Show_sym (symbol_qualified ''audio/site'' ''b'')]), r') \<and>
    site_owner r' (AudioSiteKey (symbol_qualified ''audio/site'' ''a'')) = Some (symbol_new ''lib'')"
  by (simp add: register_provider_lib_def exports_from_manifest_def demo_manifest_def proof_entry_def
      proof_entries_insert_def proof_entries_new_def btree.laws run_entry_def registrar_for_provider_def
      register_site_def native_site_def register_owned_def router_new_def record_error_def
      registrar_finish_def site_owner_def Let_def)

text \<open>One load of a run, as a load into the router, with the host it leaves.\<close>

lemma host_load_into_eq:
  "host_load_into ops source h r = (out, h1, r1) \<longleftrightarrow>
     (\<exists>cx'. load_into ops (ph_load_lib h) (ph_entries h) source r (ph_cx h) = (out, r1, cx') \<and> h1 = h\<lparr>ph_cx := cx'\<rparr>)"
  by (auto simp: host_load_into_def split: prod.splits)

text \<open>The context a run leaves, and the libraries the loads of a run take from the loader with authority.\<close>

definition run_context ::
  "('cx, 'h) context_ops \<Rightarrow> 'src list \<Rightarrow> ('cx, 'src, 'b, 'st, 'd) provider_host \<Rightarrow> ('b, 'st, 'd) router \<Rightarrow> 'cx" where
  "run_context ops sources h r = (case host_load_all ops sources h r of (_, h', _) \<Rightarrow> ph_cx h')"

definition loaded_from ::
  "('cx, 'h) context_ops \<Rightarrow> ('src \<Rightarrow> 'cx \<Rightarrow> lib_manifest result \<times> 'cx) \<Rightarrow> 'src \<Rightarrow> 'cx \<Rightarrow> lib_manifest \<Rightarrow> bool" where
  "loaded_from ops load_lib source cx m \<longleftrightarrow>
     cx_require ops cx native_audio_provider_capability = Ok () \<and> fst (load_lib source cx) = Ok m"

definition loaded_at ::
  "('cx, 'h) context_ops \<Rightarrow> 'src list \<Rightarrow> ('cx, 'src, 'b, 'st, 'd) provider_host \<Rightarrow> ('b, 'st, 'd) router \<Rightarrow> nat \<Rightarrow>
   lib_manifest \<Rightarrow> bool" where
  "loaded_at ops sources h r i m \<longleftrightarrow> i < length sources \<and>
     loaded_from ops (ph_load_lib h) (sources ! i) (run_context ops (take i sources) h r) m"

definition declared_row :: "lib_manifest \<Rightarrow> audio_site_key \<Rightarrow> ('b, 'st, 'd) registered_site \<Rightarrow> bool" where
  "declared_row m k row \<longleftrightarrow> rs_owner row = lm_id m \<and> as_key (rs_site row) = k \<and>
     SiteExport (key_symbol k) \<in> set (lm_exports m) \<and> sym_namespace (key_symbol k) = Some ''audio/site''"

lemma host_load_step:
  assumes "host_load_into ops source h r = (out, h1, r1)"
  shows "ph_load_lib h1 = ph_load_lib h" "ph_entries h1 = ph_entries h"
    and "bt_get r k = Some row \<Longrightarrow> bt_get r1 k = Some row"
    and "bt_get r k = None \<Longrightarrow> bt_get r1 k = Some row \<Longrightarrow> \<exists>m. loaded_from ops (ph_load_lib h) source (ph_cx h) m \<and> declared_row m k row"
    and "out = Ok () \<Longrightarrow> \<exists>m entry. loaded_from ops (ph_load_lib h) source (ph_cx h) m \<and> bt_get (ph_entries h) (lm_id m) = Some entry \<and>
      list_all (\<lambda>site. bt_get r1 (as_key site) = Some \<lparr>rs_owner = lm_id m, rs_site = site\<rparr>) (fst entry)"
proof -
  obtain cx' where load: "load_into ops (ph_load_lib h) (ph_entries h) source r (ph_cx h) = (out, r1, cx')"
      "h1 = h\<lparr>ph_cx := cx'\<rparr>"
    using assms by (auto simp: host_load_into_eq)
  note sound = provider_load_sound [OF load(1)]
  note denied = sound [THEN conjunct1] and kept = sound [THEN conjunct2, THEN conjunct1]
    and appeared = sound [THEN conjunct2, THEN conjunct2, THEN conjunct1]
    and complete = sound [THEN conjunct2, THEN conjunct2, THEN conjunct2]
  show "ph_load_lib h1 = ph_load_lib h" "ph_entries h1 = ph_entries h"
    by (simp_all add: load(2))
  show "bt_get r k = Some row \<Longrightarrow> bt_get r1 k = Some row"
    using kept by blast
  show "\<exists>m. loaded_from ops (ph_load_lib h) source (ph_cx h) m \<and> declared_row m k row" if new: "bt_get r k = None" "bt_get r1 k = Some row"
  proof -
    have "r1 \<noteq> r"
      using new by auto
    with denied have "cx_require ops (ph_cx h) native_audio_provider_capability = Ok ()"
      by blast
    moreover obtain m where "fst (ph_load_lib h source (ph_cx h)) = Ok m" "declared_row m k row"
      using appeared new unfolding declared_row_def by blast
    ultimately show ?thesis
      unfolding loaded_from_def by blast
  qed
  show "\<exists>m entry. loaded_from ops (ph_load_lib h) source (ph_cx h) m \<and> bt_get (ph_entries h) (lm_id m) = Some entry \<and>
      list_all (\<lambda>site. bt_get r1 (as_key site) = Some \<lparr>rs_owner = lm_id m, rs_site = site\<rparr>) (fst entry)" if "out = Ok ()"
  proof -
    have "cx_require ops (ph_cx h) native_audio_provider_capability = Ok ()"
      using denied that by auto
    with complete that show ?thesis
      unfolding loaded_from_def by blast
  qed
qed

lemma loaded_at_first: "loaded_at ops (source # sources) h r 0 m = loaded_from ops (ph_load_lib h) source (ph_cx h) m"
  by (simp add: loaded_at_def run_context_def)

lemma loaded_at_next:
  assumes "host_load_into ops source h r = (out, h1, r1)"
  shows "loaded_at ops (source # sources) h r (Suc i) m = loaded_at ops sources h1 r1 i m"
  using assms host_load_step(1) [OF assms] by (simp add: loaded_at_def run_context_def split: prod.splits)

lemma host_run_keeps:
  "host_load_all ops sources h r = (outs, h', r') \<Longrightarrow> bt_get r k = Some row \<Longrightarrow> bt_get r' k = Some row"
proof (induction sources arbitrary: h r outs)
  case (Cons source sources)
  obtain out h1 r1 where step: "host_load_into ops source h r = (out, h1, r1)"
    by (cases "host_load_into ops source h r") blast
  with Cons.prems(1) obtain outs1 where "host_load_all ops sources h1 r1 = (outs1, h', r')"
    by (auto split: prod.splits)
  with Cons.IH host_load_step(3) [OF step Cons.prems(2)] show ?case
    by blast
qed simp

lemma host_run_new:
  assumes "host_load_all ops sources h r = (outs, h', r')" "bt_get r k = None" "bt_get r' k = Some row"
  shows "\<exists>i m. loaded_at ops sources h r i m \<and> declared_row m k row"
  using assms
proof (induction sources arbitrary: h r outs)
  case (Cons source sources)
  obtain out h1 r1 where step: "host_load_into ops source h r = (out, h1, r1)"
    by (cases "host_load_into ops source h r") blast
  with Cons.prems(1) obtain outs1 where rest: "host_load_all ops sources h1 r1 = (outs1, h', r')"
    by (auto split: prod.splits)
  show ?case
  proof (cases "bt_get r1 k")
    case None
    from Cons.IH [OF rest None Cons.prems(3)] show ?thesis
      unfolding loaded_at_next [OF step, symmetric] by blast
  next
    case (Some row1)
    with host_run_keeps [OF rest Some] Cons.prems(3) have "bt_get r1 k = Some row"
      by simp
    from host_load_step(4) [OF step Cons.prems(2) this] show ?thesis
      unfolding loaded_at_first [symmetric, where sources = sources and r = r] by blast
  qed
qed simp

lemma host_run_complete:
  assumes "host_load_all ops sources h r = (outs, h', r')" "i < length sources" "outs ! i = Ok ()"
  shows "\<exists>m entry. loaded_at ops sources h r i m \<and> bt_get (ph_entries h) (lm_id m) = Some entry \<and>
    list_all (\<lambda>site. bt_get r' (as_key site) = Some \<lparr>rs_owner = lm_id m, rs_site = site\<rparr>) (fst entry)"
  using assms
proof (induction sources arbitrary: h r outs i)
  case (Cons first sources)
  obtain out h1 r1 where step: "host_load_into ops first h r = (out, h1, r1)"
    by (cases "host_load_into ops first h r") blast
  with Cons.prems(1) obtain outs1 where rest: "host_load_all ops sources h1 r1 = (outs1, h', r')" "outs = out # outs1"
    by (auto split: prod.splits)
  show ?case
  proof (cases i)
    case (Suc j)
    with Cons.prems(2,3) rest(2) have "j < length sources" "outs1 ! j = Ok ()"
      by simp_all
    from Cons.IH [OF rest(1) this] show ?thesis
      unfolding Suc loaded_at_next [OF step] host_load_step(2) [OF step] .
  next
    case 0
    with Cons.prems(3) rest(2) have "out = Ok ()"
      by simp
    from host_load_step(5) [OF step this] obtain m entry where "loaded_at ops (first # sources) h r i m"
      "bt_get (ph_entries h) (lm_id m) = Some entry"
      "list_all (\<lambda>site. bt_get r1 (as_key site) = Some \<lparr>rs_owner = lm_id m, rs_site = site\<rparr>) (fst entry)"
      unfolding 0 loaded_at_first by blast
    moreover from this(3) host_run_keeps [OF rest(1)]
    have "list_all (\<lambda>site. bt_get r' (as_key site) = Some \<lparr>rs_owner = lm_id m, rs_site = site\<rparr>) (fst entry)"
      by (simp add: list_all_iff)
    ultimately show ?thesis
      by blast
  qed
qed simp

text \<open>
  C15. Loading providers one after the other through one host, whatever each load answers, is
  monotone and accountable. No row that was there changes. Every row that appears belongs to a
  library which one of the loads took from the loader, in the context the loads before it left and
  while that context granted the native provider capability; the row is under the key of its site,
  which the library's manifest declares in \<open>audio/site\<close>. And every load that answered success had the
  capability in its context and found the entry point of its library, all of whose sites are there under
  the library after all loads.
\<close>
theorem provider_run_sound:
  assumes "host_load_all ops sources h r = (outs, h', r')"
  shows "(\<forall>k row. bt_get r k = Some row \<longrightarrow> bt_get r' k = Some row) \<and>
    (\<forall>k row. bt_get r k = None \<and> bt_get r' k = Some row \<longrightarrow>
      (\<exists>i m. loaded_at ops sources h r i m \<and> rs_owner row = lm_id m \<and> as_key (rs_site row) = k \<and>
        SiteExport (key_symbol k) \<in> set (lm_exports m) \<and> sym_namespace (key_symbol k) = Some ''audio/site'')) \<and>
    (\<forall>i < length sources. outs ! i = Ok () \<longrightarrow>
      (\<exists>m entry. loaded_at ops sources h r i m \<and> bt_get (ph_entries h) (lm_id m) = Some entry \<and>
        list_all (\<lambda>site. bt_get r' (as_key site) = Some \<lparr>rs_owner = lm_id m, rs_site = site\<rparr>) (fst entry)))"
  using host_run_keeps [OF assms] host_run_new [OF assms] host_run_complete [OF assms] unfolding declared_row_def
  by blast

text \<open>A host that can load one library once; the second load is refused and leaves the site of the first.\<close>

definition demo_host :: "(demo_cx, unit, usize, demo_stream, nat) provider_host" where
  "demo_host = host_with_proof_entry (symbol_new ''lib'') ([native_site (symbol_qualified ''audio/site'' ''a'')], Ok ())
     (provider_host_new \<lparr>dc_grants = [''audio.provider.native''], dc_next = 0, dc_ledger = []\<rparr>
       (\<lambda>_ cx. (Ok demo_manifest, cx)))"

lemma demo_host_loads: "fst (host_load_into demo_ops () demo_host router_new) = Ok ()"
  by (auto simp: host_load_into_def demo_host_def host_with_proof_entry_def provider_host_new_def
      load_into_def demo_ops_def native_audio_provider_capability_def
      register_provider_lib_def exports_from_manifest_def demo_manifest_def proof_entry_def
      proof_entries_insert_def proof_entries_new_def btree.laws run_entry_def registrar_for_provider_def
      register_site_def native_site_def register_owned_def router_new_def registrar_finish_def Let_def)

theorem provider_run_sound_witness:
  "\<exists>outs h' r'. host_load_all demo_ops [(), ()] demo_host router_new = (outs, h', r') \<and> hd outs = Ok () \<and>
    bt_get r' (AudioSiteKey (symbol_qualified ''audio/site'' ''a''))
      = Some \<lparr>rs_owner = symbol_new ''lib'', rs_site = native_site (symbol_qualified ''audio/site'' ''a'')\<rparr>"
proof -
  obtain outs h' r' where run: "host_load_all demo_ops [(), ()] demo_host router_new = (outs, h', r')"
    by (cases "host_load_all demo_ops [(), ()] demo_host router_new") blast
  then have first: "hd outs = Ok ()" "outs ! 0 = Ok ()"
    using demo_host_loads by (auto split: prod.splits)
  have "0 < length [(), ()]"
    by simp
  with provider_run_sound [OF run] first(2) obtain m entry where
    "loaded_at demo_ops [(), ()] demo_host router_new 0 m" "bt_get (ph_entries demo_host) (lm_id m) = Some entry"
    "list_all (\<lambda>site. bt_get r' (as_key site) = Some \<lparr>rs_owner = lm_id m, rs_site = site\<rparr>) (fst entry)"
    by blast
  then have "bt_get r' (AudioSiteKey (symbol_qualified ''audio/site'' ''a''))
      = Some \<lparr>rs_owner = symbol_new ''lib'', rs_site = native_site (symbol_qualified ''audio/site'' ''a'')\<rparr>"
    by (auto simp: loaded_at_first loaded_from_def demo_host_def host_with_proof_entry_def provider_host_new_def demo_manifest_def
        proof_entries_insert_def btree.laws native_site_def)
  with run first(1) show ?thesis
    by blast
qed

end
