(* ===== verification/Catalog.thy ===== *)
theory Catalog
  imports Router
begin

section \<open>The device catalog\<close>

text \<open>
  \<open>src/catalog.rs\<close>, \<open>src/eval_site.rs\<close>, \<open>src/audio_provider.rs\<close>, \<open>src/midi_provider.rs\<close> and
  \<open>src/midi_live_eval_site.rs\<close>: providers of cataloged devices, their enumeration and the checked
  open of a row. Every provider of the repository is a table of records with the same \<open>open\<close>;
  the locale \<open>row_provider\<close> is what the catalog needs of any of them, and its lemma says that
  the row whose effects were authorized is the row that is opened.
\<close>

subsection \<open>Evaluation sites and providers (\<open>src/eval_site.rs\<close>)\<close>

text \<open>A trait object of \<open>StreamEvalSite\<close>: what its methods answer; \<open>'l\<close> is a live MIDI session.\<close>

record 'l eval_site =
  es_placement :: placement
  es_record :: device_record
  es_live :: "'l result option"
  es_close :: "unit result"

record 'l device_provider =
  pv_enumerate :: "device_record list result"
  pv_open :: "symbol \<Rightarrow> 'l eval_site result"

subsection \<open>Table providers (\<open>src/catalog.rs\<close>, \<open>src/audio_provider.rs\<close>, \<open>src/midi_provider.rs\<close>)\<close>

text \<open>The site of a table row: \<open>ProviderAudioSite\<close>, \<open>ModeledAudioEvalSite\<close>, \<open>ModeledMidiEvalSite\<close>.\<close>

definition row_site :: "device_record \<Rightarrow> 'l eval_site" where
  "row_site r = \<lparr>es_placement = dr_placement r, es_record = r, es_live = None, es_close = Ok ()\<rparr>"

definition table_open :: "string \<Rightarrow> device_record list \<Rightarrow> symbol \<Rightarrow> 'l eval_site result" where
  "table_open name records i =
     and_then (ok_or (find (\<lambda>r. dr_id r = i) records)
         (Eval ([Lit name, Lit '': unknown id ''] @ quoted i)))
       (\<lambda>r. Ok (row_site r))"

definition table_provider :: "string \<Rightarrow> device_record list \<Rightarrow> 'l device_provider" where
  "table_provider name records = \<lparr>pv_enumerate = Ok records, pv_open = table_open name records\<rparr>"

definition modeled_audio_records :: "device_record list" where
  "modeled_audio_records = [modeled_audio_from_card
     (audio_card_modeled (audio_site_key_new ''audio/model/stereo-0'') ''Modeled Audio Stereo 0'')]"

definition modeled_midi_records :: "device_record list" where
  "modeled_midi_records =
     [modeled_midi_input ''midi/model/in-0'' ''Modeled MIDI Input 0'',
      modeled_midi_output ''midi/model/out-0'' ''Modeled MIDI Output 0'']"

definition modeled_audio_provider :: "'l device_provider" where
  "modeled_audio_provider = table_provider ''ModeledAudioProvider'' modeled_audio_records"

definition modeled_midi_provider :: "'l device_provider" where
  "modeled_midi_provider = table_provider ''ModeledMidiProvider'' modeled_midi_records"

definition router_row_record :: "('b, 'st, 'd) registered_site \<Rightarrow> device_record" where
  "router_row_record row =
     (let c = as_card (rs_site row)
      in audio_from_card c (if ac_hardware_required c then Hardware (rs_owner row) else Modeled))"

definition provider_sites_records ::
  "(('b, 'st, 'd) registered_site list \<Rightarrow> ('b, 'st, 'd) registered_site list) \<Rightarrow>
   ('b, 'st, 'd) router \<Rightarrow> device_record list" where
  "provider_sites_records shuffle r =
     sort_key (\<lambda>rec. as_qualified_str (dr_id rec)) (map router_row_record (registered_sites shuffle r))"

text \<open>
  An export record of a loaded library: its kind (compared only with the site kind), its symbol,
  and whether its state is invalid.
\<close>

record 'k export_record =
  xr_kind :: 'k
  xr_symbol :: symbol
  xr_invalid :: bool

definition registry_site_record :: "'k \<Rightarrow> 'k export_record \<Rightarrow> device_record option" where
  "registry_site_record site_kind x =
     (if xr_kind x \<noteq> site_kind then None
      else if sym_namespace (xr_symbol x) \<noteq> Some ''audio/site'' then None
      else if xr_invalid x then None
      else Some \<lparr>dr_id = xr_symbol x, dr_display_name = sym_name (xr_symbol x) @ '' audio site'',
        dr_kind = AudioKind, dr_direction = CatalogDuplex, dr_placement = Hardware (xr_symbol x)\<rparr>)"

text \<open>\<open>dedup_by\<close> on the ids: of a run of neighbours with one id the first stays.\<close>

fun dedup_ids :: "device_record list \<Rightarrow> device_record list" where
  "dedup_ids [] = []"
| "dedup_ids [x] = [x]"
| "dedup_ids (x # y # ys) =
     (if dr_id y = dr_id x then dedup_ids (x # ys) else x # dedup_ids (y # ys))"

definition registry_devices_records :: "'k \<Rightarrow> 'k export_record list list \<Rightarrow> device_record list" where
  "registry_devices_records site_kind libs =
     dedup_ids (sort_key (\<lambda>rec. as_qualified_str (dr_id rec))
       (List.map_filter (registry_site_record site_kind) (concat libs)))"

subsection \<open>The catalog (\<open>src/catalog.rs\<close>)\<close>

type_synonym 'l catalog = "'l device_provider list"

definition catalog_new :: "'l catalog" where
  "catalog_new = []"

definition catalog_register :: "'l device_provider \<Rightarrow> 'l catalog \<Rightarrow> 'l catalog" where
  "catalog_register p c = c @ [p]"

definition default_modeled :: "'l catalog" where
  "default_modeled =
     catalog_register modeled_audio_provider (catalog_register modeled_midi_provider catalog_new)"

definition with_native_midi :: "'l device_provider \<Rightarrow> 'l catalog" where
  "with_native_midi p = catalog_register p default_modeled"

definition with_alsa_midi :: "'l device_provider \<Rightarrow> 'l catalog" where
  "with_alsa_midi p = with_native_midi p"

definition with_ble_midi :: "'l device_provider \<Rightarrow> 'l catalog" where
  "with_ble_midi p = with_native_midi p"

definition register_provider_sites ::
  "(('b, 'st, 'd) registered_site list \<Rightarrow> ('b, 'st, 'd) registered_site list) \<Rightarrow>
   ('b, 'st, 'd) router \<Rightarrow> 'l catalog \<Rightarrow> 'l catalog" where
  "register_provider_sites shuffle r c =
     (let records = provider_sites_records shuffle r
      in if records \<noteq> [] then catalog_register (table_provider ''ProviderAudioSites'' records) c else c)"

definition register_registry_devices ::
  "'k \<Rightarrow> 'k export_record list list \<Rightarrow> 'l catalog \<Rightarrow> 'l catalog" where
  "register_registry_devices site_kind libs c =
     (let records = registry_devices_records site_kind libs
      in if records \<noteq> [] then catalog_register (table_provider ''RegistryAudioDevices'' records) c else c)"

definition with_registry_devices :: "'k \<Rightarrow> 'k export_record list list \<Rightarrow> 'l catalog" where
  "with_registry_devices site_kind libs = register_registry_devices site_kind libs default_modeled"

definition catalog_enumerate :: "'l catalog \<Rightarrow> device_record list result" where
  "catalog_enumerate c = and_then (traverse pv_enumerate c) (\<lambda>rs. Ok (concat rs))"

definition no_device_error :: "symbol \<Rightarrow> error" where
  "no_device_error i = Eval (Lit ''DeviceCatalog: no device '' # quoted i)"

primrec catalog_open :: "symbol \<Rightarrow> 'l catalog \<Rightarrow> 'l eval_site result" where
  "catalog_open i [] = Err (no_device_error i)"
| "catalog_open i (p # ps) =
     and_then (pv_enumerate p) (\<lambda>records.
     if list_ex (\<lambda>r. dr_id r = i) records then pv_open p i else catalog_open i ps)"

definition catalog_open_checked ::
  "('cx, 'h) context_ops \<Rightarrow> symbol \<Rightarrow> 'l catalog \<Rightarrow> 'cx \<Rightarrow> 'l eval_site result \<times> 'cx" where
  "catalog_open_checked ops i c cx =
     (case catalog_enumerate c of
        Inl e \<Rightarrow> (Err e, cx)
      | Inr records \<Rightarrow>
          (case find (\<lambda>r. dr_id r = i) records of
             None \<Rightarrow> (Err (no_device_error i), cx)
           | Some r \<Rightarrow>
               (case plan_enforce ops (record_open_plan r) cx of
                  (Inl e, cx') \<Rightarrow> (Err e, cx')
                | (Inr _, cx') \<Rightarrow> (catalog_open i c, cx'))))"

definition enumerate_kind :: "device_kind \<Rightarrow> 'l catalog \<Rightarrow> device_record list result" where
  "enumerate_kind kind c =
     and_then (catalog_enumerate c) (\<lambda>records. Ok (filter (\<lambda>r. dr_kind r = kind) records))"

definition enumerate_midi :: "'l catalog \<Rightarrow> device_record list result" where
  "enumerate_midi c = enumerate_kind MidiKind c"

definition enumerate_audio :: "'l catalog \<Rightarrow> device_record list result" where
  "enumerate_audio c = enumerate_kind AudioKind c"

definition push_unique :: "string \<Rightarrow> string list \<Rightarrow> string list" where
  "push_unique name names = (if name \<in> set names then names else names @ [name])"

primrec collect_names :: "device_record list \<Rightarrow> string list \<times> bool \<Rightarrow> string list \<times> bool" where
  "collect_names [] acc = acc"
| "collect_names (r # rs) acc = collect_names rs (case dr_placement r of
       Modeled \<Rightarrow> (fst acc, True)
     | Hardware transport \<Rightarrow> (push_unique (sym_name transport) (fst acc), snd acc))"

definition backend_names :: "device_kind \<Rightarrow> bool \<Rightarrow> 'l catalog \<Rightarrow> string list result" where
  "backend_names kind fallback c =
     and_then (enumerate_kind kind c) (\<lambda>records.
       let (names, has_modeled) = collect_names records ([], False)
       in Ok (if fallback \<and> (has_modeled \<or> names = []) then push_unique ''modeled'' names else names))"

definition audio_backend_names :: "'l catalog \<Rightarrow> string list result" where
  "audio_backend_names c = backend_names AudioKind True c"

definition midi_backend_names :: "'l catalog \<Rightarrow> string list result" where
  "midi_backend_names c = backend_names MidiKind True c"

definition audio_hardware_names :: "'l catalog \<Rightarrow> string list result" where
  "audio_hardware_names c = backend_names AudioKind False c"

definition midi_hardware_names :: "'l catalog \<Rightarrow> string list result" where
  "midi_hardware_names c = backend_names MidiKind False c"

definition audio_site_export_symbol :: "string \<Rightarrow> symbol" where
  "audio_site_export_symbol name = symbol_qualified ''audio/site'' name"

definition audio_device_export_symbol :: "string \<Rightarrow> symbol" where
  "audio_device_export_symbol name = symbol_qualified ''audio/device'' name"

subsection \<open>Live MIDI sites (\<open>src/midi_live_eval_site.rs\<close>)\<close>

datatype live_direction = LiveSource | LiveSink | LiveDuplex

primrec live_direction_of :: "device_direction \<Rightarrow> live_direction" where
  "live_direction_of CatalogInput = LiveSource"
| "live_direction_of CatalogOutput = LiveSink"
| "live_direction_of CatalogDuplex = LiveDuplex"

text \<open>The calls on \<open>LiveMidiSession\<close>; the text of its error type is \<open>lv_error_text\<close>.\<close>

record ('l, 'le) live_ops =
  lv_direction :: "'l \<Rightarrow> live_direction"
  lv_modeled :: "live_direction \<Rightarrow> 'le + 'l"
  lv_close :: "'l \<Rightarrow> 'le + unit"
  lv_error_text :: "'le \<Rightarrow> message"

definition live_error :: "('l, 'le) live_ops \<Rightarrow> 'le \<Rightarrow> error" where
  "live_error lv e = Eval (Lit ''midi live: '' # lv_error_text lv e)"

record 'l live_site =
  ls_record :: device_record
  ls_session :: 'l
  ls_site :: "'l eval_site"

text \<open>
  Closing the wrapped site on an error path; the flag says that \<open>close\<close> was called on it. A
  failing close replaces the error.
\<close>

definition close_and_fail :: "'l eval_site \<Rightarrow> error \<Rightarrow> 'a result \<times> bool" where
  "close_and_fail site e = (and_then (es_close site) (\<lambda>_. Err e), True)"

definition live_from_eval_site ::
  "('l, 'le) live_ops \<Rightarrow> symbol \<Rightarrow> 'l eval_site \<Rightarrow> 'l live_site result \<times> bool" where
  "live_from_eval_site lv i site =
     (let r = es_record site in
      if dr_kind r \<noteq> MidiKind
      then close_and_fail site (Eval ([Lit ''open_live: device ''] @ quoted i @ [Lit '' is not MIDI'']))
      else let direction = live_direction_of (dr_direction r);
        with_session = (\<lambda>session.
          if lv_direction lv session \<noteq> direction
          then close_and_fail site (Eval ([Lit ''open_live: device ''] @ quoted i @
                 [Lit '' live session direction does not match catalog record'']))
          else (Ok \<lparr>ls_record = r, ls_session = session, ls_site = site\<rparr>, False))
      in case es_live site of
        Some (Inr session) \<Rightarrow> with_session session
      | Some (Inl e) \<Rightarrow> close_and_fail site e
      | None \<Rightarrow>
          (case lv_modeled lv direction of
             Inl e \<Rightarrow> (Err (live_error lv e), False)
           | Inr session \<Rightarrow> with_session session))"

definition live_placement :: "'l live_site \<Rightarrow> placement" where
  "live_placement s = dr_placement (ls_record s)"

definition live_site_close :: "('l, 'le) live_ops \<Rightarrow> 'l live_site \<Rightarrow> unit result" where
  "live_site_close lv s =
     and_then (map_err (live_error lv) (lv_close lv (ls_session s))) (\<lambda>_. es_close (ls_site s))"

definition open_live ::
  "('l, 'le) live_ops \<Rightarrow> symbol \<Rightarrow> 'l catalog \<Rightarrow> 'l live_site result" where
  "open_live lv i c = and_then (catalog_open i c) (\<lambda>site. fst (live_from_eval_site lv i site))"

definition open_live_checked ::
  "('cx, 'h) context_ops \<Rightarrow> ('l, 'le) live_ops \<Rightarrow> symbol \<Rightarrow> 'l catalog \<Rightarrow> 'cx \<Rightarrow>
   'l live_site result \<times> 'cx" where
  "open_live_checked ops lv i c cx =
     (let (opened, cx') = catalog_open_checked ops i c cx
      in (and_then opened (\<lambda>site. fst (live_from_eval_site lv i site)), cx'))"

subsection \<open>What the catalog relies on\<close>

text \<open>A provider opens, under an id, the first of its own rows of that id.\<close>

locale row_provider =
  fixes records_of :: "'e \<Rightarrow> device_record list result"
    and open_id :: "'e \<Rightarrow> symbol \<Rightarrow> 'l eval_site result"
  assumes open_first: "records_of e = Ok records \<Longrightarrow> find (\<lambda>r. dr_id r = i) records = Some r \<Longrightarrow>
    open_id e i = Ok site \<Longrightarrow> es_record site = r"
begin

text \<open>So a catalog of such providers opens the row that its enumeration finds first.\<close>

lemma catalog_opens_first:
  "catalog_enumerate (map (\<lambda>e. \<lparr>pv_enumerate = records_of e, pv_open = open_id e\<rparr>) es) = Ok records \<Longrightarrow>
   find (\<lambda>r. dr_id r = i) records = Some r \<Longrightarrow>
   catalog_open i (map (\<lambda>e. \<lparr>pv_enumerate = records_of e, pv_open = open_id e\<rparr>) es) = Ok site \<Longrightarrow>
   es_record site = r"
proof (induction es arbitrary: records)
  case Nil
  then show ?case by simp
next
  case (Cons e es)
  from Cons.prems(1) obtain rs rss where rs: "records_of e = Ok rs"
    "catalog_enumerate (map (\<lambda>e. \<lparr>pv_enumerate = records_of e, pv_open = open_id e\<rparr>) es) = Ok rss"
    "records = rs @ rss"
    by (auto simp: catalog_enumerate_def result_simps)
  show ?case
  proof (cases "find (\<lambda>r. dr_id r = i) rs")
    case None
    then have "\<not> list_ex (\<lambda>r. dr_id r = i) rs"
      by (auto simp: find_None_iff list_ex_iff)
    moreover have "find (\<lambda>r. dr_id r = i) rss = Some r"
      using Cons.prems(2) None rs(3) by (induction rs arbitrary: records) (auto split: if_splits)
    ultimately show ?thesis
      using Cons.IH [OF rs(2)] Cons.prems(3) rs(1) by simp
  next
    case (Some r')
    then have "r' = r"
      using Cons.prems(2) rs(3) by (induction rs arbitrary: records) (auto split: if_splits)
    moreover have "list_ex (\<lambda>r. dr_id r = i) rs"
      using find_Some_mem [OF Some] by (auto simp: list_ex_iff)
    ultimately show ?thesis
      using open_first [OF rs(1) Some] Cons.prems(3) rs(1) by simp
  qed
qed

end

interpretation table: row_provider "\<lambda>(name, records). Ok records" "\<lambda>(name, records). table_open name records"
  by unfold_locales (auto simp: table_open_def row_site_def result_simps)

text \<open>A catalog of tables; every catalog the code builds is one.\<close>

definition table_catalog :: "(string \<times> device_record list) list \<Rightarrow> 'l catalog" where
  "table_catalog es = map (\<lambda>(name, records). table_provider name records) es"

lemma default_modeled_tables: "default_modeled = table_catalog
    [(''ModeledMidiProvider'', modeled_midi_records), (''ModeledAudioProvider'', modeled_audio_records)]"
  by (simp add: default_modeled_def catalog_register_def catalog_new_def table_catalog_def
      modeled_audio_provider_def modeled_midi_provider_def)

lemma register_tables:
  "\<exists>es'. register_provider_sites shuffle r (table_catalog es) = table_catalog (es @ es')"
  "\<exists>es'. register_registry_devices site_kind libs (table_catalog es) = table_catalog (es @ es')"
  by (auto simp: register_provider_sites_def register_registry_devices_def catalog_register_def
      table_catalog_def Let_def intro: exI [of _ "[]"] exI [of _ "[(_, _)]"])

lemma table_catalog_opens_first:
  assumes "catalog_enumerate (table_catalog es :: 'a catalog) = Ok records"
    and "find (\<lambda>r. dr_id r = i) records = Some r" and "catalog_open i (table_catalog es) = Ok (site :: 'a eval_site)"
  shows "es_record site = r"
proof -
  have eq: "(table_catalog es :: 'a catalog) = map (\<lambda>e. \<lparr>pv_enumerate = (\<lambda>(name, records). Ok records) e,
      pv_open = (\<lambda>(name, records). table_open name records) e\<rparr>) es"
    by (auto simp: table_catalog_def table_provider_def)
  show ?thesis
    by (rule table.catalog_opens_first [OF assms(1) [unfolded eq] assms(2) assms(3) [unfolded eq]])
qed

subsection \<open>Enumerations\<close>

lemma dedup_ids_sublist: "set (dedup_ids xs) \<subseteq> set xs"
  by (induction xs rule: dedup_ids.induct) auto

lemma dedup_ids_cover: "dr_id ` set (dedup_ids xs) = dr_id ` set xs"
  by (induction xs rule: dedup_ids.induct) auto

lemma dedup_ids_sorted: "sorted (map f xs) \<Longrightarrow> sorted (map f (dedup_ids xs))"
proof (induction xs rule: dedup_ids.induct)
  case (3 x y ys)
  then show ?case
    using dedup_ids_sublist [of "y # ys"] by auto
qed simp_all

lemma dedup_ids_eq_Nil [simp]: "dedup_ids xs = [] \<longleftrightarrow> xs = []"
  by (induction xs rule: dedup_ids.induct) auto

text \<open>Where rows of one id stand together, removing equal neighbours leaves every id once.\<close>

lemma dedup_ids_distinct:
  assumes "sorted (map (\<lambda>r. f (dr_id r)) xs)" and "inj_on f (dr_id ` set xs)"
  shows "distinct (map dr_id (dedup_ids xs))"
  using assms
proof (induction xs rule: dedup_ids.induct)
  case (3 x y ys)
  show ?case
  proof (cases "dr_id y = dr_id x")
    case True
    have "sorted (map (\<lambda>r. f (dr_id r)) (x # ys))"
      using 3(3) by (auto simp: True)
    moreover have "inj_on f (dr_id ` set (x # ys))"
      using 3(4) by (rule inj_on_subset) auto
    ultimately show ?thesis
      using 3(1) True by simp
  next
    case False
    have tail: "distinct (map dr_id (dedup_ids (y # ys)))"
      using False 3(2) 3(3) inj_on_subset [OF 3(4), of "dr_id ` set (y # ys)"] by auto
    have "dr_id x \<notin> dr_id ` set (y # ys)"
    proof (rule notI)
      assume "dr_id x \<in> dr_id ` set (y # ys)"
      then obtain z where z: "z \<in> set (y # ys)" "dr_id z = dr_id x"
        unfolding image_iff by metis
      have "f (dr_id x) \<le> f (dr_id y)" "f (dr_id y) \<le> f (dr_id z)"
        using 3(3) z(1) by auto
      then have "f (dr_id y) = f (dr_id x)"
        using z(2) by simp
      then have "dr_id y = dr_id x"
        by (rule inj_onD [OF 3(4)]) auto
      with False show False ..
    qed
    then have "dr_id x \<notin> dr_id ` set (dedup_ids (y # ys))"
      unfolding dedup_ids_cover .
    with tail False show ?thesis by simp
  qed
qed simp_all

lemma set_map_filter_iff: "r \<in> set (List.map_filter f xs) \<longleftrightarrow> (\<exists>x \<in> set xs. f x = Some r)"
  by (force simp: map_filter_def)

lemma registry_site_recordE:
  assumes "registry_site_record site_kind x = Some r"
  obtains "xr_kind x = site_kind" "sym_namespace (xr_symbol x) = Some ''audio/site''" "\<not> xr_invalid x"
    "dr_id r = xr_symbol x" "dr_placement r = Hardware (xr_symbol x)" "dr_direction r = CatalogDuplex"
    "r = \<lparr>dr_id = xr_symbol x, dr_display_name = sym_name (xr_symbol x) @ '' audio site'',
        dr_kind = AudioKind, dr_direction = CatalogDuplex, dr_placement = Hardware (xr_symbol x)\<rparr>"
  using assms by (auto simp: registry_site_record_def split: if_splits)

lemma collect_names_spec:
  "collect_names rs (names, seen) = (names', seen') \<Longrightarrow> distinct names \<Longrightarrow>
   distinct names' \<and>
   set names' = set names \<union> {sym_name t |t. Hardware t \<in> dr_placement ` set rs} \<and>
   seen' = (seen \<or> Modeled \<in> dr_placement ` set rs)"
proof (induction rs arbitrary: names seen)
  case (Cons r rs)
  show ?case
  proof (cases "dr_placement r")
    case Modeled
    then show ?thesis
      using Cons.IH [of names True] Cons.prems by auto
  next
    case (Hardware t)
    then show ?thesis
      using Cons.IH [of "push_unique (sym_name t) names" seen] Cons.prems by (auto simp: push_unique_def)
  qed
qed simp

subsection \<open>Properties\<close>

lemma catalog_enumerate_tables: "catalog_enumerate (table_catalog es :: 'l catalog) = Ok (concat (map snd es))"
  unfolding catalog_enumerate_def table_catalog_def
  by (induction es) (auto simp: table_provider_def and_then_def split: sum.splits)

lemma record_open_plan_sel [simp]:
  "op_requires (record_open_plan r) = [stream_host_capability]"
  "op_effect_kinds (record_open_plan r) = device_effect_kinds (dr_direction r)"
  by (simp_all add: record_open_plan_def open_plan_new_def)

text \<open>What a site that a checked open answers stands for.\<close>

definition authorized_row ::
  "('cx, 'h) context_ops \<Rightarrow> ('cx \<Rightarrow> 'h effect list) \<Rightarrow> symbol \<Rightarrow> device_record list \<Rightarrow> 'cx \<Rightarrow> 'cx \<Rightarrow> device_record \<Rightarrow> bool" where
  "authorized_row ops ledger i records cx cx' r \<longleftrightarrow>
     cx_require ops cx stream_host_capability = Ok () \<and> dr_id r = i \<and> find (\<lambda>r. dr_id r = i) records = Some r \<and>
     (\<exists>new. ledger cx' = ledger cx @ new \<and> map ef_kind new = device_effect_kinds (dr_direction r) \<and>
        list_all (planned (record_open_plan r)) new)"

lemma catalog_open_checked_row:
  assumes "ledger_laws ops ledger"
    and "catalog_open_checked ops i (table_catalog es :: 'l catalog) cx = (Ok site, cx')"
  shows "authorized_row ops ledger i (concat (map snd es)) cx cx' (es_record site)"
proof (cases "find (\<lambda>r. dr_id r = i) (concat (map snd es))")
  case None
  with assms(2) show ?thesis
    by (simp add: catalog_open_checked_def catalog_enumerate_tables)
next
  case (Some r)
  then have enf: "plan_enforce ops (record_open_plan r) cx = (Ok (), cx')"
    "catalog_open i (table_catalog es :: 'l catalog) = Ok site"
    using assms(2) by (auto simp: catalog_open_checked_def catalog_enumerate_tables split: prod.splits sum.splits)
  have row: "es_record site = r"
    by (rule table_catalog_opens_first [OF catalog_enumerate_tables Some enf(2)])
  from plan_enforce_ledger [OF assms(1) enf(1)] obtain new where "ledger cx' = ledger cx @ new"
    "device_effect_kinds (dr_direction r) = map ef_kind new" "list_all (planned (record_open_plan r)) new"
    "cx_require ops cx stream_host_capability = Ok ()"
    by auto
  with Some row find_Some_mem [OF Some] show ?thesis
    by (auto simp: authorized_row_def)
qed

lemma catalog_open_checked_refused:
  assumes "catalog_open_checked ops i (table_catalog es :: 'l catalog) cx = (out, cx')"
    and "cx_require ops cx stream_host_capability \<noteq> Ok () \<or> i \<notin> dr_id ` set (concat (map snd es))"
  shows "cx' = cx \<and> (\<exists>e. out = Err e)"
proof (cases "find (\<lambda>r. dr_id r = i) (concat (map snd es))")
  case None
  with assms(1) show ?thesis
    by (auto simp: catalog_open_checked_def catalog_enumerate_tables)
next
  case (Some r)
  with assms(2) find_Some_mem [OF Some] obtain e where "cx_require ops cx stream_host_capability = Err e"
    by (cases "cx_require ops cx stream_host_capability") force+
  with Some assms(1) show ?thesis
    by (auto simp: catalog_open_checked_def catalog_enumerate_tables plan_enforce_def)
qed

text \<open>
  C12. A checked open through a catalog of the repository's providers opens exactly the row whose
  authority was checked: it answers a site only when \<open>stream.host\<close> is granted, the site's record
  is the first enumerated row with the id, and the ledger has grown by exactly the effects of
  that row's direction, planned for it; without the grant, or for an unknown id, the context is
  untouched and nothing is opened.
\<close>
theorem catalog_open_authorizes_row:
  assumes "ledger_laws ops ledger" and "catalog_open_checked ops i (table_catalog es :: 'l catalog) cx = (out, cx')"
  shows "catalog_enumerate (table_catalog es :: 'l catalog) = Ok (concat (map snd es)) \<and>
    (\<forall>site. out = Ok site \<longrightarrow> authorized_row ops ledger i (concat (map snd es)) cx cx' (es_record site)) \<and>
    (cx_require ops cx stream_host_capability \<noteq> Ok () \<or> i \<notin> dr_id ` set (concat (map snd es)) \<longrightarrow>
      cx' = cx \<and> (\<exists>e. out = Err e))"
  using catalog_open_checked_row [OF assms(1), where ?'l = 'l] catalog_open_checked_refused [OF assms(2)] assms(2)
  by (intro conjI catalog_enumerate_tables) blast+

theorem catalog_open_authorizes_row_witness:
  "\<exists>site cx'. catalog_open_checked demo_ops (symbol_new ''audio/model/stereo-0'')
      (default_modeled :: nat catalog) \<lparr>dc_grants = [''stream.host''], dc_next = 0, dc_ledger = []\<rparr> = (Ok site, cx') \<and>
    map ef_kind (dc_ledger cx') = [device_read_kind, device_write_kind]"
proof -
  let ?i = "symbol_new ''audio/model/stereo-0''"
  let ?cx = "\<lparr>dc_grants = [''stream.host''], dc_next = 0, dc_ledger = []\<rparr> :: demo_cx"
  obtain out cx' where run: "catalog_open_checked demo_ops ?i (default_modeled :: nat catalog) ?cx = (out, cx')"
    by (cases "catalog_open_checked demo_ops ?i (default_modeled :: nat catalog) ?cx")
  have run_def: "out = fst (catalog_open_checked demo_ops ?i (default_modeled :: nat catalog) ?cx)"
    using run by simp
  have "\<exists>site. out = Ok site \<and> dr_direction (es_record site) = CatalogDuplex"
    unfolding run_def default_modeled_tables
    by (simp add: catalog_open_checked_def catalog_enumerate_def table_catalog_def table_provider_def
        modeled_midi_records_def modeled_audio_records_def modeled_midi_input_def modeled_midi_output_def
        modeled_audio_from_card_def audio_from_card_def record_modeled_def audio_card_modeled_def
        audio_site_key_new_def plan_enforce_def record_open_plan_def open_plan_new_def demo_ops_def
        stream_host_capability_def table_open_def row_site_def)
  then obtain site where site: "out = Ok site" "dr_direction (es_record site) = CatalogDuplex"
    by blast
  have "map ef_kind (dc_ledger cx') = [device_read_kind, device_write_kind]"
    using catalog_open_authorizes_row [OF demo_ledger run [unfolded default_modeled_tables]] site
    by (auto simp: authorized_row_def)
  with site(1) run show ?thesis by auto
qed


lemma registry_ids_inj:
  "inj_on as_qualified_str (dr_id ` {r. \<exists>x \<in> set xs. registry_site_record site_kind x = Some r})"
proof (intro inj_onI)
  fix s t
  assume "s \<in> dr_id ` {r. \<exists>x \<in> set xs. registry_site_record site_kind x = Some r}"
    "t \<in> dr_id ` {r. \<exists>x \<in> set xs. registry_site_record site_kind x = Some r}"
    and same: "as_qualified_str s = as_qualified_str t"
  then have "sym_namespace s = Some ''audio/site''" "sym_namespace t = Some ''audio/site''"
    by (auto elim!: registry_site_recordE)
  with same show "s = t"
    by (cases s; cases t) (auto simp: as_qualified_str_def)
qed

lemma registry_site_record_id:
  "registry_site_record site_kind x = Some r \<Longrightarrow> registry_site_record site_kind y = Some r' \<Longrightarrow>
   dr_id r = dr_id r' \<Longrightarrow> r = r'"
  by (auto simp: registry_site_record_def split: if_splits)

lemma dedup_ids_set:
  assumes "\<And>r r'. r \<in> set xs \<Longrightarrow> r' \<in> set xs \<Longrightarrow> dr_id r = dr_id r' \<Longrightarrow> r = r'"
  shows "set (dedup_ids xs) = set xs"
proof (intro equalityI dedup_ids_sublist subsetI)
  fix r
  assume r: "r \<in> set xs"
  then obtain r' where "r' \<in> set (dedup_ids xs)" "dr_id r = dr_id r'"
    using dedup_ids_cover [of xs] by (metis (no_types, lifting) image_iff)
  with r assms dedup_ids_sublist show "r \<in> set (dedup_ids xs)"
    by blast
qed

lemma registry_devices_set:
  "set (registry_devices_records site_kind libs) = {r. \<exists>x \<in> set (concat libs). registry_site_record site_kind x = Some r}"
  (is "_ = ?rows")
proof -
  have rows: "set (List.map_filter (registry_site_record site_kind) (concat libs)) = ?rows"
    by (rule set_eqI) (simp only: set_map_filter_iff mem_Collect_eq)
  have "set (registry_devices_records site_kind libs) = set (sort_key (\<lambda>r. as_qualified_str (dr_id r))
      (List.map_filter (registry_site_record site_kind) (concat libs)))"
    unfolding registry_devices_records_def
  proof (rule dedup_ids_set)
    fix r r'
    assume "r \<in> set (sort_key (\<lambda>r. as_qualified_str (dr_id r))
        (List.map_filter (registry_site_record site_kind) (concat libs)))"
      "r' \<in> set (sort_key (\<lambda>r. as_qualified_str (dr_id r))
        (List.map_filter (registry_site_record site_kind) (concat libs)))" and same: "dr_id r = dr_id r'"
    then have "r \<in> ?rows" "r' \<in> ?rows"
      by (simp_all only: set_sort rows)
    then obtain x y where "registry_site_record site_kind x = Some r" "registry_site_record site_kind y = Some r'"
      by (simp only: mem_Collect_eq) (elim bexE, rule that)
    then show "r = r'"
      using same by (rule registry_site_record_id)
  qed
  then show ?thesis
    by (simp add: rows)
qed

lemma registry_devices_open:
  assumes "x \<in> set (concat libs)" "xr_kind x = site_kind" "sym_namespace (xr_symbol x) = Some ''audio/site''" "\<not> xr_invalid x"
  shows "\<exists>site. table_open ''RegistryAudioDevices'' (registry_devices_records site_kind libs) (xr_symbol x)
      = Ok (site :: 'l eval_site) \<and>
    dr_id (es_record site) = xr_symbol x \<and> es_placement site = Hardware (xr_symbol x) \<and>
    dr_direction (es_record site) = CatalogDuplex"
proof -
  let ?recs = "registry_devices_records site_kind libs"
  obtain r where "registry_site_record site_kind x = Some r" "dr_id r = xr_symbol x"
    using assms(2-4) by (simp add: registry_site_record_def)
  with assms(1) have "r \<in> set ?recs"
    unfolding registry_devices_set by blast
  with \<open>dr_id r = xr_symbol x\<close> obtain r' where r': "find (\<lambda>r. dr_id r = xr_symbol x) ?recs = Some r'"
    by (cases "find (\<lambda>r. dr_id r = xr_symbol x) ?recs") (auto simp: find_None_iff)
  then have "r' \<in> set ?recs" "dr_id r' = xr_symbol x"
    using find_Some_mem [OF r'] by auto
  then have "dr_placement r' = Hardware (xr_symbol x)" "dr_direction r' = CatalogDuplex"
    unfolding registry_devices_set by (auto elim!: registry_site_recordE)
  with r' \<open>dr_id r' = xr_symbol x\<close> show ?thesis
    by (simp add: table_open_def row_site_def result_simps)
qed



text \<open>
  The backend names of a kind are the transport names of its hardware rows, each once, and
  the \<open>modeled\<close> fallback exactly when it is asked for and either some row is modeled or no row
  names a transport; so a host asking with the fallback always has a candidate, and unless a
  transport is itself called \<open>modeled\<close> the fallback comes last.
\<close>
theorem backend_names_exact:
  assumes "catalog_enumerate c = Ok records" and "rows = filter (\<lambda>r. dr_kind r = kind) records"
    and "transports = {sym_name t |t. Hardware t \<in> dr_placement ` set rows}"
  shows "\<exists>names. backend_names kind fallback c = Ok names \<and> distinct names \<and>
    set names = transports \<union> (if fallback \<and> (Modeled \<in> dr_placement ` set rows \<or> transports = {})
      then {''modeled''} else {}) \<and>
    (fallback \<longrightarrow> names \<noteq> []) \<and>
    (''modeled'' \<in> set names \<and> ''modeled'' \<notin> transports \<longrightarrow> last names = ''modeled'')"
proof -
  obtain ns seen where ns: "collect_names rows ([], False) = (ns, seen)"
    by (cases "collect_names rows ([], False)")
  note spec = collect_names_spec [OF ns distinct.simps(1) [THEN iffD2, OF TrueI]]
  have set: "distinct ns" "set ns = transports" "seen = (Modeled \<in> dr_placement ` set rows)"
    using spec assms(3) by auto
  define names where "names = (if fallback \<and> (seen \<or> ns = []) then push_unique ''modeled'' ns else ns)"
  have run: "backend_names kind fallback c = Ok names"
    using assms(1,2) ns by (simp add: backend_names_def enumerate_kind_def names_def)
  have empty: "ns = [] \<longleftrightarrow> transports = {}"
    using set(2) by auto
  have "distinct names" "fallback \<longrightarrow> names \<noteq> []"
    using set(1) by (auto simp: names_def push_unique_def)
  moreover have "set names = transports \<union> (if fallback \<and> (Modeled \<in> dr_placement ` set rows \<or> transports = {})
      then {''modeled''} else {})"
    unfolding names_def push_unique_def set(3) empty using set(2) by auto
  moreover have "''modeled'' \<in> set names \<and> ''modeled'' \<notin> transports \<longrightarrow> last names = ''modeled''"
    using set(2) by (auto simp: names_def push_unique_def)
  ultimately show ?thesis
    using run by blast
qed

theorem backend_names_exact_witness:
  "\<exists>names. backend_names AudioKind True (default_modeled :: nat catalog) = Ok names \<and> set names = {''modeled''}"
proof -
  have enum: "catalog_enumerate (default_modeled :: nat catalog) = Ok (modeled_midi_records @ modeled_audio_records)"
    by (simp add: catalog_enumerate_def default_modeled_tables table_catalog_def table_provider_def result_simps)
  have "dr_placement ` set (filter (\<lambda>r. dr_kind r = AudioKind) (modeled_midi_records @ modeled_audio_records)) = {Modeled}"
    by code_simp
  with backend_names_exact [OF enum refl refl, of AudioKind True] show ?thesis
    by auto
qed

text \<open>
  C40. A live MIDI site is only made of a MIDI row with a session of the row's own direction, and
  keeps the row and the opened site. When that is refused the opened site is closed, with one
  exception: when the site brings no session and the modeled session cannot be made, the error is
  returned with the site dropped and never closed.
\<close>
theorem live_site_exact:
  assumes "live_from_eval_site lv i site = (out, closed)"
  shows "(\<forall>s. out = Ok s \<longrightarrow> \<not> closed \<and> ls_record s = es_record site \<and> ls_site s = site \<and>
      dr_kind (es_record site) = MidiKind \<and>
      lv_direction lv (ls_session s) = live_direction_of (dr_direction (es_record site))) \<and>
    (\<forall>e. out = Err e \<longrightarrow> (\<not> closed \<longleftrightarrow> dr_kind (es_record site) = MidiKind \<and> es_live site = None \<and>
      (\<exists>le. lv_modeled lv (live_direction_of (dr_direction (es_record site))) = Inl le \<and> e = live_error lv le)))"
  using assms
  by (auto simp: live_from_eval_site_def close_and_fail_def Let_def and_then_def
      split: if_splits option.splits sum.splits)

text \<open>A driver of live sessions: a session is its direction, and duplex sessions cannot be modeled.\<close>

definition demo_live :: "(live_direction, unit) live_ops" where
  "demo_live = \<lparr>lv_direction = id,
     lv_modeled = (\<lambda>d. if d = LiveDuplex then Inl () else Inr d),
     lv_close = (\<lambda>_. Inr ()), lv_error_text = (\<lambda>_. [Lit ''unsupported''])\<rparr>"

theorem live_site_exact_witness:
  "(\<exists>s. live_from_eval_site demo_live (symbol_new ''a'') (row_site (modeled_midi_input ''a'' ''b'')) = (Ok s, False) \<and>
     lv_direction demo_live (ls_session s) = LiveSource) \<and>
   (\<exists>e. live_from_eval_site demo_live (symbol_new ''a'') (row_site ((modeled_midi_input ''a'' ''b'')
     \<lparr>dr_direction := CatalogDuplex\<rparr>)) = (Err e, False))"
proof -
  let ?in = "row_site (modeled_midi_input ''a'' ''b'') :: live_direction eval_site"
  let ?dup = "row_site ((modeled_midi_input ''a'' ''b'') \<lparr>dr_direction := CatalogDuplex\<rparr>) :: live_direction eval_site"
  obtain out closed where run: "live_from_eval_site demo_live (symbol_new ''a'') ?in = (out, closed)"
    by (cases "live_from_eval_site demo_live (symbol_new ''a'') ?in")
  obtain out' closed' where run': "live_from_eval_site demo_live (symbol_new ''a'') ?dup = (out', closed')"
    by (cases "live_from_eval_site demo_live (symbol_new ''a'') ?dup")
  note row = row_site_def modeled_midi_input_def record_modeled_def demo_live_def live_from_eval_site_def
  have "\<exists>s. out = Ok s" "\<exists>e. out' = Err e \<and> e = live_error demo_live ()"
    using run run' by (auto simp: row Let_def)
  moreover have "dr_kind (es_record ?in) = MidiKind" "dr_direction (es_record ?in) = CatalogInput"
    "dr_kind (es_record ?dup) = MidiKind" "es_live ?dup = None"
    "lv_modeled demo_live (live_direction_of (dr_direction (es_record ?dup))) = Inl ()"
    by (simp_all add: row)
  ultimately show ?thesis
    using live_site_exact [OF run] live_site_exact [OF run'] run run' by auto
qed

end
