(* ===== verification/Consent.thy ===== *)
theory Consent
  imports ContentStore
begin

section \<open>Consent gates for worn and glasses streams\<close>

text \<open>
  \<open>src/watch.rs\<close> and \<open>src/glasses.rs\<close>: which capability a sample needs, and the gate a sample
  passes before it is ingested: kernel authority, consent of the same session, visible grant.
  The glasses half also files frames by reference in the content store and sweeps them under the
  retention of the consent receipts. The expression accessors and builders of \<open>sim_value\<close> and
  the receipt check \<open>require_with_consent\<close> of \<open>sim_lib_view_device\<close> are external, so they are
  arguments.
\<close>

text \<open>\<open>access::field\<close>, \<open>access::field_sym\<close>, \<open>build::map\<close> and \<open>build::qsym\<close>.\<close>

record value_ops =
  va_field :: "expr \<Rightarrow> string \<Rightarrow> expr option"
  va_field_sym :: "expr \<Rightarrow> string \<Rightarrow> symbol option"
  vb_map :: "(string \<times> expr) list \<Rightarrow> expr"
  vb_qsym :: "string \<Rightarrow> string \<Rightarrow> expr"

subsection \<open>Watch streams (\<open>src/watch.rs\<close>)\<close>

datatype watch_capability = WatchHealth | WatchLocation | WatchMic | WatchVendorReport

definition watch_all :: "watch_capability list" where
  "watch_all = [WatchHealth, WatchLocation, WatchMic, WatchVendorReport]"

primrec watch_as_str :: "watch_capability \<Rightarrow> capability" where
  "watch_as_str WatchHealth = ''watch/health''"
| "watch_as_str WatchLocation = ''watch/location''"
| "watch_as_str WatchMic = ''watch/mic''"
| "watch_as_str WatchVendorReport = ''watch/vendor-report''"

primrec watch_local_name :: "watch_capability \<Rightarrow> string" where
  "watch_local_name WatchHealth = ''health''"
| "watch_local_name WatchLocation = ''location''"
| "watch_local_name WatchMic = ''mic''"
| "watch_local_name WatchVendorReport = ''vendor-report''"

definition watch_capability_name :: "watch_capability \<Rightarrow> capability" where
  "watch_capability_name c = watch_as_str c"

definition watch_grant_symbol :: "watch_capability \<Rightarrow> symbol" where
  "watch_grant_symbol c = symbol_qualified ''watch'' (watch_local_name c)"

definition watch_from_name :: "string \<Rightarrow> watch_capability option" where
  "watch_from_name name = find (\<lambda>c. watch_as_str c = name) watch_all"

definition watch_health_grant :: symbol where
  "watch_health_grant = watch_grant_symbol WatchHealth"

definition watch_location_grant :: symbol where
  "watch_location_grant = watch_grant_symbol WatchLocation"

definition watch_mic_grant :: symbol where
  "watch_mic_grant = watch_grant_symbol WatchMic"

definition watch_vendor_report_grant :: symbol where
  "watch_vendor_report_grant = watch_grant_symbol WatchVendorReport"

definition required_symbol_field :: "value_ops \<Rightarrow> expr \<Rightarrow> string \<Rightarrow> symbol result" where
  "required_symbol_field va e name =
     (case va_field va e name of
        Some (ESymbol s) \<Rightarrow> Ok s
      | Some _ \<Rightarrow> Err (TypeMismatch ''symbol field'' ''non-symbol'')
      | None \<Rightarrow> Err (Eval [Lit ''missing field '', Show_str name]))"

definition ensure_worn_event_sample :: "value_ops \<Rightarrow> expr \<Rightarrow> unit result" where
  "ensure_worn_event_sample va event =
     and_then (required_symbol_field va event ''sample'') (\<lambda>sample.
     if sym_namespace sample = Some ''stream/device-sample'' \<and> sym_name sample = ''worn-event''
     then Ok ()
     else Err (HostError [Lit ''expected stream/device-sample worn-event'']))"

definition watch_capability_for_worn_event :: "value_ops \<Rightarrow> expr \<Rightarrow> watch_capability result" where
  "watch_capability_for_worn_event va event =
     and_then (ensure_worn_event_sample va event) (\<lambda>_.
     and_then (required_symbol_field va event ''sensor'') (\<lambda>sensor.
     and_then (ensure (sym_namespace sensor = Some ''stream/worn-sensor'')
       (HostError [Lit ''watch worn sensor must be in '', Lit ''stream/worn-sensor'',
                   Lit '', found '', Show_sym sensor])) (\<lambda>_.
     Ok (if sym_name sensor = ''gps'' \<or> sym_name sensor = ''route'' then WatchLocation
         else if sym_name sensor = ''mic-audio'' then WatchMic
         else WatchHealth))))"

definition require_watch_consent ::
  "('cx, 'h) context_ops \<Rightarrow> 'cx \<Rightarrow> watch_capability \<Rightarrow> symbol list \<Rightarrow> symbol \<Rightarrow> symbol \<Rightarrow> unit result" where
  "require_watch_consent ops cx c grants receipt_session session =
     and_then (cx_require ops cx (watch_capability_name c)) (\<lambda>_.
     and_then (ensure (receipt_session = session)
       (HostError [Show_str (watch_as_str c), Lit '': consent not for this session''])) (\<lambda>_.
     ensure (list_ex (\<lambda>grant. as_qualified_str grant = watch_as_str c) grants)
       (HostError [Show_str (watch_as_str c), Lit '' requires visible consent''])))"

definition require_watch_worn_ingest ::
  "value_ops \<Rightarrow> ('cx, 'h) context_ops \<Rightarrow> 'cx \<Rightarrow> expr \<Rightarrow> symbol list \<Rightarrow> symbol \<Rightarrow> symbol \<Rightarrow>
   watch_capability result" where
  "require_watch_worn_ingest va ops cx event grants receipt_session session =
     and_then (watch_capability_for_worn_event va event) (\<lambda>c.
     and_then (require_watch_consent ops cx c grants receipt_session session) (\<lambda>_. Ok c))"

subsection \<open>Glasses streams (\<open>src/glasses.rs\<close>)\<close>

datatype glasses_capability =
  GlassesPose | GlassesCamera | GlassesWorldAnchor | GlassesHand | GlassesMic | GlassesVendorReport

definition glasses_all :: "glasses_capability list" where
  "glasses_all = [GlassesPose, GlassesCamera, GlassesWorldAnchor, GlassesHand, GlassesMic,
     GlassesVendorReport]"

primrec glasses_as_str :: "glasses_capability \<Rightarrow> capability" where
  "glasses_as_str GlassesPose = ''glasses/pose''"
| "glasses_as_str GlassesCamera = ''glasses/camera''"
| "glasses_as_str GlassesWorldAnchor = ''glasses/world-anchor''"
| "glasses_as_str GlassesHand = ''glasses/hand''"
| "glasses_as_str GlassesMic = ''glasses/mic''"
| "glasses_as_str GlassesVendorReport = ''glasses/vendor-report''"

primrec glasses_local_name :: "glasses_capability \<Rightarrow> string" where
  "glasses_local_name GlassesPose = ''pose''"
| "glasses_local_name GlassesCamera = ''camera''"
| "glasses_local_name GlassesWorldAnchor = ''world-anchor''"
| "glasses_local_name GlassesHand = ''hand''"
| "glasses_local_name GlassesMic = ''mic''"
| "glasses_local_name GlassesVendorReport = ''vendor-report''"

definition glasses_capability_name :: "glasses_capability \<Rightarrow> capability" where
  "glasses_capability_name c = glasses_as_str c"

definition glasses_grant_symbol :: "glasses_capability \<Rightarrow> symbol" where
  "glasses_grant_symbol c = symbol_qualified ''glasses'' (glasses_local_name c)"

definition glasses_from_name :: "string \<Rightarrow> glasses_capability option" where
  "glasses_from_name name = find (\<lambda>c. glasses_as_str c = name) glasses_all"

definition glasses_pose_grant :: symbol where
  "glasses_pose_grant = glasses_grant_symbol GlassesPose"

definition glasses_camera_grant :: symbol where
  "glasses_camera_grant = glasses_grant_symbol GlassesCamera"

definition glasses_world_anchor_grant :: symbol where
  "glasses_world_anchor_grant = glasses_grant_symbol GlassesWorldAnchor"

definition glasses_hand_grant :: symbol where
  "glasses_hand_grant = glasses_grant_symbol GlassesHand"

definition glasses_mic_grant :: symbol where
  "glasses_mic_grant = glasses_grant_symbol GlassesMic"

definition glasses_vendor_report_grant :: symbol where
  "glasses_vendor_report_grant = glasses_grant_symbol GlassesVendorReport"

definition glasses_symbol_capability :: "symbol \<Rightarrow> glasses_capability option" where
  "glasses_symbol_capability s = map_of
     [((Some ''xr'', ''pose''), GlassesPose),
      ((Some ''xr'', ''camera-frame''), GlassesCamera),
      ((Some ''xr'', ''hand''), GlassesHand),
      ((Some ''xr'', ''mic-chunk''), GlassesMic),
      ((Some ''stream/device-sample'', ''xr/pose''), GlassesPose),
      ((Some ''stream/device-sample'', ''xr/camera-frame''), GlassesCamera),
      ((Some ''stream/device-sample'', ''xr/hand''), GlassesHand),
      ((Some ''stream/device-sample'', ''xr/mic-chunk''), GlassesMic),
      ((Some ''glasses'', ''world-anchor''), GlassesWorldAnchor),
      ((Some ''glasses'', ''vendor-report''), GlassesVendorReport)]
     (sym_namespace s, sym_name s)"

definition glasses_capability_for_sample :: "value_ops \<Rightarrow> expr \<Rightarrow> glasses_capability result" where
  "glasses_capability_for_sample va sample =
     (if va_field va sample ''world-anchor'' \<noteq> None then Ok GlassesWorldAnchor
      else and_then
        (ok_or (case va_field_sym va sample ''sample'' of
                  Some s \<Rightarrow> Some s
                | None \<Rightarrow> va_field_sym va sample ''kind'')
          (Eval [Lit ''missing glasses sample or kind field''])) (\<lambda>s.
        ok_or (glasses_symbol_capability s)
          (HostError [Lit ''no glasses consent capability for '', Show_sym s])))"

text \<open>The public fields of \<open>ConsentReceipt\<close>; an \<open>EdgeId\<close> is read as its symbol.\<close>

record consent_receipt =
  cr_session :: symbol
  cr_seq :: u64
  cr_grants :: "symbol list"
  cr_retain_ms :: u64

type_synonym 'cx consent_check = "'cx \<Rightarrow> capability \<Rightarrow> consent_receipt \<Rightarrow> symbol \<Rightarrow> unit result"

definition require_glasses_consent ::
  "'cx consent_check \<Rightarrow> 'cx \<Rightarrow> glasses_capability \<Rightarrow> consent_receipt \<Rightarrow> symbol \<Rightarrow> unit result" where
  "require_glasses_consent with_consent cx c receipt session = with_consent cx (glasses_as_str c) receipt session"

definition require_glasses_sample_ingest ::
  "value_ops \<Rightarrow> 'cx consent_check \<Rightarrow> 'cx \<Rightarrow> expr \<Rightarrow> consent_receipt \<Rightarrow> symbol \<Rightarrow>
   glasses_capability result" where
  "require_glasses_sample_ingest va with_consent cx sample receipt session =
     and_then (glasses_capability_for_sample va sample) (\<lambda>c.
     and_then (require_glasses_consent with_consent cx c receipt session) (\<lambda>_. Ok c))"

definition stored_glasses_value :: "value_ops \<Rightarrow> glasses_capability \<Rightarrow> expr \<Rightarrow> expr" where
  "stored_glasses_value va c val = vb_map va
     [(''kind'', vb_qsym va ''glasses'' ''content-frame''),
      (''capability'', ESymbol (glasses_grant_symbol c)),
      (glasses_local_name c, val)]"

definition store_glasses_frame ::
  "value_ops \<Rightarrow> glasses_capability \<Rightarrow> symbol \<Rightarrow> expr \<Rightarrow> consent_receipt \<Rightarrow> u64 \<Rightarrow> usize \<Rightarrow>
   content_store \<Rightarrow> (store_key \<times> store_evicted list) result \<times> content_store" where
  "store_glasses_frame va c ref_id val receipt inserted_tick size_bytes store =
     (let key = StoreKey ref_id;
          (r, store') = store_insert \<lparr>cf_key = key, cf_session = cr_session receipt,
            cf_receipt_seq = cr_seq receipt, cf_inserted_tick = inserted_tick,
            cf_size_bytes = size_bytes, cf_value = stored_glasses_value va c val\<rparr> store
      in (and_then r (\<lambda>evicted. Ok (key, evicted)), store'))"

definition glasses_retention_windows :: "consent_receipt list \<Rightarrow> retention_window list" where
  "glasses_retention_windows receipts =
     map (\<lambda>receipt. \<lparr>rw_session = cr_session receipt, rw_receipt_seq = cr_seq receipt,
            rw_retain_ms = cr_retain_ms receipt\<rparr>)
       (filter (\<lambda>receipt. list_ex (\<lambda>grant. sym_namespace grant = Some ''glasses'') (cr_grants receipt))
         receipts)"

definition sweep_glasses_retention ::
  "consent_receipt list \<Rightarrow> u64 \<Rightarrow> u16 \<Rightarrow> content_store \<Rightarrow> store_evicted list \<times> content_store" where
  "sweep_glasses_retention receipts now_tick adapt_hz store =
     sweep_retention now_tick adapt_hz (glasses_retention_windows receipts) store"

subsection \<open>Lemmas\<close>

lemma find_map_filter:
  "find P (map g (filter Q xs)) = map_option g (find (\<lambda>x. Q x \<and> P (g x)) xs)"
  by (induction xs) auto

lemma store_contains_frames:
  assumes "store_inv s"
  shows "store_contains k s \<longleftrightarrow> (\<exists>f. f \<in> set (store_frames s) \<and> cf_key f = k)"
  unfolding store_contains_def
  using store_inv_frames(3) [OF assms] store_inv_key [OF assms] by (metis not_None_eq)

lemma required_symbol_field_Ok: "required_symbol_field va e name = Ok s \<longleftrightarrow> va_field va e name = Some (ESymbol s)"
  by (auto simp: required_symbol_field_def split: option.splits expr.splits)

lemma symbol_parts: "s = symbol_qualified ns n \<longleftrightarrow> sym_namespace s = Some ns \<and> sym_name s = n"
  by (cases s) (auto simp: symbol_qualified_def)

lemma worn_event_class:
  "watch_capability_for_worn_event va event = Ok c \<longleftrightarrow>
     va_field va event ''sample'' = Some (ESymbol (symbol_qualified ''stream/device-sample'' ''worn-event'')) \<and>
     (\<exists>sensor. va_field va event ''sensor'' = Some (ESymbol (symbol_qualified ''stream/worn-sensor'' sensor)) \<and>
       c = (if sensor = ''gps'' \<or> sensor = ''route'' then WatchLocation
            else if sensor = ''mic-audio'' then WatchMic else WatchHealth))"
  (is "?ok \<longleftrightarrow> ?sample \<and> (\<exists>sensor. ?class sensor)")
proof
  assume ?ok
  then obtain sample sensor where parts: "va_field va event ''sample'' = Some (ESymbol sample)"
    "sym_namespace sample = Some ''stream/device-sample''" "sym_name sample = ''worn-event''"
    "va_field va event ''sensor'' = Some (ESymbol sensor)" "sym_namespace sensor = Some ''stream/worn-sensor''"
    "c = (if sym_name sensor = ''gps'' \<or> sym_name sensor = ''route'' then WatchLocation
            else if sym_name sensor = ''mic-audio'' then WatchMic else WatchHealth)"
    by (auto simp: watch_capability_for_worn_event_def ensure_worn_event_sample_def and_then_eq_Ok
        required_symbol_field_Ok split: if_splits)
  then have "sample = symbol_qualified ''stream/device-sample'' ''worn-event''"
    "sensor = symbol_qualified ''stream/worn-sensor'' (sym_name sensor)"
    by (simp_all add: symbol_parts)
  with parts have ?sample "?class (sym_name sensor)"
    by simp_all
  then show "?sample \<and> (\<exists>sensor. ?class sensor)"
    by blast
next
  assume "?sample \<and> (\<exists>sensor. ?class sensor)"
  then show ?ok
    by (auto simp: watch_capability_for_worn_event_def ensure_worn_event_sample_def
        required_symbol_field_def result_simps)
qed

lemma store_glasses_frame_ok:
  assumes "store_inv store" and "size_bytes \<le> cs_max_bytes store"
  shows "\<exists>evicted store1. store_glasses_frame va c ref_id val receipt tick size_bytes store
    = (Ok (StoreKey ref_id, evicted), store1)"
  using store_insert_ok [OF assms(1), of "\<lparr>cf_key = StoreKey ref_id, cf_session = cr_session receipt,
    cf_receipt_seq = cr_seq receipt, cf_inserted_tick = tick, cf_size_bytes = size_bytes,
    cf_value = stored_glasses_value va c val\<rparr>"] assms(2)
  by (auto simp: store_glasses_frame_def result_simps)

text \<open>The watch gate in two parts: the class of the event, and the consent for that class.\<close>

lemma watch_gate_Ok:
  "require_watch_worn_ingest va ops cx event grants receipt_session session = Ok c \<longleftrightarrow>
     watch_capability_for_worn_event va event = Ok c \<and> cx_require ops cx (watch_as_str c) = Ok () \<and>
     receipt_session = session \<and> watch_as_str c \<in> as_qualified_str ` set grants"
  by (auto simp: require_watch_worn_ingest_def require_watch_consent_def watch_capability_name_def and_then_eq_Ok
      list_ex_iff intro: rev_image_eqI)

subsection \<open>Properties\<close>

text \<open>
  C33. The watch gate lets a worn event in exactly when the event is a worn-event sample of a worn
  sensor, the kernel grants the capability of that sensor's class (location for gps and route,
  microphone for its audio, health for every other sensor), the consent receipt is of the
  same session, and the grants show that capability; and it answers that capability.
\<close>
theorem watch_ingest_exact:
  "require_watch_worn_ingest va ops cx event grants receipt_session session = Ok c \<longleftrightarrow>
     va_field va event ''sample'' = Some (ESymbol (symbol_qualified ''stream/device-sample'' ''worn-event'')) \<and>
     (\<exists>sensor. va_field va event ''sensor'' = Some (ESymbol (symbol_qualified ''stream/worn-sensor'' sensor)) \<and>
       c = (if sensor = ''gps'' \<or> sensor = ''route'' then WatchLocation
            else if sensor = ''mic-audio'' then WatchMic else WatchHealth)) \<and>
     cx_require ops cx (watch_as_str c) = Ok () \<and> receipt_session = session \<and>
     watch_as_str c \<in> as_qualified_str ` set grants"
  by (simp only: watch_gate_Ok worn_event_class conj_assoc)


text \<open>A frame that is filed is the one frame of the store with its key.\<close>

lemma store_glasses_frame_files:
  assumes "store_inv store"
    and "store_glasses_frame va c ref_id val receipt tick size_bytes store = (Ok (key, evicted), store1)"
    and "frame = \<lparr>cf_key = StoreKey ref_id, cf_session = cr_session receipt, cf_receipt_seq = cr_seq receipt,
      cf_inserted_tick = tick, cf_size_bytes = size_bytes, cf_value = stored_glasses_value va c val\<rparr>"
  shows "key = StoreKey ref_id \<and> store_inv store1 \<and>
    (\<forall>f. f \<in> set (store_frames store1) \<and> cf_key f = key \<longleftrightarrow> f = frame)"
proof -
  have ins: "store_insert frame store = (Ok evicted, store1)" "key = StoreKey ref_id"
    using assms(2) by (auto simp: store_glasses_frame_def Let_def assms(3) [symmetric] and_then_eq_Ok
        split: prod.splits)
  have "cf_size_bytes frame \<le> cs_max_bytes store"
    using ins(1) by (auto simp: store_insert_def split: if_splits)
  then obtain kept where inv1: "store_inv store1" and last: "kept @ [frame] = store_frames store1"
    using store_insert_ok [OF assms(1), of frame] ins(1)
    by (auto simp: insert_spec_def Let_def split: prod.splits)
  have in1: "frame \<in> set (store_frames store1)"
    unfolding last [symmetric] by simp
  have "bt_get (cs_entries store1) key = Some frame" "cf_key frame = key"
    using store_inv_frames(3) [OF inv1, of frame] in1 ins(2) by (simp_all add: assms(3))
  then have "f \<in> set (store_frames store1) \<and> cf_key f = key \<longleftrightarrow> f = frame" for f
    using store_inv_frames(3) [OF inv1, of f] in1 by (metis option.inject)
  with ins(2) inv1 show ?thesis
    by blast
qed

text \<open>
  A glasses frame filed under a receipt is still there after a retention sweep exactly when
  the first glasses receipt of its session and number among those swept with still retains it
  on the modelled clock: revoking the receipt, or taking the glasses grants from it, removes
  the frame at the next sweep, and so does any elapsed time beyond the retention.
\<close>
theorem glasses_frame_retained:
  assumes "store_inv store"
    and "store_glasses_frame va c ref_id val receipt tick size_bytes store = (Ok (key, evicted), store1)"
    and "sweep_glasses_retention receipts now hz store1 = (swept, store2)"
  shows "store_inv store2 \<and> key = StoreKey ref_id \<and> store_contains key store1 \<and>
    (store_contains key store2 \<longleftrightarrow>
      (\<exists>r. find (\<lambda>r. (\<exists>g \<in> set (cr_grants r). sym_namespace g = Some ''glasses'') \<and>
              cr_session r = cr_session receipt \<and> cr_seq r = cr_seq receipt) receipts = Some r \<and>
           elapsed_ms now tick hz \<le> cr_retain_ms r)) \<and>
    (key \<in> se_key ` set swept \<longleftrightarrow> \<not> store_contains key store2)"
proof -
  define frame where "frame = \<lparr>cf_key = StoreKey ref_id, cf_session = cr_session receipt,
    cf_receipt_seq = cr_seq receipt, cf_inserted_tick = tick, cf_size_bytes = size_bytes,
    cf_value = stored_glasses_value va c val\<rparr>"
  note filed = store_glasses_frame_files [OF assms(1,2) frame_def]
  then have ref: "key = StoreKey ref_id" and inv1: "store_inv store1"
    and mine: "\<And>f. f \<in> set (store_frames store1) \<and> cf_key f = key \<longleftrightarrow> f = frame"
    by blast+
  let ?expired = "frame_expired now hz (glasses_retention_windows receipts)"
  have swept: "swept = evictions retention_reason (filter ?expired (bt_values (cs_entries store1)))"
    "store_inv store2" "store_frames store2 = filter (\<lambda>f. \<not> ?expired f) (store_frames store1)"
    using sweep_frames [OF inv1, of now hz "glasses_retention_windows receipts"] assms(3)
    by (auto simp: sweep_glasses_retention_def)
  have "store_contains key store1" "store_contains key store2 \<longleftrightarrow> \<not> ?expired frame"
    unfolding store_contains_frames [OF inv1] store_contains_frames [OF swept(2)] swept(3)
      set_filter mem_Collect_eq
    using mine by metis+
  moreover have "key \<in> se_key ` set swept \<longleftrightarrow> ?expired frame"
    using mine unfolding swept(1) evictions_def by (force simp: bt_values_keys(2) [OF inv1])
  moreover have "\<not> ?expired frame \<longleftrightarrow>
      (\<exists>r. find (\<lambda>r. (\<exists>g \<in> set (cr_grants r). sym_namespace g = Some ''glasses'') \<and>
              cr_session r = cr_session receipt \<and> cr_seq r = cr_seq receipt) receipts = Some r \<and>
           elapsed_ms now tick hz \<le> cr_retain_ms r)"
    by (auto simp: frame_expired_def glasses_retention_windows_def find_map_filter frame_def list_ex_iff
        not_less split: option.splits)
  ultimately show ?thesis
    using ref swept(2) by blast
qed

text \<open>Expressions as maps from symbols, first entry of a name.\<close>

definition demo_values :: value_ops where
  "demo_values = \<lparr>
     va_field = (\<lambda>e name. case e of
         EMap kvs \<Rightarrow> map_option snd (find (\<lambda>kv. fst kv = ESymbol (symbol_new name)) kvs)
       | _ \<Rightarrow> None),
     va_field_sym = (\<lambda>e name. case e of
         EMap kvs \<Rightarrow> (case find (\<lambda>kv. fst kv = ESymbol (symbol_new name)) kvs of
             Some (_, ESymbol s) \<Rightarrow> Some s | _ \<Rightarrow> None)
       | _ \<Rightarrow> None),
     vb_map = (\<lambda>kvs. EMap (map (\<lambda>(k, v). (ESymbol (symbol_new k), v)) kvs)),
     vb_qsym = (\<lambda>ns n. ESymbol (symbol_qualified ns n))\<rparr>"

definition demo_receipt :: "symbol list \<Rightarrow> consent_receipt" where
  "demo_receipt grants = \<lparr>cr_session = symbol_new ''s'', cr_seq = 3, cr_grants = grants, cr_retain_ms = 1000\<rparr>"

theorem glasses_frame_retained_witness:
  "let receipt = demo_receipt [glasses_camera_grant];
       store1 = snd (store_glasses_frame demo_values GlassesCamera (symbol_new ''f'') ENil receipt 0 3 demo_store)
   in store_contains (StoreKey (symbol_new ''f'')) (snd (sweep_glasses_retention [receipt] 1 1 store1)) \<and>
      \<not> store_contains (StoreKey (symbol_new ''f'')) (snd (sweep_glasses_retention [receipt] 2 1 store1)) \<and>
      \<not> store_contains (StoreKey (symbol_new ''f'')) (snd (sweep_glasses_retention [demo_receipt []] 1 1 store1))"
proof -
  let ?receipt = "demo_receipt [glasses_camera_grant]"
  let ?filed = "store_glasses_frame demo_values GlassesCamera (symbol_new ''f'') ENil ?receipt 0 3 demo_store"
  have "3 \<le> cs_max_bytes demo_store"
    by (simp add: demo_store_def)
  from store_glasses_frame_ok [OF demo_store_inv this] obtain evicted store1
    where filed: "?filed = (Ok (StoreKey (symbol_new ''f''), evicted), store1)"
    by blast
  note retained = glasses_frame_retained [OF demo_store_inv filed prod.collapse [symmetric]]
  show ?thesis
    unfolding Let_def filed snd_conv
    using retained [of "[?receipt]" 1 1] retained [of "[?receipt]" 2 1] retained [of "[demo_receipt []]" 1 1]
    by (simp add: demo_receipt_def glasses_camera_grant_def glasses_grant_symbol_def elapsed_ms_def sat_sub_def
        sat_mul_def)
qed

text \<open>
  Capability names and grants of the two families agree: the name of a capability resolves
  to it and to nothing else, its grant symbol displays as its name, so that a grant can be
  compared with it as text, and no name belongs to both families.
\<close>
theorem consent_names_roundtrip:
  "(watch_from_name name = Some w \<longleftrightarrow> name = watch_as_str w) \<and>
   (glasses_from_name name = Some g \<longleftrightarrow> name = glasses_as_str g) \<and>
   as_qualified_str (watch_grant_symbol w) = watch_as_str w \<and>
   as_qualified_str (glasses_grant_symbol g) = glasses_as_str g \<and>
   watch_as_str w \<noteq> glasses_as_str g"
  by (cases w; cases g)
    (auto simp: watch_from_name_def watch_all_def glasses_from_name_def glasses_all_def
      watch_grant_symbol_def glasses_grant_symbol_def as_qualified_str_def)

end
