(* ===== verification/Lan.thy ===== *)
theory Lan
  imports Kernel
begin

section \<open>LAN peer placement (\<open>src/placement/lan.rs\<close>)\<close>

text \<open>
  Placing a stream fragment on a LAN peer: the two modes and the delay of the bar-aligned one at
  the width of the code, the gate that keeps pinned sample-domain fragments off the network
  unless the experimental capability is held, and the report with the rewritten output
  envelopes. Fragments, bridges, profiles, latencies and envelopes are types of
  \<open>sim_lib_stream_core\<close>: what the file calls on them is the record \<open>lan_ops\<close>.
\<close>

subsection \<open>The calls on the stream core\<close>

datatype latency_class = BufferedPreview | CollabBarDelay

datatype stream_capability = RemoteStream | BoundedStream | PreviewStream | LossyStream

text \<open>The arguments of \<open>StreamEnvelope::new_with_clock_domains\<close>, each with an accessor of its name.\<close>

record ('tk, 'cd, 'pr, 'pk) envelope_parts =
  en_stream_id :: symbol
  en_packet_id :: symbol
  en_media :: stream_media
  en_direction :: stream_direction
  en_sequence :: u64
  en_ticks :: "'tk list"
  en_clock_domain :: 'cd
  en_clock_domains :: "'cd list"
  en_profile :: 'pr
  en_diagnostics :: "symbol list"
  en_packet :: 'pk

record ('fr, 'ed, 'cd, 'ev, 'tk, 'pr, 'pk, 'br, 'lat) lan_ops =
  lo_fragment_id :: "'fr \<Rightarrow> symbol"
  lo_input_edges :: "'fr \<Rightarrow> 'ed list"
  lo_output_edges :: "'fr \<Rightarrow> 'ed list"
  lo_edge_domain :: "'ed \<Rightarrow> 'cd"
  lo_sample_domain :: 'cd
  lo_output_envelopes :: "'fr \<Rightarrow> 'ev list"
  lo_envelope_parts :: "'ev \<Rightarrow> ('tk, 'cd, 'pr, 'pk) envelope_parts"
  lo_envelope_new :: "('tk, 'cd, 'pr, 'pk) envelope_parts \<Rightarrow> 'ev result"
  lo_audio_preview :: 'pr
  lo_profile_new :: "symbol \<Rightarrow> latency_class \<Rightarrow> stream_capability list \<Rightarrow> 'pr result"
  lo_profile_name :: "'pr \<Rightarrow> symbol"
  lo_class_symbol :: "latency_class \<Rightarrow> symbol"
  lo_jitter_buffer :: "u32 \<Rightarrow> 'br"
  lo_latency_comp :: "u64 \<Rightarrow> 'br"
  lo_bridge_latency :: "'br \<Rightarrow> 'lat"
  lo_bridge_kind :: "'br \<Rightarrow> symbol"
  lo_latency_zero :: 'lat
  lo_latency_plus :: "'lat \<Rightarrow> 'lat \<Rightarrow> 'lat"
  lo_frame_count :: "'lat \<Rightarrow> nat"
  lo_packet_count :: "'lat \<Rightarrow> nat"

subsection \<open>Names\<close>

definition lan_peer_site :: symbol where
  "lan_peer_site = symbol_qualified ''stream/site'' ''lan-peer''"

definition lan_jitter_buffered_mode :: symbol where
  "lan_jitter_buffered_mode = symbol_qualified ''stream/lan-mode'' ''jitter-buffered''"

definition lan_bar_delay_mode :: symbol where
  "lan_bar_delay_mode = symbol_qualified ''stream/lan-mode'' ''collab-bardelay''"

definition lan_refusal_diagnostic :: symbol where
  "lan_refusal_diagnostic = symbol_qualified ''stream/lan-diagnostic'' ''pinned-sample-remote-refused''"

definition lan_experimental_diagnostic :: symbol where
  "lan_experimental_diagnostic =
     symbol_qualified ''stream/lan-diagnostic'' ''pinned-sample-remote-experimental''"

definition lan_experimental_capability :: capability where
  "lan_experimental_capability = ''stream.lan.experimental-remote-sample''"

subsection \<open>Modes\<close>

text \<open>\<open>JitterBuffered jitter_packets latency_comp_frames\<close>,
  \<open>BarDelay bars beats_per_bar tempo_bpm jitter_packets latency_comp_frames\<close>.\<close>

datatype lan_mode = JitterBuffered u32 u64 | BarDelay u32 u32 u32 u32 u64

definition jitter_buffered :: "u32 \<Rightarrow> u64 \<Rightarrow> lan_mode result" where
  "jitter_buffered jitter_packets latency_comp_frames =
     (if jitter_packets = 0 then Err (Eval [Lit ''LAN jitter buffer must retain at least one packet''])
      else Ok (JitterBuffered jitter_packets latency_comp_frames))"

definition default_beats_per_bar :: u32 where
  "default_beats_per_bar = 4"

definition bar_delay :: "u32 \<Rightarrow> u32 \<Rightarrow> u32 \<Rightarrow> u64 \<Rightarrow> lan_mode result" where
  "bar_delay bars tempo_bpm jitter_packets latency_comp_frames =
     (if bars = 0 then Err (Eval [Lit ''LAN bar-delay mode must delay at least one bar''])
      else if tempo_bpm = 0 then Err (Eval [Lit ''LAN bar-delay mode tempo must be greater than zero''])
      else if jitter_packets = 0 then Err (Eval [Lit ''LAN jitter buffer must retain at least one packet''])
      else Ok (BarDelay bars default_beats_per_bar tempo_bpm jitter_packets latency_comp_frames))"

primrec lan_mode_symbol :: "lan_mode \<Rightarrow> symbol" where
  "lan_mode_symbol (JitterBuffered jp lf) = lan_jitter_buffered_mode"
| "lan_mode_symbol (BarDelay bars beats tempo jp lf) = lan_bar_delay_mode"

primrec mode_latency_class :: "lan_mode \<Rightarrow> latency_class" where
  "mode_latency_class (JitterBuffered jp lf) = BufferedPreview"
| "mode_latency_class (BarDelay bars beats tempo jp lf) = CollabBarDelay"

primrec jitter_packets :: "lan_mode \<Rightarrow> u32" where
  "jitter_packets (JitterBuffered jp lf) = jp"
| "jitter_packets (BarDelay bars beats tempo jp lf) = jp"

primrec latency_comp_frames :: "lan_mode \<Rightarrow> u64" where
  "latency_comp_frames (JitterBuffered jp lf) = lf"
| "latency_comp_frames (BarDelay bars beats tempo jp lf) = lf"

text \<open>The outer \<open>None\<close> is the panic of a division by a zero tempo.\<close>

primrec bar_delay_millis :: "lan_mode \<Rightarrow> u64 option option" where
  "bar_delay_millis (JitterBuffered jp lf) = Some None"
| "bar_delay_millis (BarDelay bars beats tempo jp lf) =
     map_option Some
       (checked_div (sat_mul (sat_mul (ucast bars) (ucast beats)) 60000) (ucast tempo))"

primrec transport_profile ::
  "('fr, 'ed, 'cd, 'ev, 'tk, 'pr, 'pk, 'br, 'lat) lan_ops \<Rightarrow> lan_mode \<Rightarrow> 'pr result" where
  "transport_profile lo (JitterBuffered jp lf) = Ok (lo_audio_preview lo)"
| "transport_profile lo (BarDelay bars beats tempo jp lf) =
     lo_profile_new lo (symbol_qualified ''stream/profile'' ''lan-collab-bardelay'') CollabBarDelay
       [RemoteStream, BoundedStream, PreviewStream, LossyStream]"

definition mode_bridges ::
  "('fr, 'ed, 'cd, 'ev, 'tk, 'pr, 'pk, 'br, 'lat) lan_ops \<Rightarrow> lan_mode \<Rightarrow> 'br list" where
  "mode_bridges lo mode =
     [lo_jitter_buffer lo (jitter_packets mode), lo_latency_comp lo (latency_comp_frames mode)]"

subsection \<open>Requests and plans\<close>

record 'fr lan_request =
  lq_fragment :: 'fr
  lq_mode :: lan_mode
  lq_realtime_pinned :: bool
  lq_capabilities :: "capability list"

definition lan_request_new :: "'fr \<Rightarrow> lan_mode \<Rightarrow> 'fr lan_request" where
  "lan_request_new fragment mode = \<lparr>lq_fragment = fragment, lq_mode = mode,
     lq_realtime_pinned = False, lq_capabilities = []\<rparr>"

definition with_realtime_pin :: "bool \<Rightarrow> 'fr lan_request \<Rightarrow> 'fr lan_request" where
  "with_realtime_pin pinned req = req\<lparr>lq_realtime_pinned := pinned\<rparr>"

definition lan_with_capability :: "capability \<Rightarrow> 'fr lan_request \<Rightarrow> 'fr lan_request" where
  "lan_with_capability c req = req\<lparr>lq_capabilities := lq_capabilities req @ [c]\<rparr>"

record ('ev, 'br) lan_report =
  lr_fragment_id :: symbol
  lr_site :: symbol
  lr_mode :: lan_mode
  lr_bridges :: "'br list"
  lr_output_envelopes :: "'ev list"
  lr_diagnostics :: "symbol list"

definition fragment_has_sample_domain ::
  "('fr, 'ed, 'cd, 'ev, 'tk, 'pr, 'pk, 'br, 'lat) lan_ops \<Rightarrow> 'fr lan_request \<Rightarrow> bool" where
  "fragment_has_sample_domain lo req \<longleftrightarrow>
     list_ex (\<lambda>edge. lo_edge_domain lo edge = lo_sample_domain lo)
       (lo_input_edges lo (lq_fragment req) @ lo_output_edges lo (lq_fragment req))"

definition remote_output_envelopes ::
  "('fr, 'ed, 'cd, 'ev, 'tk, 'pr, 'pk, 'br, 'lat) lan_ops \<Rightarrow> 'ev list \<Rightarrow> 'pr \<Rightarrow> symbol list \<Rightarrow>
   'ev list result" where
  "remote_output_envelopes lo envelopes profile diagnostics =
     traverse (\<lambda>envelope. let parts = lo_envelope_parts lo envelope
       in lo_envelope_new lo (parts\<lparr>en_profile := profile,
            en_diagnostics := en_diagnostics parts @ diagnostics\<rparr>)) envelopes"

definition lan_plan ::
  "('fr, 'ed, 'cd, 'ev, 'tk, 'pr, 'pk, 'br, 'lat) lan_ops \<Rightarrow> 'fr lan_request \<Rightarrow>
   ('ev, 'br) lan_report result" where
  "lan_plan lo req =
     (let experimental = lan_experimental_capability \<in> set (lq_capabilities req)
      in if lq_realtime_pinned req \<and> fragment_has_sample_domain lo req \<and> \<not> experimental
         then Err (Eval [Show_str (as_qualified_str lan_refusal_diagnostic),
                Lit '': pinned sample-domain nodes cannot be sample-locked across LAN''])
         else let diagnostics = (if lq_realtime_pinned req \<and> fragment_has_sample_domain lo req
                then [lan_experimental_diagnostic] else [])
           in and_then (transport_profile lo (lq_mode req)) (\<lambda>profile.
              and_then (remote_output_envelopes lo (lo_output_envelopes lo (lq_fragment req)) profile
                          diagnostics) (\<lambda>output_envelopes.
              Ok \<lparr>lr_fragment_id = lo_fragment_id lo (lq_fragment req), lr_site = lan_peer_site,
                  lr_mode = lq_mode req, lr_bridges = mode_bridges lo (lq_mode req),
                  lr_output_envelopes = output_envelopes, lr_diagnostics = diagnostics\<rparr>)))"

definition report_latency_class :: "('ev, 'br) lan_report \<Rightarrow> latency_class" where
  "report_latency_class rep = mode_latency_class (lr_mode rep)"

definition added_bridge_latency ::
  "('fr, 'ed, 'cd, 'ev, 'tk, 'pr, 'pk, 'br, 'lat) lan_ops \<Rightarrow> ('ev, 'br) lan_report \<Rightarrow> 'lat" where
  "added_bridge_latency lo rep = foldl (\<lambda>latency bridge. lo_latency_plus lo latency (lo_bridge_latency lo bridge))
     (lo_latency_zero lo) (lr_bridges rep)"

definition report_bar_delay_millis :: "('ev, 'br) lan_report \<Rightarrow> u64 option option" where
  "report_bar_delay_millis rep = bar_delay_millis (lr_mode rep)"

text \<open>\<open>to_expr\<close>; \<open>None\<close> is the panic of the bar delay.\<close>

definition lan_report_expr ::
  "('fr, 'ed, 'cd, 'ev, 'tk, 'pr, 'pk, 'br, 'lat) lan_ops \<Rightarrow> ('ev, 'br) lan_report \<Rightarrow> expr option" where
  "lan_report_expr lo rep =
     do { millis \<leftarrow> report_bar_delay_millis rep;
          let latency = added_bridge_latency lo rep;
          Some (EMap [
            (ESymbol (symbol_new ''fragment''), ESymbol (lr_fragment_id rep)),
            (ESymbol (symbol_new ''site''), ESymbol (lr_site rep)),
            (ESymbol (symbol_new ''mode''), ESymbol (lan_mode_symbol (lr_mode rep))),
            (ESymbol (symbol_new ''latency-class''), ESymbol (lo_class_symbol lo (report_latency_class rep))),
            (ESymbol (symbol_new ''bar-delay-ms''),
               EString (show_nat (case millis of None \<Rightarrow> 0 | Some ms \<Rightarrow> unat ms))),
            (ESymbol (symbol_new ''bridge-latency-frames''), EString (show_nat (lo_frame_count lo latency))),
            (ESymbol (symbol_new ''bridge-latency-packets''), EString (show_nat (lo_packet_count lo latency))),
            (ESymbol (symbol_new ''bridges''), EList (map (\<lambda>b. ESymbol (lo_bridge_kind lo b)) (lr_bridges rep))),
            (ESymbol (symbol_new ''diagnostics''), EList (map ESymbol (lr_diagnostics rep))),
            (ESymbol (symbol_new ''output-profiles''),
               EList (map (\<lambda>e. ESymbol (lo_profile_name lo (en_profile (lo_envelope_parts lo e))))
                 (lr_output_envelopes rep)))]) }"

subsection \<open>Properties\<close>

lemma unat_ucast_32_64 [simp]: "unat (ucast (x :: u32) :: u64) = unat x"
proof -
  have "unat x < 2 ^ 32"
    using unsigned_less [of x] by simp
  then show ?thesis
    by (simp add: unsigned_ucast_eq take_bit_nat_eq_self)
qed

lemma unat_less_2p32: "unat (x :: u32) < 4294967296"
  using unsigned_less [of x] by simp

lemma ucast_32_64_eq_0 [simp]: "(ucast (x :: u32) :: u64) = 0 \<longleftrightarrow> x = 0"
  by (metis unat_eq_zero unat_ucast_32_64)

text \<open>At four beats to the bar the two saturating products of the delay never saturate.\<close>

lemma bar_product_exact:
  "unat (sat_mul (sat_mul (ucast (bars :: u32)) (ucast default_beats_per_bar)) 60000 :: u64) = unat bars * 240000"
  using unat_less_2p32 [of bars] by (simp add: unat_sat_mul default_beats_per_bar_def)

text \<open>
  The delay of a bar-delay mode made by its constructor is exact for every tempo and every
  number of bars: no division by zero, no saturation, the milliseconds of four beats per bar
  rounded down. A jitter-buffered mode has none. The constructor refuses a zero of bars, tempo
  or packets, and that matters: a mode written down with its public variant panics exactly when
  its tempo is zero.
\<close>
theorem lan_bar_delay_exact:
  "(bar_delay bars tempo packets frames = Ok mode \<longrightarrow>
      bars \<noteq> 0 \<and> tempo \<noteq> 0 \<and> packets \<noteq> 0 \<and> jitter_packets mode = packets \<and>
      latency_comp_frames mode = frames \<and>
      (\<exists>ms. bar_delay_millis mode = Some (Some ms) \<and> unat ms = unat bars * 4 * 60000 div unat tempo)) \<and>
   (jitter_buffered packets frames = Ok mode \<longrightarrow> packets \<noteq> 0 \<and> bar_delay_millis mode = Some None) \<and>
   (bar_delay_millis mode' = None \<longleftrightarrow> (\<exists>bars beats jp lf. mode' = BarDelay bars beats 0 jp lf))"
proof (intro conjI impI)
  assume ok: "bar_delay bars tempo packets frames = Ok mode"
  then have mode: "mode = BarDelay bars default_beats_per_bar tempo packets frames"
    "bars \<noteq> 0" "tempo \<noteq> 0" "packets \<noteq> 0"
    by (auto simp: bar_delay_def split: if_splits)
  then show "bars \<noteq> 0" "tempo \<noteq> 0" "packets \<noteq> 0" "jitter_packets mode = packets"
    "latency_comp_frames mode = frames"
    by simp_all
  show "\<exists>ms. bar_delay_millis mode = Some (Some ms) \<and> unat ms = unat bars * 4 * 60000 div unat tempo"
    using mode by (simp add: checked_div_def unat_div bar_product_exact mult.commute)
next
  assume "jitter_buffered packets frames = Ok mode"
  then show "packets \<noteq> 0" "bar_delay_millis mode = Some None"
    by (auto simp: jitter_buffered_def split: if_splits)
next
  show "bar_delay_millis mode' = None \<longleftrightarrow> (\<exists>bars beats jp lf. mode' = BarDelay bars beats 0 jp lf)"
    by (cases mode') (auto simp: checked_div_def)
qed

theorem lan_bar_delay_exact_witness:
  "(\<exists>mode ms. bar_delay 2 120 4 64 = Ok mode \<and> bar_delay_millis mode = Some (Some ms) \<and> unat ms = 4000) \<and>
   bar_delay_millis (BarDelay 2 4 0 4 64) = None"
proof -
  obtain mode where "bar_delay 2 120 4 64 = Ok mode"
    by (simp add: bar_delay_def)
  then show ?thesis
    using lan_bar_delay_exact [of 2 120 4 64 mode "BarDelay 2 4 0 4 64"] by auto
qed

lemma traverse_eq_Ok: "traverse f xs = Ok ys \<longleftrightarrow> list_all2 (\<lambda>x y. f x = Ok y) xs ys"
  by (induction xs arbitrary: ys) (auto simp: result_simps list_all2_Cons1)

lemma list_all2_map_eq: "list_all2 (\<lambda>x y. f y = g x) xs ys \<longleftrightarrow> map f ys = map g xs"
  by (induction xs arbitrary: ys) (auto simp: list_all2_Cons1 Cons_eq_map_conv map_eq_Cons_conv)

text \<open>
  C35. A pinned fragment that touches the sample domain only crosses the LAN with the experimental
  capability, and then the fact is on record: in the diagnostics of the report and of every
  rewritten output envelope. Any other fragment is placed without a diagnostic. The output
  envelopes correspond one to one to the fragment's own, unchanged but for the profile of the
  mode and the diagnostics. The envelope constructor is relied on to keep the parts it is given.
\<close>
theorem lan_plan_marks_pinned_samples:
  assumes keeps: "\<And>parts e. lo_envelope_new lo parts = Ok e \<Longrightarrow> lo_envelope_parts lo e = parts"
    and plan: "lan_plan lo req = Ok rep"
  shows "(if lq_realtime_pinned req \<and> fragment_has_sample_domain lo req
      then lan_experimental_capability \<in> set (lq_capabilities req) \<and>
           lr_diagnostics rep = [lan_experimental_diagnostic]
      else lr_diagnostics rep = []) \<and>
    lr_site rep = lan_peer_site \<and> lr_mode rep = lq_mode req \<and>
    (\<exists>profile. transport_profile lo (lq_mode req) = Ok profile \<and>
      map (lo_envelope_parts lo) (lr_output_envelopes rep) =
        map (\<lambda>e. (lo_envelope_parts lo e)\<lparr>en_profile := profile,
               en_diagnostics := en_diagnostics (lo_envelope_parts lo e) @ lr_diagnostics rep\<rparr>)
          (lo_output_envelopes lo (lq_fragment req)))"
proof -
  define diagnostics where "diagnostics = (if lq_realtime_pinned req \<and> fragment_has_sample_domain lo req
    then [lan_experimental_diagnostic] else [])"
  have gate: "\<not> (lq_realtime_pinned req \<and> fragment_has_sample_domain lo req \<and>
      lan_experimental_capability \<notin> set (lq_capabilities req))"
    using plan by (auto simp: lan_plan_def split: if_splits)
  then obtain profile envelopes where parts: "transport_profile lo (lq_mode req) = Ok profile"
    "remote_output_envelopes lo (lo_output_envelopes lo (lq_fragment req)) profile diagnostics = Ok envelopes"
    "rep = \<lparr>lr_fragment_id = lo_fragment_id lo (lq_fragment req), lr_site = lan_peer_site,
       lr_mode = lq_mode req, lr_bridges = mode_bridges lo (lq_mode req),
       lr_output_envelopes = envelopes, lr_diagnostics = diagnostics\<rparr>"
    using plan by (auto simp: lan_plan_def diagnostics_def Let_def and_then_eq_Ok split: if_splits)
  have "list_all2 (\<lambda>e e'. lo_envelope_parts lo e' = (lo_envelope_parts lo e)\<lparr>en_profile := profile,
      en_diagnostics := en_diagnostics (lo_envelope_parts lo e) @ diagnostics\<rparr>)
    (lo_output_envelopes lo (lq_fragment req)) envelopes"
    using parts(2) unfolding remote_output_envelopes_def traverse_eq_Ok Let_def
    by (rule list_all2_mono) (rule keeps)
  then show ?thesis
    using gate parts(1) unfolding list_all2_map_eq parts(3) by (auto simp: diagnostics_def)
qed

text \<open>A fragment is its edges' domains; an envelope is its parts; a latency counts both units.\<close>

definition demo_lan :: "(bool list, bool, bool, (nat, bool, symbol, nat) envelope_parts, nat, symbol, nat,
    nat, nat \<times> nat) lan_ops" where
  "demo_lan = \<lparr>lo_fragment_id = (\<lambda>_. symbol_new ''f''), lo_input_edges = (\<lambda>edges. edges),
     lo_output_edges = (\<lambda>_. []), lo_edge_domain = (\<lambda>e. e), lo_sample_domain = True,
     lo_output_envelopes = (\<lambda>_. [\<lparr>en_stream_id = symbol_new ''s'', en_packet_id = symbol_new ''p'',
       en_media = Pcm, en_direction = Source, en_sequence = 1, en_ticks = [], en_clock_domain = True,
       en_clock_domains = [], en_profile = symbol_new ''local'', en_diagnostics = [], en_packet = 0\<rparr>]),
     lo_envelope_parts = (\<lambda>e. e), lo_envelope_new = (\<lambda>e. Ok e), lo_audio_preview = symbol_new ''preview'',
     lo_profile_new = (\<lambda>name _ _. Ok name), lo_profile_name = (\<lambda>p. p),
     lo_class_symbol = (\<lambda>_. symbol_new ''class''), lo_jitter_buffer = (\<lambda>n. unat n),
     lo_latency_comp = (\<lambda>n. unat n), lo_bridge_latency = (\<lambda>n. (n, n)),
     lo_bridge_kind = (\<lambda>_. symbol_new ''bridge''), lo_latency_zero = (0, 0),
     lo_latency_plus = (\<lambda>a b. (fst a + fst b, snd a + snd b)), lo_frame_count = fst, lo_packet_count = snd\<rparr>"

theorem lan_plan_marks_pinned_samples_witness:
  "let req = with_realtime_pin True (lan_request_new [True] (JitterBuffered 4 128))
   in (\<exists>e. lan_plan demo_lan req = Err e) \<and>
      (\<exists>rep. lan_plan demo_lan (lan_with_capability lan_experimental_capability req) = Ok rep \<and>
         map en_diagnostics (lr_output_envelopes rep) = [[lan_experimental_diagnostic]])"
proof -
  let ?req = "with_realtime_pin True (lan_request_new [True] (JitterBuffered 4 128))"
  let ?allowed = "lan_with_capability lan_experimental_capability ?req"
  have sample: "lq_realtime_pinned ?allowed" "fragment_has_sample_domain demo_lan ?allowed"
    by (simp_all add: with_realtime_pin_def lan_request_new_def lan_with_capability_def
        fragment_has_sample_domain_def demo_lan_def)
  have "\<exists>rep. lan_plan demo_lan ?allowed = Ok rep"
    by (simp add: lan_plan_def with_realtime_pin_def lan_request_new_def lan_with_capability_def
        fragment_has_sample_domain_def remote_output_envelopes_def demo_lan_def Let_def)
  then obtain rep where rep: "lan_plan demo_lan ?allowed = Ok rep" ..
  have refused: "\<exists>e. lan_plan demo_lan ?req = Err e"
    by (simp add: lan_plan_def with_realtime_pin_def lan_request_new_def fragment_has_sample_domain_def demo_lan_def)
  have "lr_diagnostics rep = [lan_experimental_diagnostic]"
    "map (lo_envelope_parts demo_lan) (lr_output_envelopes rep) =
      map (\<lambda>e. (lo_envelope_parts demo_lan e)\<lparr>en_profile := symbol_new ''preview'',
          en_diagnostics := en_diagnostics (lo_envelope_parts demo_lan e) @ lr_diagnostics rep\<rparr>)
        (lo_output_envelopes demo_lan (lq_fragment ?allowed))"
    using lan_plan_marks_pinned_samples [OF _ rep] sample
    by (simp_all add: demo_lan_def with_realtime_pin_def lan_request_new_def lan_with_capability_def)
  then have "map en_diagnostics (lr_output_envelopes rep) = [[lan_experimental_diagnostic]]"
    by (simp add: demo_lan_def)
  with rep refused show ?thesis by auto
qed

end
