(* ===== verification/Wire.thy ===== *)
theory Wire
  imports Effects Consent
begin

section \<open>Wire values: text, numbers and records of the provider crates\<close>

text \<open>
  What the device provider crates share when they read and write expressions. The expression
  accessors and builders of \<open>sim_value\<close> are external: the record \<open>wire_ops\<close> holds the ones that
  are called, \<open>wire_laws\<close> states what is documented of them (a map built from distinct names
  answers a lookup of each of them, a number shows its decimal digits, a \<open>required\<close> accessor
  succeeds exactly on a field of its type). The string and number parsing of the standard
  library is modelled: \<open>str::parse\<close>, \<open>str::lines\<close>, \<open>str::split\<close>, \<open>str::trim\<close>.
\<close>

subsection \<open>Text of the standard library\<close>

text \<open>Characters are code points up to 255; these are the white ones among them.\<close>

definition is_white :: "char \<Rightarrow> bool" where
  "is_white c \<longleftrightarrow> (let n = of_char c :: nat in 9 \<le> n \<and> n \<le> 13 \<or> n = 32 \<or> n = 133 \<or> n = 160)"

definition trim :: "string \<Rightarrow> string" where
  "trim s = rev (dropWhile is_white (rev (dropWhile is_white s)))"

text \<open>\<open>str::split\<close>: the pieces between the separators, always at least one.\<close>

primrec split_on :: "(char \<Rightarrow> bool) \<Rightarrow> string \<Rightarrow> string list" where
  "split_on sep [] = [[]]"
| "split_on sep (c # cs) =
     (if sep c then [] # split_on sep cs
      else case split_on sep cs of [] \<Rightarrow> [[c]] | p # ps \<Rightarrow> (c # p) # ps)"

definition strip_cr :: "string \<Rightarrow> string" where
  "strip_cr s = (if s \<noteq> [] \<and> last s = CHR 0x0D then butlast s else s)"

text \<open>
  \<open>str::lines\<close>: every line that ends with a line feed, less a carriage return before it, and
  what follows the last line feed unless that is nothing.
\<close>

definition text_lines :: "string \<Rightarrow> string list" where
  "text_lines s = (let parts = split_on (\<lambda>c. c = CHR 0x0A) s
     in map strip_cr (butlast parts) @ (if last parts = [] then [] else [last parts]))"

subsection \<open>Numbers of the standard library\<close>

definition is_digit :: "char \<Rightarrow> bool" where
  "is_digit c \<longleftrightarrow> 48 \<le> (of_char c :: nat) \<and> (of_char c :: nat) \<le> 57"

definition digit_value :: "char \<Rightarrow> nat" where
  "digit_value c = of_char c - 48"

definition digits_value :: "string \<Rightarrow> nat" where
  "digits_value ds = foldl (\<lambda>n c. n * 10 + digit_value c) 0 ds"

definition parse_digits :: "string \<Rightarrow> nat option" where
  "parse_digits ds = (if ds \<noteq> [] \<and> list_all is_digit ds then Some (digits_value ds) else None)"

text \<open>\<open>parse::<u64>\<close>: an optional plus sign, at least one digit, no overflow.\<close>

definition parse_u64 :: "string \<Rightarrow> u64 option" where
  "parse_u64 s =
     (case parse_digits (case s of c # ds \<Rightarrow> if c = CHR ''+'' then ds else s | [] \<Rightarrow> s) of
        Some n \<Rightarrow> if n < 2 ^ 64 then Some (of_nat n) else None
      | None \<Rightarrow> None)"

text \<open>\<open>parse::<i64>\<close>: a minus sign too; the value is between \<open>- (2 ^ 63)\<close> and \<open>2 ^ 63 - 1\<close>.\<close>

definition parse_i64 :: "string \<Rightarrow> int option" where
  "parse_i64 s =
     (case s of
        [] \<Rightarrow> None
      | c # ds \<Rightarrow>
          if c = CHR ''-''
          then (case parse_digits ds of
              Some n \<Rightarrow> if n \<le> 2 ^ 63 then Some (- int n) else None
            | None \<Rightarrow> None)
          else (case parse_digits (if c = CHR ''+'' then ds else s) of
              Some n \<Rightarrow> if n < 2 ^ 63 then Some (int n) else None
            | None \<Rightarrow> None))"

text \<open>\<open>u64::try_from\<close> of an \<open>i64\<close>.\<close>

definition u64_of_i64 :: "int \<Rightarrow> u64 option" where
  "u64_of_i64 i = (if 0 \<le> i then Some (of_int i) else None)"

lemma parse_digits_Nil [simp]: "parse_digits [] = None"
  by (simp add: parse_digits_def)

lemma digits_value_snoc [simp]: "digits_value (ds @ [c]) = digits_value ds * 10 + digit_value c"
  by (simp add: digits_value_def)

lemma digit_char: "d < 10 \<Longrightarrow> is_digit (char_of (48 + d)) \<and> digit_value (char_of (48 + d)) = d"
  by (simp add: is_digit_def digit_value_def)

lemma show_nat_digits: "show_nat n \<noteq> [] \<and> list_all is_digit (show_nat n) \<and> digits_value (show_nat n) = n"
proof (induction n rule: show_nat.induct)
  case (1 n)
  show ?case
  proof (cases "n < 10")
    case True
    with digit_char [OF True] show ?thesis
      by (simp add: show_nat.simps [of n] digits_value_def)
  next
    case False
    with 1 digit_char [of "n mod 10"] show ?thesis
      by (simp add: show_nat.simps [of n])
  qed
qed

lemma parse_show_nat [simp]: "parse_digits (show_nat n) = Some n"
  using show_nat_digits [of n] by (simp add: parse_digits_def)

lemma digit_no_sign: "is_digit c \<Longrightarrow> c \<noteq> CHR ''+'' \<and> c \<noteq> CHR ''-''"
  by (auto simp: is_digit_def)

lemma show_nat_Cons: "\<exists>c ds. show_nat n = c # ds \<and> c \<noteq> CHR ''+'' \<and> c \<noteq> CHR ''-''"
  using show_nat_digits [of n] digit_no_sign by (cases "show_nat n") auto

lemma parse_u64_show [simp]: "parse_u64 (show_nat n) = (if n < 2 ^ 64 then Some (of_nat n) else None)"
proof -
  obtain c ds where "show_nat n = c # ds" "c \<noteq> CHR ''+''"
    using show_nat_Cons by blast
  then show ?thesis
    using parse_show_nat [of n] by (simp add: parse_u64_def)
qed

lemma parse_i64_show [simp]: "parse_i64 (show_nat n) = (if n < 2 ^ 63 then Some (int n) else None)"
proof -
  obtain c ds where "show_nat n = c # ds" "c \<noteq> CHR ''+''" "c \<noteq> CHR ''-''"
    using show_nat_Cons by blast
  then show ?thesis
    using parse_show_nat [of n] by (simp add: parse_i64_def)
qed

lemma u64_of_i64_of_nat [simp]: "u64_of_i64 (int n) = Some (of_nat n)" "u64_of_i64 (uint x) = Some x"
  by (simp_all add: u64_of_i64_def)

subsection \<open>Accessors and builders\<close>

text \<open>
  \<open>access::required\<close> and its typed variants take the name of the field and what the message
  calls the record; \<open>wo_display\<close> is \<open>to_string\<close> of a kernel error.
\<close>

record wire_ops = value_ops +
  wo_required :: "expr \<Rightarrow> string \<Rightarrow> string \<Rightarrow> expr result"
  wo_required_sym :: "expr \<Rightarrow> string \<Rightarrow> string \<Rightarrow> symbol result"
  wo_required_str :: "expr \<Rightarrow> string \<Rightarrow> string \<Rightarrow> string result"
  wo_required_bool :: "expr \<Rightarrow> string \<Rightarrow> string \<Rightarrow> bool result"
  wo_text :: "string \<Rightarrow> expr"
  wo_uint :: "u64 \<Rightarrow> expr"
  wo_list :: "expr list \<Rightarrow> expr"
  wo_display :: "error \<Rightarrow> message"

text \<open>A field name as a key: a symbol without namespace, or a string.\<close>

definition key_name :: "expr \<Rightarrow> string option" where
  "key_name k = (case k of
       ESymbol s \<Rightarrow> if sym_namespace s = None then Some (sym_name s) else None
     | EString t \<Rightarrow> Some t
     | _ \<Rightarrow> None)"

definition wire_laws :: "wire_ops \<Rightarrow> bool" where
  "wire_laws wv \<longleftrightarrow>
     (\<forall>kvs. \<exists>entries. vb_map wv kvs = EMap entries \<and>
        map (\<lambda>(k, v). (key_name k, v)) entries = map (\<lambda>(n, v). (Some n, v)) kvs) \<and>
     (\<forall>kvs n. distinct (map fst kvs) \<longrightarrow> va_field wv (vb_map wv kvs) n = map_of kvs n) \<and>
     (\<forall>e n. va_field_sym wv e n = (case va_field wv e n of Some (ESymbol s) \<Rightarrow> Some s | _ \<Rightarrow> None)) \<and>
     (\<forall>e n c v. wo_required wv e n c = Ok v \<longleftrightarrow> va_field wv e n = Some v) \<and>
     (\<forall>e n c s. wo_required_sym wv e n c = Ok s \<longleftrightarrow> va_field wv e n = Some (ESymbol s)) \<and>
     (\<forall>e n c t. wo_required_str wv e n c = Ok t \<longleftrightarrow> va_field wv e n = Some (EString t)) \<and>
     (\<forall>e n c b. wo_required_bool wv e n c = Ok b \<longleftrightarrow> va_field wv e n = Some (EBool b)) \<and>
     (\<forall>ns n. vb_qsym wv ns n = ESymbol (symbol_qualified ns n)) \<and>
     (\<forall>t. wo_text wv t = EString t) \<and>
     (\<forall>n. \<exists>d. wo_uint wv n = ENumber d (show_nat (unat n)) \<and> sym_name d \<in> {''i64'', ''u64''})"

lemma wire_map:
  assumes "wire_laws wv"
  obtains entries where "vb_map wv kvs = EMap entries"
    "map (\<lambda>(k, v). (key_name k, v)) entries = map (\<lambda>(n, v). (Some n, v)) kvs"
proof -
  from assms have "\<exists>entries. vb_map wv kvs = EMap entries \<and>
      map (\<lambda>(k, v). (key_name k, v)) entries = map (\<lambda>(n, v). (Some n, v)) kvs"
    unfolding wire_laws_def by (elim conjE) (rule spec)
  then show thesis
    by (elim exE conjE) (rule that)
qed

lemma wire_access:
  assumes "wire_laws wv"
  shows "distinct (map fst kvs) \<Longrightarrow> va_field wv (vb_map wv kvs) n = map_of kvs n"
    and "va_field_sym wv e n = (case va_field wv e n of Some (ESymbol s) \<Rightarrow> Some s | _ \<Rightarrow> None)"
    and "wo_required wv e n c = Ok v \<longleftrightarrow> va_field wv e n = Some v"
    and "wo_required_sym wv e n c = Ok s \<longleftrightarrow> va_field wv e n = Some (ESymbol s)"
    and "wo_required_str wv e n c = Ok t \<longleftrightarrow> va_field wv e n = Some (EString t)"
    and "wo_required_bool wv e n c = Ok b \<longleftrightarrow> va_field wv e n = Some (EBool b)"
    and "vb_qsym wv ns n = ESymbol (symbol_qualified ns n)"
    and "wo_text wv t = EString t"
  using assms unfolding wire_laws_def by simp_all

lemma wire_uint:
  assumes "wire_laws wv"
  obtains d where "wo_uint wv n = ENumber d (show_nat (unat n))" "sym_name d = ''i64'' \<or> sym_name d = ''u64''"
proof -
  have "\<forall>n. \<exists>d. wo_uint wv n = ENumber d (show_nat (unat n)) \<and> sym_name d \<in> {''i64'', ''u64''}"
    using assms unfolding wire_laws_def by (elim conjE)
  then obtain d where d: "wo_uint wv n = ENumber d (show_nat (unat n))" "sym_name d \<in> {''i64'', ''u64''}"
    by blast
  from d(2) have "sym_name d = ''i64'' \<or> sym_name d = ''u64''"
    unfolding insert_iff empty_iff by (elim disjE) simp_all
  with d(1) show thesis
    by (rule that)
qed

subsection \<open>Field readers\<close>

text \<open>
  The watch and the VITURE crate read integers alike, but for the kind of error: the decimal
  text is parsed as an \<open>i64\<close> and then converted.
\<close>

definition required_u64 ::
  "wire_ops \<Rightarrow> (message \<Rightarrow> device_error) \<Rightarrow> expr \<Rightarrow> string \<Rightarrow> string \<Rightarrow> u64 device_result" where
  "required_u64 wv mk e name ctxt =
     (let not_u64 = mk [Show_str ctxt, Lit '' field '', Show_str name, Lit '' is not u64'']
      in and_then (map_err (\<lambda>er. mk (wo_display wv er)) (wo_required wv e name ctxt)) (\<lambda>v.
         case v of
           ENumber d canonical \<Rightarrow>
             if sym_name d = ''i64'' \<or> sym_name d = ''u64''
             then and_then (ok_or (parse_i64 canonical) not_u64) (\<lambda>i. ok_or (u64_of_i64 i) not_u64)
             else Err not_u64
         | _ \<Rightarrow> Err not_u64))"

text \<open>The \<open>u64\<close> an expression is read as.\<close>

definition u64_value :: "expr \<Rightarrow> u64 option" where
  "u64_value v = (case v of
       ENumber d canonical \<Rightarrow>
         if sym_name d = ''i64'' \<or> sym_name d = ''u64''
         then Option.bind (parse_i64 canonical) u64_of_i64 else None
     | _ \<Rightarrow> None)"

lemma required_u64_Ok:
  assumes "wire_laws wv"
  shows "required_u64 wv mk e name ctxt = Ok n \<longleftrightarrow> Option.bind (va_field wv e name) u64_value = Some n"
proof -
  have read: "(case v of
      ENumber d canonical \<Rightarrow>
        if sym_name d = ''i64'' \<or> sym_name d = ''u64''
        then and_then (ok_or (parse_i64 canonical) er) (\<lambda>i. ok_or (u64_of_i64 i) er) else Err er
    | _ \<Rightarrow> Err er) = Ok n \<longleftrightarrow> u64_value v = Some n" for v and er :: device_error
    by (cases v) (simp_all add: u64_value_def and_then_eq_Ok bind_eq_Some_conv)
  show ?thesis
    unfolding required_u64_def Let_def and_then_eq_Ok map_err_eq_Ok wire_access(3) [OF assms] read
      bind_eq_Some_conv ..
qed

lemma parse_i64_bound: "parse_i64 s = Some i \<Longrightarrow> i < 2 ^ 63"
  by (auto simp: parse_i64_def split: list.splits option.splits if_splits)

lemma u64_of_i64_bound: "u64_of_i64 i = Some n \<Longrightarrow> i < 2 ^ 63 \<Longrightarrow> unat n < 2 ^ 63"
  by (cases i) (auto simp: u64_of_i64_def unat_of_nat)

lemma u64_value_bound: "u64_value v = Some n \<Longrightarrow> unat n < 2 ^ 63"
  using u64_of_i64_bound parse_i64_bound
  by (cases v) (auto simp: u64_value_def bind_eq_Some_conv split: if_splits)

lemma u64_value_uint:
  assumes "wire_laws wv"
  shows "u64_value (wo_uint wv n) = (if unat n < 2 ^ 63 then Some n else None)"
proof -
  obtain d where "wo_uint wv n = ENumber d (show_nat (unat n))" "sym_name d = ''i64'' \<or> sym_name d = ''u64''"
    by (rule wire_uint [OF assms])
  then show ?thesis
    by (simp add: u64_value_def)
qed

subsection \<open>Record shapes\<close>

definition ensure_kind ::
  "wire_ops \<Rightarrow> expr \<Rightarrow> string \<Rightarrow> string \<Rightarrow> string \<Rightarrow> unit device_result" where
  "ensure_kind wv e ns name ctxt =
     (case va_field_sym wv e ''kind'' of
        Some kind \<Rightarrow>
          if sym_namespace kind = Some ns \<and> sym_name kind = name then Ok ()
          else Err (Host [Lit ''expected '', Show_str ns, Lit ''/'', Show_str name, Lit '' '', Show_str ctxt])
      | None \<Rightarrow> Err (Host [Lit ''expected '', Show_str ns, Lit ''/'', Show_str name, Lit '' '', Show_str ctxt]))"

definition key_allowed :: "string list \<Rightarrow> expr \<Rightarrow> bool" where
  "key_allowed known key =
     (case key of
        ESymbol s \<Rightarrow> sym_namespace s = None \<and> sym_name s \<in> set known
      | EString t \<Rightarrow> t \<in> set known
      | _ \<Rightarrow> False)"

primrec check_keys :: "string list \<Rightarrow> string \<Rightarrow> (expr \<times> expr) list \<Rightarrow> unit device_result" where
  "check_keys known ctxt [] = Ok ()"
| "check_keys known ctxt (entry # entries) =
     (if key_allowed known (fst entry) then check_keys known ctxt entries
      else Err (Host [Show_str ctxt, Lit '' has unknown field '', Show_expr (fst entry)]))"

definition ensure_no_extra :: "expr \<Rightarrow> string list \<Rightarrow> string \<Rightarrow> unit device_result" where
  "ensure_no_extra e known ctxt =
     (case e of EMap entries \<Rightarrow> check_keys known ctxt entries
      | _ \<Rightarrow> Err (Host [Show_str ctxt, Lit '' is not a map'']))"

text \<open>A map with no other field names than the known ones.\<close>

definition only_fields :: "expr \<Rightarrow> string list \<Rightarrow> bool" where
  "only_fields e known \<longleftrightarrow>
     (\<exists>entries. e = EMap entries \<and> (\<forall>k \<in> fst ` set entries. \<exists>n \<in> set known. key_name k = Some n))"

lemma key_allowed_name: "key_allowed known k \<longleftrightarrow> (\<exists>n \<in> set known. key_name k = Some n)"
  by (auto simp: key_allowed_def key_name_def split: expr.splits)

lemma check_keys_Ok: "check_keys known ctxt entries = Ok u \<longleftrightarrow> (\<forall>k \<in> fst ` set entries. key_allowed known k)"
  by (induction entries) auto

lemma ensure_no_extra_Ok: "ensure_no_extra e known ctxt = Ok u \<longleftrightarrow> only_fields e known"
  by (cases e) (simp_all add: ensure_no_extra_def only_fields_def check_keys_Ok key_allowed_name)

lemma ensure_kind_Ok:
  assumes "wire_laws wv"
  shows "ensure_kind wv e ns name ctxt = Ok u \<longleftrightarrow> va_field wv e ''kind'' = Some (ESymbol (symbol_qualified ns name))"
  by (auto simp: ensure_kind_def wire_access(2) [OF assms] symbol_qualified_def split: option.splits expr.splits)
    (metis symbol.collapse)

definition required_list :: "wire_ops \<Rightarrow> expr \<Rightarrow> string \<Rightarrow> string \<Rightarrow> expr list device_result" where
  "required_list wv e name ctxt =
     and_then (map_err (\<lambda>er. Host (wo_display wv er)) (wo_required wv e name ctxt)) (\<lambda>v.
     case v of
       EList items \<Rightarrow> Ok items
     | _ \<Rightarrow> Err (Host [Show_str ctxt, Lit '' field '', Show_str name, Lit '' is not a list'']))"

lemma required_list_Ok:
  assumes "wire_laws wv"
  shows "required_list wv e name ctxt = Ok items \<longleftrightarrow> va_field wv e name = Some (EList items)"
proof -
  have read: "(case v of EList items \<Rightarrow> Ok items | _ \<Rightarrow> Err er) = Ok items \<longleftrightarrow> v = EList items"
    for v and er :: device_error
    by (cases v) simp_all
  show ?thesis
    unfolding required_list_def and_then_eq_Ok map_err_eq_Ok wire_access(3) [OF assms] read by simp
qed

subsection \<open>An instance for the witnesses\<close>

definition demo_field :: "expr \<Rightarrow> string \<Rightarrow> expr option" where
  "demo_field e name = (case e of
       EMap entries \<Rightarrow> map_option snd (find (\<lambda>kv. key_name (fst kv) = Some name) entries)
     | _ \<Rightarrow> None)"

definition demo_wire :: wire_ops where
  "demo_wire = \<lparr>
     va_field = demo_field,
     va_field_sym = (\<lambda>e n. case demo_field e n of Some (ESymbol s) \<Rightarrow> Some s | _ \<Rightarrow> None),
     vb_map = (\<lambda>kvs. EMap (map (\<lambda>(k, v). (ESymbol (symbol_new k), v)) kvs)),
     vb_qsym = (\<lambda>ns n. ESymbol (symbol_qualified ns n)),
     wo_required = (\<lambda>e n c. ok_or (demo_field e n) (Eval [Show_str c, Show_str n])),
     wo_required_sym = (\<lambda>e n c. case demo_field e n of Some (ESymbol s) \<Rightarrow> Ok s | _ \<Rightarrow> Err (Eval [Show_str c, Show_str n])),
     wo_required_str = (\<lambda>e n c. case demo_field e n of Some (EString t) \<Rightarrow> Ok t | _ \<Rightarrow> Err (Eval [Show_str c, Show_str n])),
     wo_required_bool = (\<lambda>e n c. case demo_field e n of Some (EBool b) \<Rightarrow> Ok b | _ \<Rightarrow> Err (Eval [Show_str c, Show_str n])),
     wo_text = EString,
     wo_uint = (\<lambda>n. ENumber (symbol_new ''i64'') (show_nat (unat n))),
     wo_list = EList,
     wo_display = (\<lambda>_. [Lit ''error''])\<rparr>"

lemma find_map_of: "map_option snd (find (\<lambda>kv. fst kv = n) kvs) = map_of kvs n"
  by (induction kvs) auto

lemma demo_wire_laws: "wire_laws demo_wire"
proof -
  have keys: "map (\<lambda>(k, v). (key_name k, v)) (map (\<lambda>(k, v). (ESymbol (symbol_new k), v)) kvs)
      = map (\<lambda>(n, v). (Some n, v)) kvs" for kvs :: "(string \<times> expr) list"
    by (auto simp: key_name_def)
  have look: "demo_field (EMap (map (\<lambda>(k, v). (ESymbol (symbol_new k), v)) kvs)) n = map_of kvs n" for kvs n
    by (induction kvs) (auto simp: demo_field_def key_name_def)
  show ?thesis
    unfolding wire_laws_def demo_wire_def
    using keys look by (auto split: option.splits expr.splits)
qed

end
