(* ===== verification/HaloSamples.thy ===== *)
theory HaloSamples
  imports Wire
begin

section \<open>Halo samples and routes\<close>

text \<open>
  \<open>src/sample.rs\<close>, \<open>src/ble.rs\<close>, \<open>src/relay.rs\<close> of \<open>crates/sim-lib-stream-halo\<close> and the samples
  of its \<open>src/provider.rs\<close>: the strict record of a button sample, the samples of the other kinds
  (values of the external crate \<open>sim_lib_stream_xr\<close>, kept abstract with the accessors that are
  called), the routes that carry them, and what a route must look like to open. The error type
  of the device-sample crate is its message.
\<close>

text \<open>\<open>device_sample_record_symbol\<close>, \<open>sample_kind_symbol\<close> and \<open>halo_device_symbol\<close>.\<close>

record sample_symbols =
  ds_record :: symbol
  ds_kind :: "string \<Rightarrow> symbol"
  ds_halo :: symbol

type_synonym 'a sample_result = "message + 'a"

subsection \<open>Button samples (\<open>src/sample.rs\<close>)\<close>

definition button_kind :: string where
  "button_kind = ''xr/button''"

definition button_fields :: "string list" where
  "button_fields = [''kind'', ''sample'', ''seq'', ''device'', ''button'', ''pressed'', ''t-ns'']"

datatype halo_button = Primary | Secondary

primrec button_token :: "halo_button \<Rightarrow> string" where
  "button_token Primary = ''primary''"
| "button_token Secondary = ''secondary''"

definition button_symbol :: "halo_button \<Rightarrow> symbol" where
  "button_symbol b = symbol_qualified ''stream/xr-button'' (button_token b)"

definition button_from_symbol :: "symbol \<Rightarrow> halo_button sample_result" where
  "button_from_symbol s =
     (if sym_namespace s \<noteq> Some ''stream/xr-button''
      then Err [Lit ''Halo button must be in '', Lit ''stream/xr-button'', Lit '', found '', Show_sym s]
      else if sym_name s = ''primary'' then Ok Primary
      else if sym_name s = ''secondary'' then Ok Secondary
      else Err [Lit ''unknown Halo button '', Show_str (sym_name s)])"

record button_sample =
  bs_seq :: u64
  bs_button :: halo_button
  bs_pressed :: bool
  bs_t_ns :: u64

definition button_sample_new :: "u64 \<Rightarrow> halo_button \<Rightarrow> bool \<Rightarrow> u64 \<Rightarrow> button_sample" where
  "button_sample_new seq b pressed t_ns =
     \<lparr>bs_seq = seq, bs_button = b, bs_pressed = pressed, bs_t_ns = t_ns\<rparr>"

definition button_sample_kind_symbol :: "sample_symbols \<Rightarrow> symbol" where
  "button_sample_kind_symbol ds = ds_kind ds button_kind"

definition button_expr :: "wire_ops \<Rightarrow> sample_symbols \<Rightarrow> button_sample \<Rightarrow> expr" where
  "button_expr wv ds b = vb_map wv
     [(''kind'', ESymbol (ds_record ds)),
      (''sample'', ESymbol (button_sample_kind_symbol ds)),
      (''seq'', wo_uint wv (bs_seq b)),
      (''device'', ESymbol (ds_halo ds)),
      (''button'', ESymbol (button_symbol (bs_button b))),
      (''pressed'', EBool (bs_pressed b)),
      (''t-ns'', wo_uint wv (bs_t_ns b))]"

text \<open>The loop of \<open>ensure_fields\<close>; \<open>found\<close> is the set of names seen, and its result.\<close>

primrec field_loop :: "(expr \<times> expr) list \<Rightarrow> string list \<Rightarrow> string list sample_result" where
  "field_loop [] found = Ok found"
| "field_loop (entry # entries) found =
     (case (case fst entry of
          ESymbol s \<Rightarrow> if sym_namespace s = None then Some (sym_name s) else None
        | EString t \<Rightarrow> Some t
        | _ \<Rightarrow> None) of
        None \<Rightarrow> Err [Lit ''Halo button field names must be bare names'']
      | Some name \<Rightarrow>
          if name \<notin> set button_fields then Err [Lit ''unknown Halo button field '', Show_str name]
          else if name \<in> set found then Err [Lit ''duplicate Halo button field '', Show_str name]
          else field_loop entries (name # found))"

definition ensure_fields :: "expr \<Rightarrow> unit sample_result" where
  "ensure_fields e =
     (case e of
        EMap entries \<Rightarrow>
          and_then (field_loop entries []) (\<lambda>found.
          ensure (length found = length button_fields) [Lit ''Halo button sample is missing a required field''])
      | _ \<Rightarrow> Err [Lit ''Halo button sample must be a map''])"

definition required_symbol :: "wire_ops \<Rightarrow> expr \<Rightarrow> string \<Rightarrow> symbol sample_result" where
  "required_symbol wv e name = map_err (wo_display wv) (wo_required_sym wv e name ''Halo button'')"

definition expect_symbol :: "wire_ops \<Rightarrow> expr \<Rightarrow> string \<Rightarrow> symbol \<Rightarrow> unit sample_result" where
  "expect_symbol wv e name expected =
     and_then (required_symbol wv e name) (\<lambda>found.
     ensure (found = expected) [Lit ''Halo button field '', Show_str name, Lit '' must be '', Show_sym expected,
       Lit '', found '', Show_sym found])"

definition button_required_u64 :: "wire_ops \<Rightarrow> expr \<Rightarrow> string \<Rightarrow> u64 sample_result" where
  "button_required_u64 wv e name =
     (let not_u64 = [Lit ''Halo button field '', Show_str name, Lit '' must be u64'']
      in and_then (map_err (wo_display wv) (wo_required wv e name ''Halo button'')) (\<lambda>v.
         case v of
           ENumber d canonical \<Rightarrow>
             if sym_name d = ''i64'' \<or> sym_name d = ''u64''
             then ok_or (parse_u64 canonical) not_u64
             else Err not_u64
         | _ \<Rightarrow> Err not_u64))"

definition button_from_expr :: "wire_ops \<Rightarrow> sample_symbols \<Rightarrow> expr \<Rightarrow> button_sample sample_result" where
  "button_from_expr wv ds e =
     and_then (ensure_fields e) (\<lambda>_.
     and_then (expect_symbol wv e ''kind'' (ds_record ds)) (\<lambda>_.
     and_then (expect_symbol wv e ''sample'' (button_sample_kind_symbol ds)) (\<lambda>_.
     and_then (expect_symbol wv e ''device'' (ds_halo ds)) (\<lambda>_.
     and_then (button_required_u64 wv e ''seq'') (\<lambda>seq.
     and_then (required_symbol wv e ''button'') (\<lambda>s.
     and_then (button_from_symbol s) (\<lambda>b.
     and_then (map_err (wo_display wv) (wo_required_bool wv e ''pressed'' ''Halo button'')) (\<lambda>pressed.
     and_then (button_required_u64 wv e ''t-ns'') (\<lambda>t_ns.
     Ok (button_sample_new seq b pressed t_ns))))))))))"

subsection \<open>Samples of a route (\<open>src/provider.rs\<close>)\<close>

record ('p, 't, 'm, 'c) xr_ops =
  xp_seq :: "'p \<Rightarrow> u64"
  xp_expr :: "'p \<Rightarrow> expr"
  xp_dof :: "'p \<Rightarrow> u8"
  xp_has_position :: "'p \<Rightarrow> bool"
  xt_seq :: "'t \<Rightarrow> u64"
  xt_expr :: "'t \<Rightarrow> expr"
  xt_device :: "'t \<Rightarrow> symbol"
  xm_seq :: "'m \<Rightarrow> u64"
  xm_expr :: "'m \<Rightarrow> expr"
  xc_seq :: "'c \<Rightarrow> u64"
  xc_expr :: "'c \<Rightarrow> expr"
  xc_device :: "'c \<Rightarrow> symbol"
  xc_width :: "'c \<Rightarrow> u32"
  xc_height :: "'c \<Rightarrow> u32"
  xc_stereo :: "'c \<Rightarrow> bool"

datatype ('p, 't, 'm, 'c) halo_sample =
    MotionSample 'p
  | TapSample 't
  | ButtonSample button_sample
  | MicSample 'm
  | CameraSample 'c

primrec halo_sample_kind :: "('p, 't, 'm, 'c) halo_sample \<Rightarrow> string" where
  "halo_sample_kind (MotionSample _) = ''xr/pose''"
| "halo_sample_kind (TapSample _) = ''xr/tap''"
| "halo_sample_kind (ButtonSample _) = button_kind"
| "halo_sample_kind (MicSample _) = ''xr/mic-chunk''"
| "halo_sample_kind (CameraSample _) = ''xr/camera-frame''"

primrec halo_sample_seq :: "('p, 't, 'm, 'c) xr_ops \<Rightarrow> ('p, 't, 'm, 'c) halo_sample \<Rightarrow> u64" where
  "halo_sample_seq xr (MotionSample p) = xp_seq xr p"
| "halo_sample_seq xr (TapSample t) = xt_seq xr t"
| "halo_sample_seq xr (ButtonSample b) = bs_seq b"
| "halo_sample_seq xr (MicSample m) = xm_seq xr m"
| "halo_sample_seq xr (CameraSample c) = xc_seq xr c"

primrec halo_sample_expr ::
  "wire_ops \<Rightarrow> sample_symbols \<Rightarrow> ('p, 't, 'm, 'c) xr_ops \<Rightarrow> ('p, 't, 'm, 'c) halo_sample \<Rightarrow> expr" where
  "halo_sample_expr wv ds xr (MotionSample p) = xp_expr xr p"
| "halo_sample_expr wv ds xr (TapSample t) = xt_expr xr t"
| "halo_sample_expr wv ds xr (ButtonSample b) = button_expr wv ds b"
| "halo_sample_expr wv ds xr (MicSample m) = xm_expr xr m"
| "halo_sample_expr wv ds xr (CameraSample c) = xc_expr xr c"

primrec halo_sample_validate ::
  "sample_symbols \<Rightarrow> ('p, 't, 'm, 'c) xr_ops \<Rightarrow> ('p, 't, 'm, 'c) halo_sample \<Rightarrow> unit device_result" where
  "halo_sample_validate ds xr (MotionSample p) =
     (if xp_dof xr p \<noteq> 3 \<or> xp_has_position xr p
      then Err (Sample [Lit ''Halo motion samples must be 3DoF orientation hints'']) else Ok ())"
| "halo_sample_validate ds xr (TapSample t) =
     (if xt_device xr t \<noteq> ds_halo ds
      then Err (Sample [Lit ''Halo tap sample has the wrong device identity'']) else Ok ())"
| "halo_sample_validate ds xr (ButtonSample b) = Ok ()"
| "halo_sample_validate ds xr (MicSample m) = Ok ()"
| "halo_sample_validate ds xr (CameraSample c) =
     (if xc_device xr c \<noteq> ds_halo ds \<or> xc_width xr c \<noteq> 640 \<or> xc_height xr c \<noteq> 480 \<or> xc_stereo xr c
      then Err (Sample [Lit ''Halo camera samples must be mono 640x480 frame references'']) else Ok ())"

definition is_camera :: "('p, 't, 'm, 'c) halo_sample \<Rightarrow> bool" where
  "is_camera s \<longleftrightarrow> (case s of CameraSample _ \<Rightarrow> True | _ \<Rightarrow> False)"

text \<open>
  The loop of \<open>validate_samples\<close>: the last number of each kind, and how many camera pulls were
  seen. The counter stops at two, so it does not overflow.
\<close>

primrec validate_loop ::
  "sample_symbols \<Rightarrow> ('p, 't, 'm, 'c) xr_ops \<Rightarrow> (string, u64) btree \<Rightarrow> nat \<Rightarrow>
   ('p, 't, 'm, 'c) halo_sample list \<Rightarrow> unit device_result" where
  "validate_loop ds xr last_seq cameras [] = Ok ()"
| "validate_loop ds xr last_seq cameras (s # ss) =
     and_then (halo_sample_validate ds xr s) (\<lambda>_.
     (let cameras' = (if is_camera s then Suc cameras else cameras);
          kind = halo_sample_kind s; seq = halo_sample_seq xr s
      in if is_camera s \<and> 1 < cameras'
         then Err (Sample [Lit ''Halo routes accept at most one opt-in camera pull per session''])
         else (case bt_get last_seq kind of
             Some previous \<Rightarrow>
               if seq < previous
               then Err (Sample [Lit ''Halo '', Show_str kind, Lit '' sequence moved backwards''])
               else validate_loop ds xr (bt_insert kind seq last_seq) cameras' ss
           | None \<Rightarrow> validate_loop ds xr (bt_insert kind seq last_seq) cameras' ss)))"

definition validate_samples ::
  "sample_symbols \<Rightarrow> ('p, 't, 'm, 'c) xr_ops \<Rightarrow> ('p, 't, 'm, 'c) halo_sample list \<Rightarrow> unit device_result" where
  "validate_samples ds xr samples = validate_loop ds xr bt_empty 0 samples"

subsection \<open>Routes (\<open>src/ble.rs\<close>, \<open>src/relay.rs\<close>)\<close>

definition require_text :: "string \<Rightarrow> string \<Rightarrow> unit device_result" where
  "require_text val name =
     (if trim val = [] then Err (Host [Show_str name, Lit '' must not be empty'']) else Ok ())"

record 's halo_ble_link =
  hb_adapter :: string
  hb_device :: string
  hb_samples :: "'s list"

definition halo_ble_new :: "string \<Rightarrow> string \<Rightarrow> 's halo_ble_link" where
  "halo_ble_new adapter dev = \<lparr>hb_adapter = adapter, hb_device = dev, hb_samples = []\<rparr>"

definition halo_ble_scripted :: "string \<Rightarrow> string \<Rightarrow> 's list \<Rightarrow> 's halo_ble_link" where
  "halo_ble_scripted adapter dev samples = \<lparr>hb_adapter = adapter, hb_device = dev, hb_samples = samples\<rparr>"

definition ble_open_samples :: "'s halo_ble_link \<Rightarrow> 's list device_result" where
  "ble_open_samples link =
     and_then (require_text (hb_adapter link) ''BlueZ adapter'') (\<lambda>_.
     and_then (require_text (hb_device link) ''BlueZ device'') (\<lambda>_. Ok (hb_samples link)))"

record 's web_link =
  hw_device :: string
  hw_samples :: "'s list"

definition web_new :: "string \<Rightarrow> 's web_link" where
  "web_new dev = \<lparr>hw_device = dev, hw_samples = []\<rparr>"

definition web_scripted :: "string \<Rightarrow> 's list \<Rightarrow> 's web_link" where
  "web_scripted dev samples = \<lparr>hw_device = dev, hw_samples = samples\<rparr>"

definition web_open_samples :: "'s web_link \<Rightarrow> 's list device_result" where
  "web_open_samples link =
     and_then (require_text (hw_device link) ''Web Bluetooth device'') (\<lambda>_. Ok (hw_samples link))"

record 's halo_relay_link =
  hr_endpoint :: string
  hr_samples :: "'s list"

definition halo_relay_new :: "string \<Rightarrow> 's halo_relay_link" where
  "halo_relay_new endpoint = \<lparr>hr_endpoint = endpoint, hr_samples = []\<rparr>"

definition halo_relay_scripted :: "string \<Rightarrow> 's list \<Rightarrow> 's halo_relay_link" where
  "halo_relay_scripted endpoint samples = \<lparr>hr_endpoint = endpoint, hr_samples = samples\<rparr>"

definition relay_open_samples :: "'s halo_relay_link \<Rightarrow> 's list device_result" where
  "relay_open_samples link =
     (if trim (hr_endpoint link) = [] then Err (Host [Lit ''Halo relay endpoint must not be empty''])
      else Ok (hr_samples link))"

subsection \<open>The record of a button sample\<close>

lemma field_loop_Ok:
  "field_loop entries found = Ok names \<longleftrightarrow>
     (\<exists>ns. map (key_name \<circ> fst) entries = map Some ns \<and> set ns \<subseteq> set button_fields \<and> distinct ns \<and>
        set ns \<inter> set found = {} \<and> names = rev ns @ found)"
proof (induction entries arbitrary: found)
  case Nil
  show ?case by auto
next
  case (Cons entry entries)
  show ?case
  proof (cases "key_name (fst entry)")
    case None
    then show ?thesis
      by (auto simp: key_name_def split: expr.splits if_splits)
  next
    case (Some name)
    then have "field_loop (entry # entries) found =
       (if name \<notin> set button_fields then Err [Lit ''unknown Halo button field '', Show_str name]
        else if name \<in> set found then Err [Lit ''duplicate Halo button field '', Show_str name]
        else field_loop entries (name # found))"
      by (auto simp: key_name_def split: expr.splits if_splits)
    then have "field_loop (entry # entries) found = Ok names \<longleftrightarrow>
        name \<in> set button_fields \<and> name \<notin> set found \<and> field_loop entries (name # found) = Ok names"
      by simp
    also have "\<dots> \<longleftrightarrow> (\<exists>ns. map (key_name \<circ> fst) entries = map Some ns \<and> set (name # ns) \<subseteq> set button_fields \<and>
        distinct (name # ns) \<and> set (name # ns) \<inter> set found = {} \<and> names = rev (name # ns) @ found)"
      unfolding Cons.IH by (simp only: list.set distinct.simps rev.simps append_assoc append_Cons append_Nil) blast
    also have "\<dots> \<longleftrightarrow> (\<exists>ns. map (key_name \<circ> fst) (entry # entries) = map Some ns \<and> set ns \<subseteq> set button_fields \<and>
        distinct ns \<and> set ns \<inter> set found = {} \<and> names = rev ns @ found)"
      (is "(\<exists>ns. ?l ns) \<longleftrightarrow> (\<exists>ns. ?r ns)")
    proof
      assume "\<exists>ns. ?l ns"
      then obtain ns where "?l ns" ..
      with Some have "?r (name # ns)" by simp
      then show "\<exists>ns. ?r ns" ..
    next
      assume "\<exists>ns. ?r ns"
      then obtain ns where ns: "?r ns" ..
      then obtain n ns' where "ns = n # ns'"
        by (cases ns) simp_all
      with ns Some have "?l ns'" by simp
      then show "\<exists>ns. ?l ns" ..
    qed
    finally show ?thesis .
  qed
qed

text \<open>A map that has each field of a button sample once and no other field.\<close>

definition exact_fields :: "expr \<Rightarrow> bool" where
  "exact_fields e \<longleftrightarrow> (\<exists>entries ns. e = EMap entries \<and> map (key_name \<circ> fst) entries = map Some ns \<and>
     distinct ns \<and> set ns = set button_fields)"

lemma ensure_fields_Ok: "ensure_fields e = Ok u \<longleftrightarrow> exact_fields e"
proof -
  have fields: "distinct button_fields"
    by (simp add: button_fields_def)
  have all: "set ns \<subseteq> set button_fields \<and> length ns = length button_fields \<longleftrightarrow> set ns = set button_fields"
    if "distinct ns" for ns
    using distinct_card [OF that] distinct_card [OF fields] card_subset_eq [of "set button_fields" "set ns"] by auto
  show ?thesis
  proof (cases e)
    case (EMap entries)
    then have "ensure_fields e = Ok u \<longleftrightarrow> (\<exists>ns. map (key_name \<circ> fst) entries = map Some ns \<and> distinct ns \<and>
        set ns \<subseteq> set button_fields \<and> length ns = length button_fields)"
      by (auto simp: ensure_fields_def and_then_eq_Ok field_loop_Ok)
    also have "\<dots> \<longleftrightarrow> exact_fields e"
      using all EMap by (auto simp: exact_fields_def)
    finally show ?thesis .
  qed (simp_all add: ensure_fields_def exact_fields_def)
qed

definition u64_text :: "expr \<Rightarrow> u64 option" where
  "u64_text v = (case v of
       ENumber d canonical \<Rightarrow>
         if sym_name d = ''i64'' \<or> sym_name d = ''u64'' then parse_u64 canonical else None
     | _ \<Rightarrow> None)"

lemma button_required_u64_Ok:
  assumes "wire_laws wv"
  shows "button_required_u64 wv e name = Ok n \<longleftrightarrow> Option.bind (va_field wv e name) u64_text = Some n"
proof -
  have read: "(case v of
      ENumber d canonical \<Rightarrow>
        if sym_name d = ''i64'' \<or> sym_name d = ''u64'' then ok_or (parse_u64 canonical) er else Err er
    | _ \<Rightarrow> Err er) = Ok n \<longleftrightarrow> u64_text v = Some n" for v and er :: message
    by (cases v) (simp_all add: u64_text_def)
  show ?thesis
    unfolding button_required_u64_def Let_def and_then_eq_Ok map_err_eq_Ok wire_access(3) [OF assms] read
      bind_eq_Some_conv ..
qed

lemma u64_text_uint:
  assumes "wire_laws wv"
  shows "u64_text (wo_uint wv n) = Some n"
proof -
  obtain d where "wo_uint wv n = ENumber d (show_nat (unat n))" "sym_name d = ''i64'' \<or> sym_name d = ''u64''"
    by (rule wire_uint [OF assms])
  then show ?thesis
    by (simp add: u64_text_def)
qed

lemma button_from_symbol_Ok: "button_from_symbol s = Ok b \<longleftrightarrow> s = button_symbol b"
  by (cases s; cases b) (auto simp: button_from_symbol_def button_symbol_def symbol_qualified_def)

lemma button_from_expr_Ok:
  assumes "wire_laws wv"
  shows "button_from_expr wv ds e = Ok b \<longleftrightarrow> exact_fields e \<and>
    va_field wv e ''kind'' = Some (ESymbol (ds_record ds)) \<and>
    va_field wv e ''sample'' = Some (ESymbol (ds_kind ds ''xr/button'')) \<and>
    va_field wv e ''device'' = Some (ESymbol (ds_halo ds)) \<and>
    Option.bind (va_field wv e ''seq'') u64_text = Some (bs_seq b) \<and>
    va_field wv e ''button'' = Some (ESymbol (button_symbol (bs_button b))) \<and>
    va_field wv e ''pressed'' = Some (EBool (bs_pressed b)) \<and>
    Option.bind (va_field wv e ''t-ns'') u64_text = Some (bs_t_ns b)"
proof -
  have sym: "required_symbol wv e name = Ok s \<longleftrightarrow> va_field wv e name = Some (ESymbol s)" for name s
    by (simp add: required_symbol_def wire_access(4) [OF assms])
  have expect: "expect_symbol wv e name s = Ok u \<longleftrightarrow> va_field wv e name = Some (ESymbol s)" for name s u
    by (auto simp: expect_symbol_def and_then_eq_Ok sym)
  show ?thesis
    unfolding button_from_expr_def and_then_eq_Ok ensure_fields_Ok expect sym button_from_symbol_Ok
      button_required_u64_Ok [OF assms] map_err_eq_Ok wire_access(6) [OF assms] button_sample_kind_symbol_def
      button_kind_def button_sample_new_def
    by (cases b) auto
qed

lemma button_expr_fields:
  assumes "wire_laws wv"
  shows "exact_fields (button_expr wv ds b)"
proof -
  define kvs where "kvs = [(''kind'', ESymbol (ds_record ds)),
      (''sample'', ESymbol (button_sample_kind_symbol ds)),
      (''seq'', wo_uint wv (bs_seq b)),
      (''device'', ESymbol (ds_halo ds)),
      (''button'', ESymbol (button_symbol (bs_button b))),
      (''pressed'', EBool (bs_pressed b)),
      (''t-ns'', wo_uint wv (bs_t_ns b))]"
  obtain entries where entries: "vb_map wv kvs = EMap entries"
    "map (\<lambda>(k, v). (key_name k, v)) entries = map (\<lambda>(n, v). (Some n, v)) kvs"
    by (rule wire_map [OF assms])
  have names: "map fst kvs = button_fields"
    by (simp add: kvs_def button_fields_def)
  have "map (key_name \<circ> fst) entries = map fst (map (\<lambda>(k, v). (key_name k, v)) entries)"
    by auto
  also have "\<dots> = map Some button_fields"
    unfolding entries(2) names [symmetric] by auto
  finally show ?thesis
    using entries(1) unfolding exact_fields_def button_expr_def kvs_def [symmetric]
    by (intro exI [of _ entries] exI [of _ button_fields]) (simp add: button_fields_def)
qed

subsection \<open>What a route accepts\<close>

definition halo_sample_valid ::
  "sample_symbols \<Rightarrow> ('p, 't, 'm, 'c) xr_ops \<Rightarrow> ('p, 't, 'm, 'c) halo_sample \<Rightarrow> bool" where
  "halo_sample_valid ds xr s \<longleftrightarrow> (case s of
       MotionSample p \<Rightarrow> xp_dof xr p = 3 \<and> \<not> xp_has_position xr p
     | TapSample t \<Rightarrow> xt_device xr t = ds_halo ds
     | CameraSample c \<Rightarrow> xc_device xr c = ds_halo ds \<and> xc_width xr c = 640 \<and> xc_height xr c = 480 \<and> \<not> xc_stereo xr c
     | _ \<Rightarrow> True)"

text \<open>The numbers of one kind, in order.\<close>

definition kind_seqs :: "('p, 't, 'm, 'c) xr_ops \<Rightarrow> string \<Rightarrow> ('p, 't, 'm, 'c) halo_sample list \<Rightarrow> u64 list" where
  "kind_seqs xr kind samples = map (halo_sample_seq xr) (filter (\<lambda>s. halo_sample_kind s = kind) samples)"

definition samples_valid ::
  "sample_symbols \<Rightarrow> ('p, 't, 'm, 'c) xr_ops \<Rightarrow> ('p, 't, 'm, 'c) halo_sample list \<Rightarrow> bool" where
  "samples_valid ds xr samples \<longleftrightarrow> (\<forall>s \<in> set samples. halo_sample_valid ds xr s) \<and>
     length (filter is_camera samples) \<le> 1 \<and> (\<forall>kind. sorted (kind_seqs xr kind samples))"

lemma halo_sample_validate_Ok: "halo_sample_validate ds xr s = Ok u \<longleftrightarrow> halo_sample_valid ds xr s"
  by (cases s) (auto simp: halo_sample_valid_def)

lemma validate_loop_Ok:
  "cameras \<le> 1 \<Longrightarrow> validate_loop ds xr last_seq cameras samples = Ok u \<longleftrightarrow>
     (\<forall>s \<in> set samples. halo_sample_valid ds xr s) \<and>
     cameras + length (filter is_camera samples) \<le> 1 \<and>
     (\<forall>kind. sorted ((case bt_get last_seq kind of None \<Rightarrow> [] | Some n \<Rightarrow> [n]) @ kind_seqs xr kind samples))"
proof (induction samples arbitrary: last_seq cameras)
  case Nil
  then show ?case by (auto simp: kind_seqs_def split: option.splits)
next
  case (Cons s samples)
  define kind where "kind = halo_sample_kind s"
  define seq where "seq = halo_sample_seq xr s"
  define cameras' where "cameras' = (if is_camera s then Suc cameras else cameras)"
  define later where "later = (case bt_get last_seq kind of None \<Rightarrow> True | Some n \<Rightarrow> n \<le> seq)"
  have step: "validate_loop ds xr last_seq cameras (s # samples) = Ok u \<longleftrightarrow>
      halo_sample_valid ds xr s \<and> cameras' \<le> 1 \<and> later \<and>
      validate_loop ds xr (bt_insert kind seq last_seq) cameras' samples = Ok u"
    using Cons.prems
    by (auto simp: and_then_eq_Ok halo_sample_validate_Ok Let_def kind_def [symmetric] seq_def [symmetric]
        cameras'_def later_def not_less split: option.splits)
  have sorted_step: "(\<forall>k. sorted ((case bt_get last_seq k of None \<Rightarrow> [] | Some n \<Rightarrow> [n]) @ kind_seqs xr k (s # samples))) \<longleftrightarrow>
      later \<and> (\<forall>k. sorted ((case bt_get (bt_insert kind seq last_seq) k of None \<Rightarrow> [] | Some n \<Rightarrow> [n]) @ kind_seqs xr k samples))"
    (is "?all \<longleftrightarrow> later \<and> ?rest")
  proof -
    have other: "kind_seqs xr k (s # samples) = (if k = kind then seq # kind_seqs xr k samples else kind_seqs xr k samples)" for k
      by (simp add: kind_seqs_def kind_def seq_def)
    have "sorted ((case bt_get last_seq k of None \<Rightarrow> [] | Some n \<Rightarrow> [n]) @ kind_seqs xr k (s # samples)) \<longleftrightarrow>
        (k = kind \<longrightarrow> later) \<and>
        sorted ((case bt_get (bt_insert kind seq last_seq) k of None \<Rightarrow> [] | Some n \<Rightarrow> [n]) @ kind_seqs xr k samples)" for k
      by (auto simp: other btree.get_insert later_def split: option.splits)
    then show ?thesis by auto
  qed
  have count: "cameras + length (filter is_camera (s # samples)) = cameras' + length (filter is_camera samples)"
    by (simp add: cameras'_def)
  show ?case
  proof (cases "cameras' \<le> 1")
    case True
    then show ?thesis
      unfolding step Cons.IH [OF True] sorted_step count by auto
  next
    case False
    then show ?thesis
      unfolding step count by simp
  qed
qed

lemma validate_samples_Ok: "validate_samples ds xr samples = Ok u \<longleftrightarrow> samples_valid ds xr samples"
  by (simp add: validate_samples_def validate_loop_Ok samples_valid_def btree.get_empty)

subsection \<open>Properties\<close>

text \<open>
  C27. A button sample that is encoded is decoded to itself, for every number and every time up to
  \<open>2 ^ 64 - 1\<close>. Decoding is strict: what it accepts is a map that has each of the seven fields once and
  no other, names the record, the sample kind and the Halo device, and holds the values decoded.
\<close>
theorem button_roundtrip:
  assumes "wire_laws wv"
  shows "button_from_expr wv ds (button_expr wv ds b) = Ok b \<and>
    (button_from_expr wv ds e = Ok b' \<longrightarrow> exact_fields e \<and>
      va_field wv e ''kind'' = Some (ESymbol (ds_record ds)) \<and>
      va_field wv e ''sample'' = Some (ESymbol (ds_kind ds ''xr/button'')) \<and>
      va_field wv e ''device'' = Some (ESymbol (ds_halo ds)) \<and>
      va_field wv e ''button'' = va_field wv (button_expr wv ds b') ''button'' \<and>
      va_field wv e ''pressed'' = va_field wv (button_expr wv ds b') ''pressed'')"
proof -
  have field: "va_field wv (button_expr wv ds b) ''kind'' = Some (ESymbol (ds_record ds))"
    "va_field wv (button_expr wv ds b) ''sample'' = Some (ESymbol (ds_kind ds ''xr/button''))"
    "va_field wv (button_expr wv ds b) ''device'' = Some (ESymbol (ds_halo ds))"
    "va_field wv (button_expr wv ds b) ''seq'' = Some (wo_uint wv (bs_seq b))"
    "va_field wv (button_expr wv ds b) ''button'' = Some (ESymbol (button_symbol (bs_button b)))"
    "va_field wv (button_expr wv ds b) ''pressed'' = Some (EBool (bs_pressed b))"
    "va_field wv (button_expr wv ds b) ''t-ns'' = Some (wo_uint wv (bs_t_ns b))" for b
    by (simp_all add: button_expr_def wire_access(1) [OF assms] button_sample_kind_symbol_def button_kind_def)
  show ?thesis
    unfolding button_from_expr_Ok [OF assms] field
    by (simp add: button_expr_fields [OF assms] u64_text_uint [OF assms])
qed

definition demo_symbols :: sample_symbols where
  "demo_symbols = \<lparr>ds_record = symbol_new ''record'', ds_kind = symbol_qualified ''stream/device-sample'',
     ds_halo = symbol_qualified ''device'' ''halo''\<rparr>"

theorem button_roundtrip_witness:
  "button_from_expr demo_wire demo_symbols (button_expr demo_wire demo_symbols (button_sample_new (- 1) Primary True 0))
     = Ok (button_sample_new (- 1) Primary True 0)"
  using button_roundtrip [OF demo_wire_laws, of demo_symbols "button_sample_new (- 1) Primary True 0"] by blast

end
