(* ===== verification/HaloFrame.thy ===== *)
theory HaloFrame
  imports Kernel "HOL-Library.Multiset"
begin

section \<open>The Halo frame scheduler\<close>

text \<open>
  \<open>src/lua_render.rs\<close> and \<open>src/frame_budget.rs\<close> of \<open>crates/sim-lib-stream-halo\<close>: glance cards as
  display cells, the cells that differ from what the display shows, and the scheduler that emits
  them under a byte budget per tick, most urgent first, committing only what it emitted. The
  lemmas say what one tick does to the committed cells; the properties that a tick never exceeds
  its budget nor its counter, and that ticking on one frame ends with the frame on display.
  Reading a card out of a scene expression (\<open>GlanceCard::from_scene\<close>) is external.
\<close>

subsection \<open>Cells (\<open>src/lua_render.rs\<close>)\<close>

text \<open>A Rust \<open>char\<close> is its code point; a text is the list of its characters.\<close>

type_synonym glyph = u32

type_synonym glance_text = "glyph list"

definition text_of :: "string \<Rightarrow> glance_text" where
  "text_of s = map of_char s"

datatype lua_region =
  TitleRegion | MetricLabelRegion | MetricValueRegion | ActionLabelRegion | UrgencyRegion | WarrantRegion

text \<open>The order derived for the regions and the priorities is that of their declaration.\<close>

primrec region_rank :: "lua_region \<Rightarrow> nat" where
  "region_rank TitleRegion = 0"
| "region_rank MetricLabelRegion = 1"
| "region_rank MetricValueRegion = 2"
| "region_rank ActionLabelRegion = 3"
| "region_rank UrgencyRegion = 4"
| "region_rank WarrantRegion = 5"

lemma region_rank_inject [simp]: "region_rank a = region_rank b \<longleftrightarrow> a = b"
  by (cases a; cases b) simp_all

instantiation lua_region :: linorder
begin

definition less_eq_lua_region :: "lua_region \<Rightarrow> lua_region \<Rightarrow> bool" where
  "less_eq_lua_region a b \<longleftrightarrow> region_rank a \<le> region_rank b"

definition less_lua_region :: "lua_region \<Rightarrow> lua_region \<Rightarrow> bool" where
  "less_lua_region a b \<longleftrightarrow> region_rank a < region_rank b"

instance
  by standard (auto simp: less_eq_lua_region_def less_lua_region_def)

end

primrec region_token :: "lua_region \<Rightarrow> string" where
  "region_token TitleRegion = ''title''"
| "region_token MetricLabelRegion = ''metric_label''"
| "region_token MetricValueRegion = ''metric_value''"
| "region_token ActionLabelRegion = ''action_label''"
| "region_token UrgencyRegion = ''urgency''"
| "region_token WarrantRegion = ''warrant''"

datatype lua_priority = WarrantPriority | UrgentPriority | NormalPriority

primrec priority_rank :: "lua_priority \<Rightarrow> nat" where
  "priority_rank WarrantPriority = 0"
| "priority_rank UrgentPriority = 1"
| "priority_rank NormalPriority = 2"

lemma priority_rank_inject [simp]: "priority_rank a = priority_rank b \<longleftrightarrow> a = b"
  by (cases a; cases b) simp_all

instantiation lua_priority :: linorder
begin

definition less_eq_lua_priority :: "lua_priority \<Rightarrow> lua_priority \<Rightarrow> bool" where
  "less_eq_lua_priority a b \<longleftrightarrow> priority_rank a \<le> priority_rank b"

definition less_lua_priority :: "lua_priority \<Rightarrow> lua_priority \<Rightarrow> bool" where
  "less_lua_priority a b \<longleftrightarrow> priority_rank a < priority_rank b"

instance
  by standard (auto simp: less_eq_lua_priority_def less_lua_priority_def)

end

record lua_cell =
  lc_region :: lua_region
  lc_index :: u16
  lc_glyph :: "glyph option"
  lc_priority :: lua_priority

text \<open>The primitive, as the characters of the formatted string, all of them one byte.\<close>

definition to_lua_primitive :: "lua_cell \<Rightarrow> string" where
  "to_lua_primitive c =
     ''sim.set_cell('' @ [CHR 0x22] @ region_token (lc_region c) @ [CHR 0x22] @ '','' @
     show_nat (unat (lc_index c)) @ '','' @
     (case lc_glyph c of None \<Rightarrow> ''nil'' | Some g \<Rightarrow> show_nat (unat g)) @ '')'' @ [CHR 0x0A]"

definition byte_len :: "lua_cell \<Rightarrow> u32" where
  "byte_len c = (let n = length (to_lua_primitive c) in if n < 2 ^ 32 then of_nat n else - 1)"

definition encode_lua_cells :: "lua_cell list \<Rightarrow> string" where
  "encode_lua_cells cells = concat (map to_lua_primitive cells)"

subsection \<open>Frames and their differences (\<open>src/frame_budget.rs\<close>)\<close>

definition lua_cell_new :: "lua_region \<Rightarrow> u16 \<Rightarrow> glyph option \<Rightarrow> lua_priority \<Rightarrow> lua_cell" where
  "lua_cell_new region index glyph priority =
     \<lparr>lc_region = region, lc_index = index, lc_glyph = glyph, lc_priority = priority\<rparr>"

record lua_budget =
  max_bytes_per_tick :: u32

definition zero_budget_error :: error where
  "zero_budget_error = Eval [Lit ''Halo Lua frame budget must be greater than zero'']"

definition lua_budget_new :: "u32 \<Rightarrow> lua_budget result" where
  "lua_budget_new n = and_then (ensure (n \<noteq> 0) zero_budget_error) (\<lambda>_. Ok \<lparr>max_bytes_per_tick = n\<rparr>)"

record frame_diff =
  fd_cells :: "lua_cell list"
  fd_bytes :: u32
  fd_deferred :: "lua_cell list"

definition diff_complete :: "frame_diff \<Rightarrow> bool" where
  "diff_complete d \<longleftrightarrow> fd_deferred d = []"

text \<open>\<open>CellKey\<close>: its fields in the order it is compared by.\<close>

type_synonym cell_key = "lua_region \<times> u16"

record state_cell =
  sc_glyph :: glyph
  sc_priority :: lua_priority

type_synonym frame_state = "(cell_key, state_cell) btree"

text \<open>The fields of \<open>GlanceCard\<close> that are read.\<close>

record glance_card =
  gc_title :: glance_text
  gc_metric :: "(glance_text \<times> glance_text) option"
  gc_action :: "glance_text option"
  gc_urgency :: glance_text
  gc_bypass_budget :: bool

primrec insert_text ::
  "nat \<Rightarrow> lua_region \<Rightarrow> glance_text \<Rightarrow> lua_priority \<Rightarrow> frame_state \<Rightarrow> frame_state result" where
  "insert_text index region [] priority cells = Ok cells"
| "insert_text index region (glyph # rest) priority cells =
     (if index < 2 ^ 16
      then insert_text (Suc index) region rest priority
             (bt_insert (region, of_nat index) \<lparr>sc_glyph = glyph, sc_priority = priority\<rparr> cells)
      else Err (HostError [Lit ''Halo Lua region '', Lit (region_token region), Lit '' exceeds '',
             Show_num 65535, Lit '' glyph cells'']))"

definition urgency_priority :: "glance_card \<Rightarrow> lua_priority" where
  "urgency_priority gc =
     (if gc_bypass_budget gc \<or> gc_urgency gc = text_of ''warrant'' then WarrantPriority
      else if gc_urgency gc \<in> set [text_of ''warn'', text_of ''error'', text_of ''critical'']
      then UrgentPriority else NormalPriority)"

definition frame_state_empty :: frame_state where
  "frame_state_empty = bt_empty"

definition from_card :: "glance_card \<Rightarrow> frame_state result" where
  "from_card gc =
     (let content = (if gc_bypass_budget gc then WarrantPriority else NormalPriority)
      in and_then (insert_text 0 TitleRegion (gc_title gc) content bt_empty) (\<lambda>s1.
         and_then (case gc_metric gc of
             None \<Rightarrow> Ok s1
           | Some (label, val) \<Rightarrow>
               and_then (insert_text 0 MetricLabelRegion label content s1)
                 (insert_text 0 MetricValueRegion val content)) (\<lambda>s2.
         and_then (case gc_action gc of
             None \<Rightarrow> Ok s2
           | Some label \<Rightarrow> insert_text 0 ActionLabelRegion label content s2) (\<lambda>s3.
         and_then (insert_text 0 UrgencyRegion (gc_urgency gc) (urgency_priority gc) s3) (\<lambda>s4.
         Ok (if gc_bypass_budget gc
             then bt_insert (WarrantRegion, 0)
                    \<lparr>sc_glyph = of_char (CHR 0x21), sc_priority = WarrantPriority\<rparr> s4
             else s4))))))"

definition from_glance :: "(expr \<Rightarrow> glance_card result) \<Rightarrow> expr \<Rightarrow> frame_state result" where
  "from_glance from_scene frame = and_then (from_scene frame) from_card"

definition cell_count :: "frame_state \<Rightarrow> nat" where
  "cell_count s = length s"

definition cell_change :: "frame_state \<Rightarrow> frame_state \<Rightarrow> cell_key \<Rightarrow> lua_cell option" where
  "cell_change previous target key =
     (let previous_cell = bt_get previous key; target_cell = bt_get target key
      in if previous_cell = target_cell then None
         else Some \<lparr>lc_region = fst key, lc_index = snd key,
           lc_glyph = map_option sc_glyph target_cell,
           lc_priority = (case (case target_cell of Some c \<Rightarrow> Some c | None \<Rightarrow> previous_cell) of
               Some c \<Rightarrow> sc_priority c | None \<Rightarrow> NormalPriority)\<rparr>)"

definition changed_cells :: "frame_state \<Rightarrow> frame_state \<Rightarrow> lua_cell list" where
  "changed_cells previous target =
     List.map_filter (cell_change previous target) (sort (remdups (bt_keys previous @ bt_keys target)))"

definition apply_cell :: "lua_cell \<Rightarrow> frame_state \<Rightarrow> frame_state" where
  "apply_cell c s =
     (let key = (lc_region c, lc_index c)
      in case lc_glyph c of
        Some glyph \<Rightarrow> bt_insert key \<lparr>sc_glyph = glyph, sc_priority = lc_priority c\<rparr> s
      | None \<Rightarrow> bt_remove key s)"

subsection \<open>The scheduler\<close>

definition schedule_order :: "lua_cell \<Rightarrow> lua_priority \<times> lua_region \<times> u16" where
  "schedule_order c = (lc_priority c, lc_region c, lc_index c)"

text \<open>
  The loop of \<open>schedule\<close>, from the bytes spent so far and the committed cells; \<open>None\<close> is the
  overflow of the unchecked \<open>bytes += cell_bytes\<close>.
\<close>

primrec schedule_loop ::
  "u32 \<Rightarrow> lua_cell list \<Rightarrow> u32 \<Rightarrow> frame_state \<Rightarrow> (frame_diff \<times> frame_state) option" where
  "schedule_loop budget [] bytes s = Some (\<lparr>fd_cells = [], fd_bytes = bytes, fd_deferred = []\<rparr>, s)"
| "schedule_loop budget (c # cs) bytes s =
     (if sat_add bytes (byte_len c) \<le> budget
      then do {
        bytes' \<leftarrow> checked_add bytes (byte_len c);
        (d, s') \<leftarrow> schedule_loop budget cs bytes' (apply_cell c s);
        Some (d\<lparr>fd_cells := c # fd_cells d\<rparr>, s') }
      else do {
        (d, s') \<leftarrow> schedule_loop budget cs bytes s;
        Some (d\<lparr>fd_deferred := c # fd_deferred d\<rparr>, s') })"

definition unfit_error :: "lua_budget \<Rightarrow> lua_cell list \<Rightarrow> error" where
  "unfit_error budget deferred = HostError [Lit ''Halo Lua frame budget '',
     Show_num (unat (max_bytes_per_tick budget)), Lit '' cannot fit the smallest changed cell ('',
     Show_num (case map (\<lambda>c. unat (byte_len c)) deferred of [] \<Rightarrow> 0 | n # ns \<Rightarrow> fold min ns n),
     Lit '' bytes)'']"

definition schedule ::
  "(expr \<Rightarrow> glance_card result) \<Rightarrow> lua_budget \<Rightarrow> expr \<Rightarrow> frame_state \<Rightarrow>
   (frame_diff result \<times> frame_state) option" where
  "schedule from_scene budget next_frame committed =
     (if max_bytes_per_tick budget = 0 then Some (Err zero_budget_error, committed)
      else case from_glance from_scene next_frame of
        Inl e \<Rightarrow> Some (Err e, committed)
      | Inr target \<Rightarrow>
          do { (d, committed') \<leftarrow> schedule_loop (max_bytes_per_tick budget)
                 (sort_key schedule_order (changed_cells committed target)) 0 committed;
               Some (if fd_cells d = [] \<and> fd_deferred d \<noteq> []
                     then (Err (unfit_error budget (fd_deferred d)), committed')
                     else (Ok d, committed')) })"

definition scheduler_empty :: frame_state where
  "scheduler_empty = frame_state_empty"

definition scheduler_from_glance :: "(expr \<Rightarrow> glance_card result) \<Rightarrow> expr \<Rightarrow> frame_state result" where
  "scheduler_from_glance from_scene previous = from_glance from_scene previous"

definition diff_glance ::
  "(expr \<Rightarrow> glance_card result) \<Rightarrow> expr \<Rightarrow> expr \<Rightarrow> lua_budget \<Rightarrow> frame_diff result option" where
  "diff_glance from_scene previous next_frame budget =
     (case scheduler_from_glance from_scene previous of
        Inl e \<Rightarrow> Some (Err e)
      | Inr committed \<Rightarrow> map_option fst (schedule from_scene budget next_frame committed))"

subsection \<open>The encoded length of a cell\<close>

lemma length_show_nat: "n < 10 ^ k \<Longrightarrow> 0 < k \<Longrightarrow> length (show_nat n) \<le> k"
proof (induction n arbitrary: k rule: show_nat.induct)
  case (1 n)
  show ?case
  proof (cases "n < 10")
    case True
    with 1(3) show ?thesis by (simp add: show_nat.simps [of n])
  next
    case False
    obtain j where "k = Suc j"
      using 1(3) by (cases k) auto
    then have k: "k = Suc j" "0 < j"
      using 1(2) False by (auto intro: gr0I)
    then have "n div 10 < 10 ^ j"
      using 1(2) by (simp add: less_mult_imp_div_less mult.commute)
    from 1(1) [OF False this k(2)] False k(1) show ?thesis
      by (simp add: show_nat.simps [of n])
  qed
qed

lemma length_primitive: "length (to_lua_primitive c) \<le> 46"
proof -
  have "unat (lc_index c) < 2 ^ 16"
    using unsigned_less [of "lc_index c", where 'a = nat] by simp
  then have "unat (lc_index c) < 10 ^ 5"
    by simp
  then have "length (show_nat (unat (lc_index c))) \<le> 5"
    by (rule length_show_nat) simp
  moreover have "length (region_token (lc_region c)) \<le> 12"
    by (cases "lc_region c") simp_all
  moreover have "length (case lc_glyph c of None \<Rightarrow> ''nil'' | Some g \<Rightarrow> show_nat (unat g)) \<le> 10"
  proof (cases "lc_glyph c")
    case (Some g)
    have "unat g < 2 ^ 32"
      using unsigned_less [of g, where 'a = nat] by simp
    then have "unat g < 10 ^ 10"
      by simp
    then show ?thesis
      using Some length_show_nat [of "unat g" 10] by simp
  qed simp
  ultimately show ?thesis
    by (simp add: to_lua_primitive_def)
qed

lemma unat_byte_len [simp]: "unat (byte_len c) = length (to_lua_primitive c)"
  using length_primitive [of c] by (simp add: byte_len_def unat_of_nat)

lemma length_encode: "length (encode_lua_cells cells) = sum_list (map (\<lambda>c. length (to_lua_primitive c)) cells)"
  by (simp add: encode_lua_cells_def length_concat comp_def)

subsection \<open>Changes\<close>

abbreviation cell_key_of :: "lua_cell \<Rightarrow> cell_key" where
  "cell_key_of c \<equiv> (lc_region c, lc_index c)"

lemma cell_change_key: "cell_change p t k = Some c \<Longrightarrow> cell_key_of c = k"
  by (auto simp: cell_change_def Let_def split: if_splits)

lemma cell_change_None: "cell_change p t k = None \<longleftrightarrow> bt_get p k = bt_get t k"
  by (simp add: cell_change_def Let_def)

lemma cell_change_keys: "cell_change p t k = Some c \<Longrightarrow> k \<in> set (bt_keys p) \<union> set (bt_keys t)"
  using cell_change_None [of p t k] by (auto simp: btree.set_keys)

lemma changed_cells_iff: "c \<in> set (changed_cells p t) \<longleftrightarrow> cell_change p t (cell_key_of c) = Some c"
proof
  assume "c \<in> set (changed_cells p t)"
  then obtain k where "cell_change p t k = Some c"
    by (force simp: changed_cells_def map_filter_def)
  with cell_change_key [OF this] show "cell_change p t (cell_key_of c) = Some c"
    by simp
next
  assume "cell_change p t (cell_key_of c) = Some c"
  with cell_change_keys [OF this] show "c \<in> set (changed_cells p t)"
    by (force simp: changed_cells_def map_filter_def)
qed

lemma changed_cells_keys:
  "map cell_key_of (changed_cells p t) = filter (\<lambda>k. cell_change p t k \<noteq> None) (sort (remdups (bt_keys p @ bt_keys t)))"
proof -
  have "map cell_key_of (List.map_filter (cell_change p t) ks) = filter (\<lambda>k. cell_change p t k \<noteq> None) ks" for ks
    by (induction ks) (auto simp: map_filter_simps cell_change_key split: option.splits)
  then show ?thesis
    by (simp add: changed_cells_def)
qed

lemma changed_cells_distinct: "distinct (map cell_key_of (changed_cells p t))"
  unfolding changed_cells_keys by simp

lemma changed_cells_Nil: "changed_cells p t = [] \<longleftrightarrow> (\<forall>k. bt_get p k = bt_get t k)"
proof -
  have "changed_cells p t = [] \<longleftrightarrow> (\<forall>k. cell_change p t k = None)"
  proof
    assume empty: "changed_cells p t = []"
    show "\<forall>k. cell_change p t k = None"
    proof
      fix k
      show "cell_change p t k = None"
      proof (rule ccontr)
        assume "cell_change p t k \<noteq> None"
        then obtain c where c: "cell_change p t k = Some c" by blast
        then have "c \<in> set (changed_cells p t)"
          unfolding changed_cells_iff by (simp add: cell_change_key [OF c])
        with empty show False by simp
      qed
    qed
  next
    assume none: "\<forall>k. cell_change p t k = None"
    show "changed_cells p t = []"
      using changed_cells_iff [of _ p t] none by (cases "changed_cells p t") auto
  qed
  then show ?thesis by (simp add: cell_change_None)
qed

text \<open>There are at most as many changes as cells on the display.\<close>

lemma card_lua_region: "card (UNIV :: lua_region set) = 6"
proof -
  have all: "(UNIV :: lua_region set) = {TitleRegion, MetricLabelRegion, MetricValueRegion, ActionLabelRegion,
      UrgencyRegion, WarrantRegion}"
    using lua_region.exhaust by blast
  show ?thesis unfolding all by simp
qed

lemma finite_lua_region: "finite (UNIV :: lua_region set)"
  by (rule card_ge_0_finite) (simp add: card_lua_region)

lemma length_changed: "length (changed_cells p t) \<le> 393216"
proof -
  have "length (changed_cells p t) = card (set (map cell_key_of (changed_cells p t)))"
    using distinct_card [OF changed_cells_distinct [of p t]] by simp
  also have "\<dots> \<le> card (UNIV :: cell_key set)"
    by (rule card_mono [OF _ subset_UNIV])
      (simp only: UNIV_Times_UNIV [symmetric] finite_cartesian_product finite_lua_region finite)
  also have "\<dots> = 393216"
    by (simp only: UNIV_Times_UNIV [symmetric] card_cartesian_product card_lua_region card_word) simp
  finally show ?thesis .
qed

lemma changed_bytes: "sum_list (map (\<lambda>c. length (to_lua_primitive c)) (changed_cells p t)) < 2 ^ 32"
proof -
  have "sum_list (map (\<lambda>c. length (to_lua_primitive c)) cs) \<le> length cs * 46" for cs
    by (induction cs) (auto intro: add_mono length_primitive)
  from this [of "changed_cells p t"] length_changed [of p t] show ?thesis by simp
qed

text \<open>Applying a change makes its key agree with the target and leaves the other keys alone.\<close>

lemma cell_change_glyph:
  "cell_change p t k = Some c \<Longrightarrow> lc_glyph c = map_option sc_glyph (bt_get t k)"
  "cell_change p t k = Some c \<Longrightarrow> bt_get t k = Some sc \<Longrightarrow> lc_priority c = sc_priority sc"
  by (auto simp: cell_change_def Let_def split: if_splits)

lemma apply_cell_get:
  assumes "cell_change p t (cell_key_of c) = Some c"
  shows "bt_get (apply_cell c s) k = (if k = cell_key_of c then bt_get t k else bt_get s k)"
  using cell_change_glyph [OF assms]
  by (cases "bt_get t (cell_key_of c)") (auto simp: apply_cell_def btree.laws)

lemma apply_cell_wf: "bt_wf s \<Longrightarrow> bt_wf (apply_cell c s)"
  by (auto simp: apply_cell_def Let_def btree.wf_insert btree.wf_remove split: option.splits)

lemma fold_apply_wf: "bt_wf s \<Longrightarrow> bt_wf (fold apply_cell cs s)"
  by (induction cs arbitrary: s) (simp_all add: apply_cell_wf)

lemma fold_apply_get:
  "(\<And>c. c \<in> set cs \<Longrightarrow> cell_change p t (cell_key_of c) = Some c) \<Longrightarrow>
   bt_get (fold apply_cell cs s) k = (if k \<in> cell_key_of ` set cs then bt_get t k else bt_get s k)"
proof (induction cs arbitrary: s)
  case (Cons c cs)
  have "bt_get (fold apply_cell cs (apply_cell c s)) k =
      (if k \<in> cell_key_of ` set cs then bt_get t k else bt_get (apply_cell c s) k)"
    using Cons by simp
  then show ?case
    using apply_cell_get [of p t c s k] Cons.prems by auto
qed simp

subsection \<open>One tick\<close>

lemma schedule_loop_spec:
  "unat bytes + sum_list (map (\<lambda>c. length (to_lua_primitive c)) cs) < 2 ^ 32 \<Longrightarrow>
   \<exists>d. schedule_loop budget cs bytes s = Some (d, fold apply_cell (fd_cells d) s) \<and>
     mset cs = mset (fd_cells d) + mset (fd_deferred d) \<and>
     (sorted_wrt R cs \<longrightarrow> sorted_wrt R (fd_cells d) \<and> sorted_wrt R (fd_deferred d)) \<and>
     unat (fd_bytes d) = unat bytes + length (encode_lua_cells (fd_cells d)) \<and>
     (bytes \<le> budget \<longrightarrow> fd_bytes d \<le> budget) \<and>
     (fd_cells d = [] \<longrightarrow> (\<forall>c \<in> set (fd_deferred d). unat budget < unat bytes + length (to_lua_primitive c)))"
proof (induction cs arbitrary: bytes s)
  case Nil
  show ?case
    by (intro exI [of _ "\<lparr>fd_cells = [], fd_bytes = bytes, fd_deferred = []\<rparr>"]) (simp add: encode_lua_cells_def)
next
  case (Cons c cs)
  have small: "unat bytes + length (to_lua_primitive c) < 2 ^ 32"
    using Cons.prems by simp
  then have sum: "unat (bytes + byte_len c) = unat bytes + length (to_lua_primitive c)"
    "sat_add bytes (byte_len c) = bytes + byte_len c" "checked_add bytes (byte_len c) = Some (bytes + byte_len c)"
    using unat_add_no_wrap [of bytes "byte_len c"] by (simp_all add: sat_add_def checked_add_def)
  show ?case
  proof (cases "bytes + byte_len c \<le> budget")
    case True
    from Cons.IH [of "bytes + byte_len c" "apply_cell c s"] Cons.prems sum(1) obtain d where
      d: "schedule_loop budget cs (bytes + byte_len c) (apply_cell c s)
          = Some (d, fold apply_cell (fd_cells d) (apply_cell c s))"
        "mset cs = mset (fd_cells d) + mset (fd_deferred d)"
        "sorted_wrt R cs \<longrightarrow> sorted_wrt R (fd_cells d) \<and> sorted_wrt R (fd_deferred d)"
        "unat (fd_bytes d) = unat (bytes + byte_len c) + length (encode_lua_cells (fd_cells d))"
        "fd_bytes d \<le> budget"
      using True by auto
    have "set (fd_cells d) \<subseteq> set cs"
      using arg_cong [OF d(2), of set_mset] by auto
    with d True sum show ?thesis
      by (intro exI [of _ "d\<lparr>fd_cells := c # fd_cells d\<rparr>"]) (auto simp: encode_lua_cells_def)
  next
    case False
    from Cons.IH [of bytes s] Cons.prems obtain d where
      d: "schedule_loop budget cs bytes s = Some (d, fold apply_cell (fd_cells d) s)"
        "mset cs = mset (fd_cells d) + mset (fd_deferred d)"
        "sorted_wrt R cs \<longrightarrow> sorted_wrt R (fd_cells d) \<and> sorted_wrt R (fd_deferred d)"
        "unat (fd_bytes d) = unat bytes + length (encode_lua_cells (fd_cells d))"
        "bytes \<le> budget \<longrightarrow> fd_bytes d \<le> budget"
        "fd_cells d = [] \<longrightarrow> (\<forall>c \<in> set (fd_deferred d). unat budget < unat bytes + length (to_lua_primitive c))"
      by auto
    have "set (fd_deferred d) \<subseteq> set cs"
      using arg_cong [OF d(2), of set_mset] by auto
    moreover have "unat budget < unat bytes + length (to_lua_primitive c)"
      using False sum(1) by (simp add: word_le_nat_alt)
    ultimately show ?thesis
      using d False sum by (intro exI [of _ "d\<lparr>fd_deferred := c # fd_deferred d\<rparr>"]) auto
  qed
qed

text \<open>What one tick towards a frame that can be displayed does.\<close>

lemma schedule_tick:
  assumes "from_glance from_scene frame = Ok target" and "0 < max_bytes_per_tick budget"
  obtains d where
    "schedule from_scene budget frame s =
       Some (if fd_cells d = [] \<and> fd_deferred d \<noteq> [] then Err (unfit_error budget (fd_deferred d)) else Ok d,
             fold apply_cell (fd_cells d) s)"
    "mset (fd_cells d) + mset (fd_deferred d) = mset (changed_cells s target)"
    "sorted (map schedule_order (fd_cells d))" "sorted (map schedule_order (fd_deferred d))"
    "unat (fd_bytes d) = length (encode_lua_cells (fd_cells d))" "fd_bytes d \<le> max_bytes_per_tick budget"
    "\<And>c. fd_cells d = [] \<Longrightarrow> c \<in> set (fd_deferred d) \<Longrightarrow>
       unat (max_bytes_per_tick budget) < length (to_lua_primitive c)"
    "\<And>k. bt_get (fold apply_cell (fd_cells d) s) k =
       (if k \<in> cell_key_of ` set (fd_cells d) then bt_get target k else bt_get s k)"
proof -
  let ?cs = "sort_key schedule_order (changed_cells s target)"
  have "sum_list (map (\<lambda>c. length (to_lua_primitive c)) ?cs) =
      sum_list (map (\<lambda>c. length (to_lua_primitive c)) (changed_cells s target))"
    unfolding sum_mset_sum_list [symmetric] by simp
  then have bytes: "unat (0 :: u32) + sum_list (map (\<lambda>c. length (to_lua_primitive c)) ?cs) < 2 ^ 32"
    using changed_bytes [of s target] by simp
  from schedule_loop_spec [OF bytes, of "max_bytes_per_tick budget" s "\<lambda>a b. schedule_order a \<le> schedule_order b"]
  obtain d where d: "schedule_loop (max_bytes_per_tick budget) ?cs 0 s = Some (d, fold apply_cell (fd_cells d) s)"
      "mset ?cs = mset (fd_cells d) + mset (fd_deferred d)"
      "sorted_wrt (\<lambda>a b. schedule_order a \<le> schedule_order b) ?cs \<longrightarrow>
        sorted_wrt (\<lambda>a b. schedule_order a \<le> schedule_order b) (fd_cells d) \<and>
        sorted_wrt (\<lambda>a b. schedule_order a \<le> schedule_order b) (fd_deferred d)"
      "unat (fd_bytes d) = length (encode_lua_cells (fd_cells d))" "fd_bytes d \<le> max_bytes_per_tick budget"
      "fd_cells d = [] \<longrightarrow> (\<forall>c \<in> set (fd_deferred d). unat (max_bytes_per_tick budget) < length (to_lua_primitive c))"
    by auto
  have sorted: "sorted (map schedule_order (fd_cells d))" "sorted (map schedule_order (fd_deferred d))"
    using d(3) sorted_sort_key [of schedule_order "changed_cells s target"] by (simp_all add: sorted_wrt_map)
  have "set (fd_cells d) \<subseteq> set (changed_cells s target)"
    using arg_cong [OF d(2), of set_mset] by auto
  then have "bt_get (fold apply_cell (fd_cells d) s) k =
       (if k \<in> cell_key_of ` set (fd_cells d) then bt_get target k else bt_get s k)" for k
    by (intro fold_apply_get) (auto simp: changed_cells_iff)
  then show thesis
    using assms d sorted by (intro that [of d]) (auto simp: schedule_def)
qed

text \<open>After a tick the cells still to change are those it deferred.\<close>

lemma tick_changes:
  assumes parts: "mset cells + mset deferred = mset (changed_cells s target)"
    and get: "\<And>k. bt_get s' k = (if k \<in> cell_key_of ` set cells then bt_get target k else bt_get s k)"
  shows "length (changed_cells s' target) = length deferred" "set (changed_cells s' target) = set deferred"
proof -
  have "mset (map cell_key_of cells @ map cell_key_of deferred) = mset (map cell_key_of (changed_cells s target))"
    unfolding mset_map parts [symmetric] by simp
  from mset_eq_imp_distinct_iff [OF this] have keys: "distinct (map cell_key_of cells @ map cell_key_of deferred)"
    using changed_cells_distinct [of s target] by blast
  have members: "set cells \<union> set deferred = set (changed_cells s target)"
    using arg_cong [OF parts, of set_mset] by simp
  show eq: "set (changed_cells s' target) = set deferred"
  proof (rule set_eqI)
    fix c
    have "cell_change s' target (cell_key_of c) =
        (if cell_key_of c \<in> cell_key_of ` set cells then None else cell_change s target (cell_key_of c))"
      by (auto simp: cell_change_def get Let_def)
    then have "c \<in> set (changed_cells s' target) \<longleftrightarrow>
        cell_key_of c \<notin> cell_key_of ` set cells \<and> c \<in> set (changed_cells s target)"
      unfolding changed_cells_iff by simp
    also have "\<dots> \<longleftrightarrow> c \<in> set deferred"
      using keys members by (auto simp: image_iff)
    finally show "c \<in> set (changed_cells s' target) \<longleftrightarrow> c \<in> set deferred" .
  qed
  have "distinct deferred" "distinct (changed_cells s' target)"
    using keys changed_cells_distinct [of s' target] by (auto simp: distinct_map)
  then show "length (changed_cells s' target) = length deferred"
    by (metis distinct_card eq)
qed

lemma insert_text_wf: "bt_wf cells \<Longrightarrow> insert_text i region rest priority cells = Ok s \<Longrightarrow> bt_wf s"
proof (induction rest arbitrary: i cells)
  case (Cons glyph rest)
  from Cons.prems(2) have "insert_text (Suc i) region rest priority
      (bt_insert (region, of_nat i) \<lparr>sc_glyph = glyph, sc_priority = priority\<rparr> cells) = Ok s"
    by (simp split: if_splits)
  from Cons.IH [OF btree.wf_insert [OF Cons.prems(1)] this] show ?case .
qed simp

lemma from_card_wf:
  assumes "from_card gc = Ok s"
  shows "bt_wf s"
proof -
  define content where "content = (if gc_bypass_budget gc then WarrantPriority else NormalPriority)"
  from assms have "\<exists>s1. insert_text 0 TitleRegion (gc_title gc) content bt_empty = Ok s1 \<and>
    (\<exists>s2. (case gc_metric gc of None \<Rightarrow> Ok s1
        | Some (label, val) \<Rightarrow> and_then (insert_text 0 MetricLabelRegion label content s1)
            (insert_text 0 MetricValueRegion val content)) = Ok s2 \<and>
    (\<exists>s3. (case gc_action gc of None \<Rightarrow> Ok s2
        | Some label \<Rightarrow> insert_text 0 ActionLabelRegion label content s2) = Ok s3 \<and>
    (\<exists>s4. insert_text 0 UrgencyRegion (gc_urgency gc) (urgency_priority gc) s3 = Ok s4 \<and>
      Ok (if gc_bypass_budget gc
          then bt_insert (WarrantRegion, 0) \<lparr>sc_glyph = of_char (CHR 0x21), sc_priority = WarrantPriority\<rparr> s4
          else s4) = (Ok s :: frame_state result))))"
    unfolding from_card_def Let_def content_def [symmetric] and_then_eq_Ok .
  then obtain s1 s2 s3 s4 where steps: "insert_text 0 TitleRegion (gc_title gc) content bt_empty = Ok s1"
    "(case gc_metric gc of None \<Rightarrow> Ok s1
      | Some (label, val) \<Rightarrow> and_then (insert_text 0 MetricLabelRegion label content s1)
          (insert_text 0 MetricValueRegion val content)) = Ok s2"
    "(case gc_action gc of None \<Rightarrow> Ok s2
      | Some label \<Rightarrow> insert_text 0 ActionLabelRegion label content s2) = Ok s3"
    "insert_text 0 UrgencyRegion (gc_urgency gc) (urgency_priority gc) s3 = Ok s4"
    "Ok (if gc_bypass_budget gc
          then bt_insert (WarrantRegion, 0) \<lparr>sc_glyph = of_char (CHR 0x21), sc_priority = WarrantPriority\<rparr> s4
          else s4) = (Ok s :: frame_state result)"
    by (elim exE conjE) (rule that)
  have "bt_wf s1"
    by (rule insert_text_wf [OF btree.wf_empty steps(1)])
  then have "bt_wf s2"
    using steps(2)
    by (auto simp: and_then_eq_Ok split: option.splits intro: insert_text_wf [OF insert_text_wf])
  then have "bt_wf s3"
    using steps(3) by (auto split: option.splits dest: insert_text_wf)
  then have "bt_wf s4"
    using steps(4) by (rule insert_text_wf)
  with steps(5) show ?thesis
    by (auto intro: btree.wf_insert split: if_splits)
qed

lemma from_glance_wf: "from_glance from_scene frame = Ok s \<Longrightarrow> bt_wf s"
  by (auto simp: from_glance_def result_simps intro: from_card_wf)

text \<open>Ticking on one frame: the cells still to change get fewer at every tick.\<close>

lemma ticks_converge:
  assumes target: "from_glance from_scene frame = Ok target" and budget: "0 < max_bytes_per_tick budget"
  shows "bt_wf s \<Longrightarrow> length (changed_cells s target) \<le> n \<Longrightarrow>
    (\<And>c. c \<in> set (changed_cells s target) \<Longrightarrow> length (to_lua_primitive c) \<le> unat (max_bytes_per_tick budget)) \<Longrightarrow>
    \<exists>outs. run_steps (\<lambda>_. schedule from_scene budget frame) (replicate n ()) s = Some (outs, target) \<and>
      (\<forall>out \<in> set outs. \<exists>d. out = Ok d)"
proof (induction n arbitrary: s)
  case 0
  then have "s = target"
    using changed_cells_Nil [of s target] from_glance_wf [OF target] by (intro bt_ext) auto
  then show ?case by simp
next
  case (Suc n)
  obtain d where d: "schedule from_scene budget frame s =
       Some (if fd_cells d = [] \<and> fd_deferred d \<noteq> [] then Err (unfit_error budget (fd_deferred d)) else Ok d,
             fold apply_cell (fd_cells d) s)"
    "mset (fd_cells d) + mset (fd_deferred d) = mset (changed_cells s target)"
    "sorted (map schedule_order (fd_cells d))" "sorted (map schedule_order (fd_deferred d))"
    "unat (fd_bytes d) = length (encode_lua_cells (fd_cells d))" "fd_bytes d \<le> max_bytes_per_tick budget"
    "\<And>c. fd_cells d = [] \<Longrightarrow> c \<in> set (fd_deferred d) \<Longrightarrow>
       unat (max_bytes_per_tick budget) < length (to_lua_primitive c)"
    "\<And>k. bt_get (fold apply_cell (fd_cells d) s) k =
       (if k \<in> cell_key_of ` set (fd_cells d) then bt_get target k else bt_get s k)"
    by (rule schedule_tick [OF target budget, of s]) (rule that)
  note left = tick_changes [OF d(2,8)]
  have members: "set (fd_deferred d) \<subseteq> set (changed_cells s target)"
    using arg_cong [OF d(2), of set_mset] by auto
  have progress: "fd_cells d \<noteq> [] \<or> fd_deferred d = []"
  proof (rule ccontr)
    assume "\<not> ?thesis"
    then obtain c where "fd_cells d = []" "c \<in> set (fd_deferred d)"
      by (cases "fd_deferred d") auto
    with d(7) Suc.prems(3) members show False
      by (meson leD subsetD)
  qed
  have "length (fd_cells d) + length (fd_deferred d) = length (changed_cells s target)"
    using arg_cong [OF d(2), of size] by simp
  then have "length (changed_cells (fold apply_cell (fd_cells d) s) target) \<le> n"
    using Suc.prems(2) progress left(1) by (cases "fd_cells d") auto
  from Suc.IH [OF fold_apply_wf [OF Suc.prems(1)] this] Suc.prems(3) left(2) members obtain outs where
    "run_steps (\<lambda>_. schedule from_scene budget frame) (replicate n ()) (fold apply_cell (fd_cells d) s)
      = Some (outs, target)" "\<forall>out \<in> set outs. \<exists>d. out = Ok d"
    by blast
  with d(1) progress show ?case by auto
qed

subsection \<open>Properties\<close>

text \<open>
  C20. One tick towards a frame that can be displayed returns without an arithmetic overflow. What it
  emits fits the budget and its byte count is exact; emitted and deferred cells together are the
  changed cells, each list in scheduling order (warrant cells first); the display afterwards
  agrees with the frame on the emitted cells and is unchanged elsewhere, so nothing deferred
  means the frame is displayed. A tick fails only when no changed cell fits the budget, and then
  nothing is committed.
\<close>
theorem frame_tick_bounded:
  assumes "from_glance from_scene frame = Ok target" and "bt_wf s" and "0 < max_bytes_per_tick budget"
  shows "\<exists>out s'. schedule from_scene budget frame s = Some (out, s') \<and> bt_wf s' \<and>
    (case out of
       Inr d \<Rightarrow> unat (fd_bytes d) = length (encode_lua_cells (fd_cells d)) \<and>
         fd_bytes d \<le> max_bytes_per_tick budget \<and>
         mset (fd_cells d) + mset (fd_deferred d) = mset (changed_cells s target) \<and>
         sorted (map schedule_order (fd_cells d)) \<and> sorted (map schedule_order (fd_deferred d)) \<and>
         (\<forall>k. bt_get s' k = (if k \<in> (\<lambda>c. (lc_region c, lc_index c)) ` set (fd_cells d)
            then bt_get target k else bt_get s k)) \<and>
         (diff_complete d \<longleftrightarrow> s' = target)
     | Inl e \<Rightarrow> s' = s \<and> s \<noteq> target \<and>
         (\<forall>c \<in> set (changed_cells s target). unat (max_bytes_per_tick budget) < length (to_lua_primitive c)))"
proof -
  obtain d where d: "schedule from_scene budget frame s =
       Some (if fd_cells d = [] \<and> fd_deferred d \<noteq> [] then Err (unfit_error budget (fd_deferred d)) else Ok d,
             fold apply_cell (fd_cells d) s)"
    "mset (fd_cells d) + mset (fd_deferred d) = mset (changed_cells s target)"
    "sorted (map schedule_order (fd_cells d))" "sorted (map schedule_order (fd_deferred d))"
    "unat (fd_bytes d) = length (encode_lua_cells (fd_cells d))" "fd_bytes d \<le> max_bytes_per_tick budget"
    "\<And>c. fd_cells d = [] \<Longrightarrow> c \<in> set (fd_deferred d) \<Longrightarrow>
       unat (max_bytes_per_tick budget) < length (to_lua_primitive c)"
    "\<And>k. bt_get (fold apply_cell (fd_cells d) s) k =
       (if k \<in> cell_key_of ` set (fd_cells d) then bt_get target k else bt_get s k)"
    by (rule schedule_tick [OF assms(1,3), of s]) (rule that)
  define s' where "s' = fold apply_cell (fd_cells d) s"
  have wf: "bt_wf s'" "bt_wf target"
    using fold_apply_wf [OF assms(2)] from_glance_wf [OF assms(1)] by (simp_all add: s'_def)
  have "length (changed_cells s' target) = length (fd_deferred d)"
    unfolding s'_def by (rule tick_changes(1) [OF d(2,8)])
  then have complete: "fd_deferred d = [] \<longleftrightarrow> s' = target"
    using changed_cells_Nil [of s' target] bt_ext [OF wf] by auto
  have "set (fd_deferred d) = set (changed_cells s target)" if "fd_cells d = []"
    using that arg_cong [OF d(2), of set_mset] by simp
  then have unfit: "unat (max_bytes_per_tick budget) < length (to_lua_primitive c)"
    if "fd_cells d = []" "c \<in> set (changed_cells s target)" for c
    using d(7) that by blast
  show ?thesis
  proof (cases "fd_cells d = [] \<and> fd_deferred d \<noteq> []")
    case True
    then have "s' = s" "s \<noteq> target"
      using complete by (auto simp: s'_def)
    with True d(1) wf(1) unfit show ?thesis
      by (auto simp: s'_def)
  next
    case False
    with d complete wf(1) show ?thesis
      by (auto simp: s'_def diff_complete_def)
  qed
qed

text \<open>
  C21. Scheduling the same frame again and again displays it: when every changed cell fits the
  budget on its own (46 bytes are enough for any cell), then after as many ticks as there are
  changed cells, or more, no tick has failed and the committed cells are exactly the frame's.
\<close>
theorem frame_converges:
  assumes "from_glance from_scene frame = Ok target" and "bt_wf s" and "0 < max_bytes_per_tick budget"
    and "\<forall>c \<in> set (changed_cells s target). length (to_lua_primitive c) \<le> unat (max_bytes_per_tick budget)"
    and "length (changed_cells s target) \<le> n"
  shows "\<exists>outs. run_steps (\<lambda>_. schedule from_scene budget frame) (replicate n ()) s = Some (outs, target) \<and>
    (\<forall>out \<in> set outs. \<exists>d. out = Ok d)"
  using ticks_converge [OF assms(1,3,2,5)] assms(4) by blast

definition demo_card :: glance_card where
  "demo_card = \<lparr>gc_title = text_of ''Hi'', gc_metric = None, gc_action = None, gc_urgency = text_of ''warn'',
     gc_bypass_budget = False\<rparr>"

definition demo_target :: frame_state where
  "demo_target =
     [((TitleRegion, 0), \<lparr>sc_glyph = 72, sc_priority = NormalPriority\<rparr>),
      ((TitleRegion, 1), \<lparr>sc_glyph = 105, sc_priority = NormalPriority\<rparr>),
      ((UrgencyRegion, 0), \<lparr>sc_glyph = 119, sc_priority = UrgentPriority\<rparr>),
      ((UrgencyRegion, 1), \<lparr>sc_glyph = 97, sc_priority = UrgentPriority\<rparr>),
      ((UrgencyRegion, 2), \<lparr>sc_glyph = 114, sc_priority = UrgentPriority\<rparr>),
      ((UrgencyRegion, 3), \<lparr>sc_glyph = 110, sc_priority = UrgentPriority\<rparr>)]"

lemma demo_from_glance: "from_glance (\<lambda>_. Ok demo_card) ENil = Ok demo_target"
  by (simp add: from_glance_def from_card_def demo_card_def text_of_def urgency_priority_def bt_empty_def
      demo_target_def less_lua_region_def less_eq_lua_region_def)

theorem frame_tick_bounded_witness:
  "\<exists>d s'. schedule (\<lambda>_. Ok demo_card) \<lparr>max_bytes_per_tick = 60\<rparr> ENil [] = Some (Ok d, s') \<and>
     length (encode_lua_cells (fd_cells d)) \<le> 60"
proof -
  have wf: "bt_wf ([] :: frame_state)"
    by (simp add: bt_wf_def)
  have "0 < max_bytes_per_tick \<lparr>max_bytes_per_tick = 60\<rparr>"
    by simp
  from frame_tick_bounded [OF demo_from_glance wf this]
  obtain out s' where tick: "schedule (\<lambda>_. Ok demo_card) \<lparr>max_bytes_per_tick = 60\<rparr> ENil [] = Some (out, s')"
    "case out of
       Inr d \<Rightarrow> unat (fd_bytes d) = length (encode_lua_cells (fd_cells d)) \<and> fd_bytes d \<le> 60
     | Inl e \<Rightarrow> \<forall>c \<in> set (changed_cells [] demo_target). 60 < length (to_lua_primitive c)"
    by (elim exE conjE) (rule that, assumption, simp split: sum.splits)
  have "changed_cells [] demo_target \<noteq> []"
    by code_simp
  then have "\<exists>c \<in> set (changed_cells [] demo_target). length (to_lua_primitive c) \<le> 60"
    using order_trans [OF length_primitive, of 60] by (cases "changed_cells [] demo_target") auto
  then obtain d where d: "out = Ok d" "unat (fd_bytes d) = length (encode_lua_cells (fd_cells d))" "fd_bytes d \<le> 60"
    using tick(2) by (cases out) (auto simp: not_less [symmetric])
  from d(3) have "unat (fd_bytes d) \<le> 60"
    by (simp add: word_le_nat_alt)
  with d tick(1) show ?thesis
    by auto
qed

theorem frame_converges_witness:
  "\<exists>outs. run_steps (\<lambda>_. schedule (\<lambda>_. Ok demo_card) \<lparr>max_bytes_per_tick = 60\<rparr> ENil) (replicate 6 ()) []
     = Some (outs, demo_target)"
proof -
  have "length (changed_cells [] demo_target) \<le> 6"
    by code_simp
  moreover have "\<forall>c \<in> set (changed_cells [] demo_target).
      length (to_lua_primitive c) \<le> unat (max_bytes_per_tick \<lparr>max_bytes_per_tick = 60\<rparr>)"
    using order_trans [OF length_primitive, of 60] by simp
  moreover have "bt_wf ([] :: frame_state)"
    by (simp add: bt_wf_def)
  ultimately show ?thesis
    using frame_converges [OF demo_from_glance, of "[]" "\<lparr>max_bytes_per_tick = 60\<rparr>" 6] by auto
qed

end
