(* ===== verification/Sessions.thy ===== *)
theory Sessions
  imports Wire
begin

section \<open>Sessions of the provider crates\<close>

text \<open>
  The two session traits of \<open>src/device.rs\<close> as a record of functions, one call of a caller as a
  step, and the contract the watch, Halo and VITURE sessions share: one standard descriptor
  authorizes every effect, every receipt answers one packet appended to the log of sent packets
  and carries the new length of the log. The locale proves what a run of such a session hands out;
  it is an \<open>effect_session\<close>, so that everything known of authorized sessions holds too.
\<close>

record 's session_ops =
  so_start :: "'s \<Rightarrow> unit device_result \<times> 's"
  so_poll :: "string \<Rightarrow> 's \<Rightarrow> expr option device_result \<times> 's"
  so_stop :: "'s \<Rightarrow> unit device_result \<times> 's"
  so_invoke :: "effect_request \<Rightarrow> 's \<Rightarrow> (effect_receipt device_result \<times> 's) option"

primrec session_step :: "'s session_ops \<Rightarrow> fake_op \<Rightarrow> 's \<Rightarrow> (fake_out \<times> 's) option" where
  "session_step ops StartSession s = Some (let (r, s') = so_start ops s in (Done r, s'))"
| "session_step ops StopSession s = Some (let (r, s') = so_stop ops s in (Done r, s'))"
| "session_step ops (PollSession kind) s = Some (let (r, s') = so_poll ops kind s in (Polled r, s'))"
| "session_step ops (InvokeEffect req) s = map_option (\<lambda>(r, s'). (Invoked r, s')) (so_invoke ops req s)"

definition session_receipt :: "effect_descriptor \<Rightarrow> nat \<Rightarrow> effect_receipt" where
  "session_receipt d n = \<lparr>rc_kind = ed_receipt d, rc_descriptor = ed_id d, rc_sequence = of_nat n\<rparr>"

locale logged_session =
  fixes debug_len :: "expr \<Rightarrow> usize"
    and ops :: "'s session_ops"
    and descriptor :: effect_descriptor
    and sent :: "'s \<Rightarrow> nat"
  assumes start_keeps: "sent (snd (so_start ops s)) = sent s"
    and stop_keeps: "sent (snd (so_stop ops s)) = sent s"
    and poll_keeps: "sent (snd (so_poll ops kind s)) = sent s"
    and invoke_receipt: "so_invoke ops req s = Some (Ok r, s') \<Longrightarrow>
      authorize debug_len descriptor req = Ok () \<and> sent s' = Suc (sent s) \<and>
      r = session_receipt descriptor (sent s')"
    and invoke_refused: "so_invoke ops req s = Some (Err e, s') \<Longrightarrow> sent s' = sent s"
begin

lemma observe_keeps:
  "so_start ops s = (r, s') \<Longrightarrow> sent s' = sent s"
  "so_stop ops s = (r, s') \<Longrightarrow> sent s' = sent s"
  "so_poll ops kind s = (x, s') \<Longrightarrow> sent s' = sent s"
  using start_keeps [of s] stop_keeps [of s] poll_keeps [of kind s] by simp_all

lemma step_cases:
  assumes "session_step ops op s = Some (out, s')"
  obtains (no_receipt) "out_receipt out = None" "sent s' = sent s"
  | (receipt) req where "op = InvokeEffect req" "authorize debug_len descriptor req = Ok ()"
      "sent s' = Suc (sent s)" "out = Invoked (Ok (session_receipt descriptor (sent s')))"
proof (cases op)
  case (InvokeEffect req)
  with assms obtain r where r: "so_invoke ops req s = Some (r, s')" "out = Invoked r"
    by auto
  then show ?thesis
    using InvokeEffect invoke_receipt [of req s _ s'] invoke_refused [of req s _ s'] receipt no_receipt
    by (cases r) (auto simp: out_receipt_def)
qed (use assms in \<open>auto simp: out_receipt_def observe_keeps split: prod.splits intro!: no_receipt\<close>)

lemma run_receipts:
  "run_steps (session_step ops) l s = Some (outs, s') \<Longrightarrow>
   sent s \<le> sent s' \<and>
   List.map_filter out_receipt outs = map (session_receipt descriptor) [Suc (sent s)..<Suc (sent s')]"
proof (induction l arbitrary: s outs)
  case Nil
  then show ?case by (simp add: map_filter_simps)
next
  case (Cons op l)
  then obtain out s1 outs1 where step: "session_step ops op s = Some (out, s1)"
    and rest: "run_steps (session_step ops) l s1 = Some (outs1, s')" and outs: "outs = out # outs1"
    by (auto split: bind_splits)
  note IH = Cons.IH [OF rest]
  from step show ?case
  proof (cases rule: step_cases)
    case no_receipt
    with IH show ?thesis by (simp add: outs map_filter_simps)
  next
    case (receipt req)
    then have "out_receipt out = Some (session_receipt descriptor (Suc (sent s)))"
      by (simp add: out_receipt_def)
    moreover have "[Suc (sent s)..<Suc (sent s')] = Suc (sent s) # [Suc (sent s1)..<Suc (sent s')]"
      using IH receipt(3) by (subst upt_rec) simp
    ultimately show ?thesis
      using IH receipt(3) by (simp add: outs map_filter_simps del: upt_Suc)
  qed
qed

end

text \<open>The only registered effect of such a session is its descriptor.\<close>

definition single_effect :: "effect_descriptor \<Rightarrow> symbol \<Rightarrow> effect_descriptor option" where
  "single_effect d i = (if i = ed_id d then Some d else None)"

lemma authorize_descriptor: "authorize debug_len d req = Ok () \<Longrightarrow> rq_descriptor req = ed_id d"
  by (simp add: authorize_Ok authorized_def)

sublocale logged_session \<subseteq> effect_session debug_len "session_step ops" op_request out_receipt
    "\<lambda>_. single_effect descriptor"
proof
  fix op s out s' r
  assume step: "session_step ops op s = Some (out, s')" and r: "out_receipt out = Some r"
  from step show "\<exists>req d. op_request op = Some req \<and> single_effect descriptor (rq_descriptor req) = Some d \<and>
      authorize debug_len d req = Ok ()"
  proof (cases rule: step_cases)
    case (receipt req)
    then show ?thesis
      using authorize_descriptor [OF receipt(2)] by (auto simp: op_request_def single_effect_def)
  qed (use r in simp)
qed simp

context logged_session begin

lemma run_effects_authorized:
  assumes "run_steps (session_step ops) l s = Some (outs, s')" and "(op, out) \<in> set (zip l outs)"
    and "out_receipt out = Some r"
  shows "\<exists>req. op = InvokeEffect req \<and> authorized debug_len descriptor req"
  using run_authorized [OF assms]
  by (auto simp: single_effect_def op_request_def split: if_splits fake_op.splits)

end

end
