(* ===== verification/HaloSession.thy ===== *)
theory HaloSession
  imports HaloSamples HaloFrame Sessions
begin

section \<open>The Halo provider and its sessions\<close>

text \<open>
  \<open>src/provider.rs\<close> and \<open>src/stub.rs\<close> of \<open>crates/sim-lib-stream-halo\<close>: the provider over one
  route, and the session that polls the samples of the route and sends Lua frames. The
  session is a \<open>logged_session\<close>; the frame scheduler is that of \<open>HaloFrame\<close>. Reading a glance card
  from a scene, and displaying a kernel error, are external and parameters.
\<close>

subsection \<open>Provider\<close>

datatype halo_route_kind = HaloBleRoute | HaloWebRoute | HaloRelayRoute | HaloStubRoute

primrec halo_route_token :: "halo_route_kind \<Rightarrow> string" where
  "halo_route_token HaloBleRoute = ''ble''"
| "halo_route_token HaloWebRoute = ''web-bluetooth''"
| "halo_route_token HaloRelayRoute = ''relay''"
| "halo_route_token HaloStubRoute = ''stub''"

datatype 's halo_route =
    HaloBle "'s halo_ble_link"
  | HaloWeb "'s web_link"
  | HaloRelay "'s halo_relay_link"
  | HaloStub

text \<open>The profile; the sample kinds of the external crate are its argument.\<close>

definition halo_device_profile :: "sample_symbols \<Rightarrow> symbol \<Rightarrow> symbol \<Rightarrow> symbol \<Rightarrow> symbol \<Rightarrow> device_profile" where
  "halo_device_profile ds pose tap mic camera = \<lparr>
     dp_device = ds_halo ds,
     dp_streams = map (symbol_qualified ''device/stream'') [''orientation'', ''microphone-ref'', ''camera-pull-ref''],
     dp_inputs = map (symbol_qualified ''device/input'') [''tap'', ''button''],
     dp_outputs = [symbol_qualified ''glasses/output'' ''lua-glance''],
     dp_sample_kinds = [pose, tap, button_sample_kind_symbol ds, mic, camera]\<rparr>"

record 's halo_provider =
  hp_route :: "'s halo_route"
  hp_profile :: device_profile
  hp_frame_budget :: lua_budget

definition default_frame_bytes :: u32 where
  "default_frame_bytes = 512"

definition halo_provider_new :: "device_profile \<Rightarrow> 's halo_route \<Rightarrow> 's halo_provider" where
  "halo_provider_new profile route = \<lparr>hp_route = route, hp_profile = profile,
     hp_frame_budget = \<lparr>max_bytes_per_tick = default_frame_bytes\<rparr>\<rparr>"

definition with_frame_budget :: "lua_budget \<Rightarrow> 's halo_provider \<Rightarrow> 's halo_provider" where
  "with_frame_budget budget p = p\<lparr>hp_frame_budget := budget\<rparr>"

definition halo_ble :: "device_profile \<Rightarrow> 's halo_ble_link \<Rightarrow> 's halo_provider" where
  "halo_ble profile link = halo_provider_new profile (HaloBle link)"

definition halo_web :: "device_profile \<Rightarrow> 's web_link \<Rightarrow> 's halo_provider" where
  "halo_web profile link = halo_provider_new profile (HaloWeb link)"

definition halo_relay :: "device_profile \<Rightarrow> 's halo_relay_link \<Rightarrow> 's halo_provider" where
  "halo_relay profile link = halo_provider_new profile (HaloRelay link)"

definition halo_stub :: "device_profile \<Rightarrow> 's halo_provider" where
  "halo_stub profile = halo_provider_new profile HaloStub"

definition halo_stub_provider :: "device_profile \<Rightarrow> 's halo_provider" where
  "halo_stub_provider profile = halo_stub profile"

record halo_packet =
  hf_route :: halo_route_kind
  hf_diff :: frame_diff
  hf_lua :: string

record 's halo_session =
  hs_profile :: device_profile
  hs_route :: halo_route_kind
  hs_samples :: "'s list"
  hs_budget :: lua_budget
  hs_committed :: frame_state
  hs_sent :: "halo_packet list"
  hs_started :: bool

definition halo_session_new ::
  "halo_route_kind \<Rightarrow> 's list \<Rightarrow> device_profile \<Rightarrow> lua_budget \<Rightarrow> 's halo_session" where
  "halo_session_new route samples profile budget = \<lparr>hs_profile = profile, hs_route = route,
     hs_samples = samples, hs_budget = budget, hs_committed = bt_empty, hs_sent = [], hs_started = False\<rparr>"

definition halo_open_session ::
  "sample_symbols \<Rightarrow> ('p, 't, 'm, 'c) xr_ops \<Rightarrow> ('p, 't, 'm, 'c) halo_sample halo_provider \<Rightarrow>
   ('p, 't, 'm, 'c) halo_sample halo_session device_result" where
  "halo_open_session ds xr p =
     and_then (case hp_route p of
         HaloBle link \<Rightarrow> and_then (ble_open_samples link) (\<lambda>ss. Ok (HaloBleRoute, ss))
       | HaloWeb link \<Rightarrow> and_then (web_open_samples link) (\<lambda>ss. Ok (HaloWebRoute, ss))
       | HaloRelay link \<Rightarrow> and_then (relay_open_samples link) (\<lambda>ss. Ok (HaloRelayRoute, ss))
       | HaloStub \<Rightarrow> Err Unsupported) (\<lambda>(route, samples).
     and_then (validate_samples ds xr samples) (\<lambda>_.
     Ok (halo_session_new route samples (hp_profile p) (hp_frame_budget p))))"

definition halo_open ::
  "sample_symbols \<Rightarrow> ('p, 't, 'm, 'c) xr_ops \<Rightarrow> ('p, 't, 'm, 'c) halo_sample halo_provider \<Rightarrow>
   ('o, ('p, 't, 'm, 'c) halo_sample halo_session) opened_session device_result" where
  "halo_open ds xr p = and_then (halo_open_session ds xr p) (\<lambda>s. Ok (Effect s))"

subsection \<open>Session\<close>

definition require_started :: "'s halo_session \<Rightarrow> unit device_result" where
  "require_started s = (if hs_started s then Ok () else Err (Host [Lit ''Halo session is not started'']))"

definition halo_start :: "'s halo_session \<Rightarrow> unit device_result \<times> 's halo_session" where
  "halo_start s = (Ok (), s\<lparr>hs_started := True\<rparr>)"

text \<open>The first sample of a kind, and the samples without it.\<close>

primrec take_kind ::
  "string \<Rightarrow> ('p, 't, 'm, 'c) halo_sample list \<Rightarrow>
   (('p, 't, 'm, 'c) halo_sample \<times> ('p, 't, 'm, 'c) halo_sample list) option" where
  "take_kind kind [] = None"
| "take_kind kind (s # ss) =
     (if halo_sample_kind s = kind then Some (s, ss)
      else map_option (\<lambda>(x, rest). (x, s # rest)) (take_kind kind ss))"

definition halo_poll ::
  "wire_ops \<Rightarrow> sample_symbols \<Rightarrow> ('p, 't, 'm, 'c) xr_ops \<Rightarrow> string \<Rightarrow>
   ('p, 't, 'm, 'c) halo_sample halo_session \<Rightarrow>
   expr option device_result \<times> ('p, 't, 'm, 'c) halo_sample halo_session" where
  "halo_poll wv ds xr kind s =
     (case require_started s of
        Inl e \<Rightarrow> (Err e, s)
      | Inr _ \<Rightarrow>
          (case take_kind kind (hs_samples s) of
             None \<Rightarrow> (Ok None, s)
           | Some (x, rest) \<Rightarrow> (Ok (Some (halo_sample_expr wv ds xr x)), s\<lparr>hs_samples := rest\<rparr>)))"

definition halo_stop :: "'s halo_session \<Rightarrow> unit device_result \<times> 's halo_session" where
  "halo_stop s = (Ok (), s\<lparr>hs_started := False\<rparr>)"

definition byte_mismatch :: device_error where
  "byte_mismatch = Host [Lit ''Halo Lua frame byte count mismatch'']"

text \<open>\<open>invoke\<close>; \<open>None\<close> is an overflow in the scheduler.\<close>

definition halo_invoke ::
  "wire_ops \<Rightarrow> (expr \<Rightarrow> glance_card result) \<Rightarrow> (expr \<Rightarrow> usize) \<Rightarrow> effect_request \<Rightarrow> 's halo_session \<Rightarrow>
   (effect_receipt device_result \<times> 's halo_session) option" where
  "halo_invoke wv from_scene debug_len req s =
     (let d = standard_effect_descriptor ''halo-frame''
      in case and_then (authorize debug_len d req) (\<lambda>_. require_started s) of
        Inl e \<Rightarrow> Some (Err e, s)
      | Inr _ \<Rightarrow> do {
          (out, committed) \<leftarrow> schedule from_scene (hs_budget s) (rq_payload req) (hs_committed s);
          let s1 = s\<lparr>hs_committed := committed\<rparr>;
          Some (case out of
              Inl e \<Rightarrow> (Err (Host (wo_display wv e)), s1)
            | Inr diff \<Rightarrow>
                (let lua = encode_lua_cells (fd_cells diff)
                 in if unat (fd_bytes diff) \<noteq> length lua then (Err byte_mismatch, s1)
                    else (let s2 = s1\<lparr>hs_sent := hs_sent s @ [\<lparr>hf_route = hs_route s, hf_diff = diff, hf_lua = lua\<rparr>]\<rparr>
                          in (Ok \<lparr>rc_kind = ed_receipt d, rc_descriptor = ed_id d,
                                  rc_sequence = vec_len (hs_sent s2)\<rparr>, s2)))) })"

definition halo_ops ::
  "wire_ops \<Rightarrow> sample_symbols \<Rightarrow> ('p, 't, 'm, 'c) xr_ops \<Rightarrow> (expr \<Rightarrow> glance_card result) \<Rightarrow> (expr \<Rightarrow> usize) \<Rightarrow>
   ('p, 't, 'm, 'c) halo_sample halo_session session_ops" where
  "halo_ops wv ds xr from_scene debug_len = \<lparr>so_start = halo_start, so_poll = halo_poll wv ds xr,
     so_stop = halo_stop, so_invoke = halo_invoke wv from_scene debug_len\<rparr>"

subsection \<open>Opening\<close>

text \<open>A route whose names are not blank, with the kind of its sessions and its samples.\<close>

definition halo_route_source :: "'s halo_route \<Rightarrow> (halo_route_kind \<times> 's list) option" where
  "halo_route_source route = (case route of
       HaloBle link \<Rightarrow>
         if trim (hb_adapter link) \<noteq> [] \<and> trim (hb_device link) \<noteq> [] then Some (HaloBleRoute, hb_samples link) else None
     | HaloWeb link \<Rightarrow> if trim (hw_device link) \<noteq> [] then Some (HaloWebRoute, hw_samples link) else None
     | HaloRelay link \<Rightarrow> if trim (hr_endpoint link) \<noteq> [] then Some (HaloRelayRoute, hr_samples link) else None
     | HaloStub \<Rightarrow> None)"

lemma halo_open_session_Ok:
  "halo_open_session ds xr p = Ok s \<longleftrightarrow>
     (\<exists>route samples. halo_route_source (hp_route p) = Some (route, samples) \<and> samples_valid ds xr samples \<and>
        s = halo_session_new route samples (hp_profile p) (hp_frame_budget p))"
  by (cases "hp_route p")
    (auto simp: halo_open_session_def halo_route_source_def and_then_eq_Ok validate_samples_Ok ble_open_samples_def
      web_open_samples_def relay_open_samples_def require_text_def)

subsection \<open>Polling\<close>

lemma take_kind_None: "take_kind kind ss = None \<longleftrightarrow> filter (\<lambda>s. halo_sample_kind s = kind) ss = []"
  by (induction ss) auto

lemma take_kind_Some:
  "take_kind kind ss = Some (x, rest) \<Longrightarrow>
     halo_sample_kind x = kind \<and>
     (\<forall>k. filter (\<lambda>s. halo_sample_kind s = k) ss =
       (if k = kind then x # filter (\<lambda>s. halo_sample_kind s = k) rest else filter (\<lambda>s. halo_sample_kind s = k) rest))"
  by (induction ss arbitrary: x rest) (auto split: if_splits)

subsection \<open>Sending frames\<close>

text \<open>The display after the packets sent, replayed on an empty display.\<close>

definition replay :: "halo_packet list \<Rightarrow> frame_state" where
  "replay packets = fold apply_cell (concat (map (\<lambda>p. fd_cells (hf_diff p)) packets)) bt_empty"

definition packet_valid :: "lua_budget \<Rightarrow> halo_packet \<Rightarrow> bool" where
  "packet_valid budget p \<longleftrightarrow> hf_lua p = encode_lua_cells (fd_cells (hf_diff p)) \<and>
     length (hf_lua p) \<le> unat (max_bytes_per_tick budget)"

lemma replay_snoc: "replay (ps @ [p]) = fold apply_cell (fd_cells (hf_diff p)) (replay ps)"
  by (simp add: replay_def)

text \<open>What the scheduler hands the session, whatever the frame.\<close>

lemma schedule_emits:
  "\<exists>out s'. schedule from_scene budget frame s = Some (out, s') \<and>
     (case out of
        Inl e \<Rightarrow> s' = s
      | Inr d \<Rightarrow> s' = fold apply_cell (fd_cells d) s \<and> unat (fd_bytes d) = length (encode_lua_cells (fd_cells d)) \<and>
          fd_bytes d \<le> max_bytes_per_tick budget)"
proof (cases "max_bytes_per_tick budget = 0")
  case True
  then show ?thesis by (simp add: schedule_def)
next
  case False
  then have pos: "0 < max_bytes_per_tick budget"
    by (simp add: word_gt_0)
  show ?thesis
  proof (cases "from_glance from_scene frame")
    case (Inl e)
    with False show ?thesis by (simp add: schedule_def)
  next
    case (Inr target)
    show ?thesis
      by (rule schedule_tick [OF Inr pos, of s]) auto
  qed
qed

lemma halo_invoke_cases:
  obtains (refused) e where "halo_invoke wv from_scene debug_len req s = Some (Err e, s)"
      "authorize debug_len (standard_effect_descriptor ''halo-frame'') req = Err e \<or>
       require_started s = Err e \<or>
       (\<exists>er. schedule from_scene (hs_budget s) (rq_payload req) (hs_committed s) = Some (Err er, hs_committed s) \<and>
          e = Host (wo_display wv er))"
  | (sent) packet where "authorized debug_len (standard_effect_descriptor ''halo-frame'') req" "hs_started s"
      "packet_valid (hs_budget s) packet" "hf_route packet = hs_route s"
      "schedule from_scene (hs_budget s) (rq_payload req) (hs_committed s) =
         Some (Ok (hf_diff packet), fold apply_cell (fd_cells (hf_diff packet)) (hs_committed s))"
      "halo_invoke wv from_scene debug_len req s =
         Some (Ok (session_receipt (standard_effect_descriptor ''halo-frame'') (Suc (length (hs_sent s)))),
           s\<lparr>hs_committed := fold apply_cell (fd_cells (hf_diff packet)) (hs_committed s),
             hs_sent := hs_sent s @ [packet]\<rparr>)"
proof (cases "and_then (authorize debug_len (standard_effect_descriptor ''halo-frame'') req) (\<lambda>_. require_started s)")
  case (Inl e)
  then have "halo_invoke wv from_scene debug_len req s = Some (Err e, s)"
    by (simp add: halo_invoke_def Let_def)
  moreover from Inl have "authorize debug_len (standard_effect_descriptor ''halo-frame'') req = Err e \<or> require_started s = Err e"
    by (cases "authorize debug_len (standard_effect_descriptor ''halo-frame'') req") simp_all
  ultimately show ?thesis
    by (intro refused) blast+
next
  case (Inr u)
  then have gate: "authorized debug_len (standard_effect_descriptor ''halo-frame'') req" "hs_started s"
    by (auto simp: and_then_eq_Ok authorize_Ok require_started_def split: if_splits)
  obtain out committed where tick: "schedule from_scene (hs_budget s) (rq_payload req) (hs_committed s) = Some (out, committed)"
    and emits: "case out of
        Inl e \<Rightarrow> committed = hs_committed s
      | Inr d \<Rightarrow> committed = fold apply_cell (fd_cells d) (hs_committed s) \<and>
          unat (fd_bytes d) = length (encode_lua_cells (fd_cells d)) \<and> fd_bytes d \<le> max_bytes_per_tick (hs_budget s)"
    using schedule_emits by blast
  show ?thesis
  proof (cases out)
    case (Inl er)
    with tick emits Inr have "halo_invoke wv from_scene debug_len req s = Some (Err (Host (wo_display wv er)), s)"
      by (simp add: halo_invoke_def Let_def)
    then show ?thesis
      using tick emits Inl by (intro refused) auto
  next
    case (Inr d)
    define packet where "packet = \<lparr>hf_route = hs_route s, hf_diff = d, hf_lua = encode_lua_cells (fd_cells d)\<rparr>"
    have valid: "packet_valid (hs_budget s) packet"
      using emits Inr by (simp add: packet_valid_def packet_def word_le_nat_alt)
    have "halo_invoke wv from_scene debug_len req s =
         Some (Ok (session_receipt (standard_effect_descriptor ''halo-frame'') (Suc (length (hs_sent s)))),
           s\<lparr>hs_committed := fold apply_cell (fd_cells d) (hs_committed s), hs_sent := hs_sent s @ [packet]\<rparr>)"
      using tick emits Inr \<open>and_then _ _ = Inr u\<close>
      by (simp add: halo_invoke_def Let_def session_receipt_def vec_len_def packet_def)
    then show ?thesis
      using gate valid tick emits Inr by (intro sent [of packet]) (simp_all add: packet_def)
  qed
qed

interpretation halo_log: logged_session debug_len "halo_ops wv ds xr from_scene debug_len"
    "standard_effect_descriptor ''halo-frame''" "\<lambda>s. length (hs_sent s)" for wv ds xr from_scene debug_len
proof
  fix req r and s s' :: "('a, 'b, 'c, 'd) halo_sample halo_session"
  assume "so_invoke (halo_ops wv ds xr from_scene debug_len) req s = Some (Ok r, s')"
  then have inv: "halo_invoke wv from_scene debug_len req s = Some (Ok r, s')"
    by (simp add: halo_ops_def)
  show "authorize debug_len (standard_effect_descriptor ''halo-frame'') req = Ok () \<and>
      length (hs_sent s') = Suc (length (hs_sent s)) \<and>
      r = session_receipt (standard_effect_descriptor ''halo-frame'') (length (hs_sent s'))"
    by (rule halo_invoke_cases [of wv from_scene debug_len req s]) (use inv in \<open>auto simp: authorize_Ok\<close>)
next
  fix req e and s s' :: "('a, 'b, 'c, 'd) halo_sample halo_session"
  assume "so_invoke (halo_ops wv ds xr from_scene debug_len) req s = Some (Err e, s')"
  then have inv: "halo_invoke wv from_scene debug_len req s = Some (Err e, s')"
    by (simp add: halo_ops_def)
  show "length (hs_sent s') = length (hs_sent s)"
    by (rule halo_invoke_cases [of wv from_scene debug_len req s]) (use inv in auto)
qed (simp_all add: halo_ops_def halo_start_def halo_stop_def halo_poll_def split: sum.splits option.splits prod.splits)

subsection \<open>Runs\<close>

text \<open>The samples of one kind that a run polled.\<close>

definition polled_of :: "string \<Rightarrow> fake_op \<times> fake_out \<Rightarrow> expr option" where
  "polled_of kind x = (case x of
       (PollSession k, Polled (Inr (Some e))) \<Rightarrow> if k = kind then Some e else None
     | _ \<Rightarrow> None)"

text \<open>What is left of one kind, as it will be polled.\<close>

definition left_of ::
  "wire_ops \<Rightarrow> sample_symbols \<Rightarrow> ('p, 't, 'm, 'c) xr_ops \<Rightarrow> string \<Rightarrow> ('p, 't, 'm, 'c) halo_sample list \<Rightarrow> expr list" where
  "left_of wv ds xr kind samples = map (halo_sample_expr wv ds xr) (filter (\<lambda>s. halo_sample_kind s = kind) samples)"

lemma halo_step:
  obtains (start) "op = StartSession" "session_step (halo_ops wv ds xr from_scene debug_len) op s
      = Some (Done (Ok ()), s\<lparr>hs_started := True\<rparr>)"
  | (stop) "op = StopSession" "session_step (halo_ops wv ds xr from_scene debug_len) op s
      = Some (Done (Ok ()), s\<lparr>hs_started := False\<rparr>)"
  | (nothing) out where "session_step (halo_ops wv ds xr from_scene debug_len) op s = Some (out, s)"
      "op \<noteq> StartSession" "\<And>k. polled_of k (op, out) = None"
  | (poll) kind x rest where "op = PollSession kind" "hs_started s" "take_kind kind (hs_samples s) = Some (x, rest)"
      "session_step (halo_ops wv ds xr from_scene debug_len) op s
        = Some (Polled (Ok (Some (halo_sample_expr wv ds xr x))), s\<lparr>hs_samples := rest\<rparr>)"
  | (refused) req e where "op = InvokeEffect req"
      "session_step (halo_ops wv ds xr from_scene debug_len) op s = Some (Invoked (Err e), s)"
  | (sent) req packet where "op = InvokeEffect req" "hs_started s" "packet_valid (hs_budget s) packet"
      "hf_route packet = hs_route s"
      "session_step (halo_ops wv ds xr from_scene debug_len) op s =
        Some (Invoked (Ok (session_receipt (standard_effect_descriptor ''halo-frame'') (Suc (length (hs_sent s))))),
          s\<lparr>hs_committed := fold apply_cell (fd_cells (hf_diff packet)) (hs_committed s),
            hs_sent := hs_sent s @ [packet]\<rparr>)"
proof (cases op)
  case StartSession
  then show ?thesis by (intro start) (simp_all add: halo_ops_def halo_start_def)
next
  case StopSession
  then show ?thesis by (intro stop) (simp_all add: halo_ops_def halo_stop_def)
next
  case (PollSession kind)
  show ?thesis
  proof (cases "require_started s")
    case (Inl e)
    with PollSession have "session_step (halo_ops wv ds xr from_scene debug_len) op s = Some (Polled (Err e), s)"
      by (simp add: halo_ops_def halo_poll_def)
    then show ?thesis
      by (rule nothing) (simp_all add: polled_of_def PollSession)
  next
    case started: (Inr u)
    show ?thesis
    proof (cases "take_kind kind (hs_samples s)")
      case None
      with PollSession started have "session_step (halo_ops wv ds xr from_scene debug_len) op s = Some (Polled (Ok None), s)"
        by (simp add: halo_ops_def halo_poll_def)
      then show ?thesis
        by (rule nothing) (simp_all add: polled_of_def PollSession)
    next
      case (Some y)
      then obtain x rest where y: "take_kind kind (hs_samples s) = Some (x, rest)"
        by (cases y) auto
      have "hs_started s"
        using started by (simp add: require_started_def split: if_splits)
      with PollSession y started show ?thesis
        by (intro poll) (simp_all add: halo_ops_def halo_poll_def)
    qed
  qed
next
  case (InvokeEffect req)
  show ?thesis
    by (rule halo_invoke_cases [of wv from_scene debug_len req s])
      (use InvokeEffect in \<open>auto simp: halo_ops_def intro: refused sent\<close>)
qed

lemma halo_run:
  assumes "hs_committed s = replay (hs_sent s)"
  shows "\<exists>outs s'. run_steps (session_step (halo_ops wv ds xr from_scene debug_len)) ops s = Some (outs, s') \<and>
    hs_committed s' = replay (hs_sent s') \<and> hs_route s' = hs_route s \<and> hs_budget s' = hs_budget s \<and>
    (\<forall>packet \<in> set (hs_sent s') - set (hs_sent s). packet_valid (hs_budget s) packet \<and> hf_route packet = hs_route s) \<and>
    (\<forall>kind. List.map_filter (polled_of kind) (zip ops outs) @ left_of wv ds xr kind (hs_samples s')
       = left_of wv ds xr kind (hs_samples s)) \<and>
    (\<not> hs_started s \<longrightarrow> StartSession \<notin> set ops \<longrightarrow> hs_sent s' = hs_sent s \<and> hs_samples s' = hs_samples s)"
  using assms
proof (induction ops arbitrary: s)
  case Nil
  then show ?case by (simp add: map_filter_simps)
next
  case (Cons op ops)
  let ?step = "session_step (halo_ops wv ds xr from_scene debug_len)"
  show ?case
  proof (cases rule: halo_step [of op wv ds xr from_scene debug_len s])
    case start
    with Cons.IH [of "s\<lparr>hs_started := True\<rparr>"] Cons.prems show ?thesis
      by (auto simp: map_filter_simps polled_of_def)
  next
    case stop
    with Cons.IH [of "s\<lparr>hs_started := False\<rparr>"] Cons.prems show ?thesis
      by (auto simp: map_filter_simps polled_of_def)
  next
    case (nothing out)
    with Cons.IH [OF Cons.prems] show ?thesis
      by (auto simp: map_filter_simps)
  next
    case (poll kind x rest)
    have "polled_of k (op, Polled (Ok (Some (halo_sample_expr wv ds xr x)))) =
        (if k = kind then Some (halo_sample_expr wv ds xr x) else None)" for k
      using poll(1) by (auto simp: polled_of_def)
    moreover have "left_of wv ds xr k (hs_samples s) =
        (if k = kind then halo_sample_expr wv ds xr x # left_of wv ds xr k rest else left_of wv ds xr k rest)" for k
      using take_kind_Some [OF poll(3)] by (simp add: left_of_def)
    ultimately show ?thesis
      using poll Cons.IH [of "s\<lparr>hs_samples := rest\<rparr>"] Cons.prems by (auto simp: map_filter_simps)
  next
    case (refused req e)
    with Cons.IH [OF Cons.prems] show ?thesis
      by (auto simp: map_filter_simps polled_of_def)
  next
    case (sent req packet)
    with Cons.IH [of "s\<lparr>hs_committed := fold apply_cell (fd_cells (hf_diff packet)) (hs_committed s),
            hs_sent := hs_sent s @ [packet]\<rparr>"] Cons.prems show ?thesis
      by (auto simp: map_filter_simps polled_of_def replay_snoc)
  qed
qed

subsection \<open>Properties\<close>

text \<open>
  A Halo route opens exactly when the names it is reached by are not blank and its samples are
  acceptable: motion is a 3DoF hint without position, taps and camera frames are of the Halo device, the
  camera frame is mono and 640 by 480 and there is at most one, and within each kind the numbers never
  go back. The session starts with these samples, an empty display and nothing sent.
\<close>
theorem halo_open_exact:
  "halo_open_session ds xr p = Ok s \<longleftrightarrow>
     (\<exists>route samples. halo_route_source (hp_route p) = Some (route, samples) \<and>
        (\<forall>x \<in> set samples. halo_sample_valid ds xr x) \<and> length (filter is_camera samples) \<le> 1 \<and>
        (\<forall>kind. sorted (kind_seqs xr kind samples)) \<and>
        s = \<lparr>hs_profile = hp_profile p, hs_route = route, hs_samples = samples, hs_budget = hp_frame_budget p,
             hs_committed = bt_empty, hs_sent = [], hs_started = False\<rparr>)"
  by (auto simp: halo_open_session_Ok samples_valid_def halo_session_new_def)

definition demo_xr :: "(unit, unit, unit, unit) xr_ops" where
  "demo_xr = \<lparr>xp_seq = (\<lambda>_. 0), xp_expr = (\<lambda>_. ENil), xp_dof = (\<lambda>_. 3), xp_has_position = (\<lambda>_. False),
     xt_seq = (\<lambda>_. 0), xt_expr = (\<lambda>_. ENil), xt_device = (\<lambda>_. ds_halo demo_symbols),
     xm_seq = (\<lambda>_. 0), xm_expr = (\<lambda>_. ENil),
     xc_seq = (\<lambda>_. 0), xc_expr = (\<lambda>_. ENil), xc_device = (\<lambda>_. ds_halo demo_symbols), xc_width = (\<lambda>_. 640),
     xc_height = (\<lambda>_. 480), xc_stereo = (\<lambda>_. False)\<rparr>"

definition demo_halo :: "(unit, unit, unit, unit) halo_sample list \<Rightarrow> (unit, unit, unit, unit) halo_sample halo_provider" where
  "demo_halo samples = halo_provider_new (halo_device_profile demo_symbols (symbol_new ''p'') (symbol_new ''t'')
     (symbol_new ''m'') (symbol_new ''c'')) (HaloRelay (halo_relay_scripted ''phone'' samples))"


lemma demo_halo_open:
  "halo_open_session demo_symbols demo_xr (demo_halo [MicSample ()]) =
     Ok (halo_session_new HaloRelayRoute [MicSample ()] (hp_profile (demo_halo [])) \<lparr>max_bytes_per_tick = 512\<rparr>)"
  by (simp add: halo_open_session_Ok demo_halo_def halo_provider_new_def halo_relay_scripted_def halo_route_source_def
      trim_def is_white_def samples_valid_def halo_sample_valid_def is_camera_def kind_seqs_def default_frame_bytes_def)


end
