(* ===== verification/Cameras.thy ===== *)
theory Cameras
  imports HaloSamples
begin

section \<open>Camera frames of the glasses\<close>

text \<open>
  \<open>src/camera.rs\<close> of \<open>crates/sim-lib-stream-halo\<close> and of \<open>crates/sim-lib-stream-viture\<close>: a captured
  frame passes the glasses consent gate of \<open>src/glasses.rs\<close>, is filed by reference in the bounded
  content store of \<open>src/store_evict.rs\<close>, and only the reference leaves. The reference record is a
  value of the external crate \<open>sim_lib_stream_xr\<close>: its constructor and accessors are the record
  \<open>camera_ops\<close>, and \<open>camera_laws\<close> says that a constructed reference carries the key it was given,
  the sample symbol of camera frames and no world anchor.
\<close>

record 'c camera_ops =
  co_new :: "u64 \<Rightarrow> symbol \<Rightarrow> symbol \<Rightarrow> symbol \<Rightarrow> u32 \<times> u32 \<Rightarrow> u64 \<Rightarrow> bool \<Rightarrow> 'c sample_result"
  co_expr :: "'c \<Rightarrow> expr"
  co_frame_key :: "'c \<Rightarrow> symbol"

definition camera_laws :: "value_ops \<Rightarrow> 'c camera_ops \<Rightarrow> bool" where
  "camera_laws va co \<longleftrightarrow> (\<forall>seq dev camera key nbytes t_ns stereo c.
     co_new co seq dev camera key nbytes t_ns stereo = Ok c \<longrightarrow>
       co_frame_key co c = key \<and> va_field va (co_expr co c) ''world-anchor'' = None \<and>
       va_field_sym va (co_expr co c) ''sample'' = Some (device_sample_kind_symbol ''xr/camera-frame''))"

subsection \<open>Filing a frame\<close>

text \<open>
  The body shared by \<open>pull_halo_camera_once\<close> and \<open>store_viture_camera_frame\<close>: they differ in how
  the reference is made and in the name in the last message.
\<close>

definition file_camera ::
  "value_ops \<Rightarrow> 'c camera_ops \<Rightarrow> 'cx consent_check \<Rightarrow> 'cx \<Rightarrow> consent_receipt \<Rightarrow> symbol \<Rightarrow> string \<Rightarrow>
   'c result \<Rightarrow> symbol \<Rightarrow> expr \<Rightarrow> usize \<Rightarrow> u64 \<Rightarrow> content_store \<Rightarrow>
   ('c \<times> store_evicted list) result \<times> content_store" where
  "file_camera va co with_consent cx receipt session name ref key payload nbytes tick store =
     (case and_then ref (\<lambda>sample.
             and_then (require_glasses_sample_ingest va with_consent cx (co_expr co sample) receipt session)
               (\<lambda>_. Ok sample)) of
        Inl e \<Rightarrow> (Err e, store)
      | Inr sample \<Rightarrow>
          (case store_glasses_frame va GlassesCamera key payload receipt tick nbytes store of
             (Inl e, store') \<Rightarrow> (Err e, store')
           | (Inr (stored, evicted), store') \<Rightarrow>
               (if as_symbol stored \<noteq> co_frame_key co sample
                then (Err (HostError [Lit ''stored '', Lit name, Lit '' frame key did not match emitted camera ref'']), store')
                else (Ok (sample, evicted), store'))))"

subsection \<open>Halo\<close>

record halo_pull =
  pl_seq :: u64
  pl_frame_key :: symbol
  pl_t_ns :: u64
  pl_payload :: expr
  pl_size_bytes :: usize

definition halo_pull_new :: "u64 \<Rightarrow> symbol \<Rightarrow> u64 \<Rightarrow> expr \<Rightarrow> usize \<Rightarrow> halo_pull result" where
  "halo_pull_new seq key t_ns payload nbytes =
     (if nbytes = 0 then Err (Eval [Lit ''Halo camera pull size must be nonzero''])
      else Ok \<lparr>pl_seq = seq, pl_frame_key = key, pl_t_ns = t_ns, pl_payload = payload, pl_size_bytes = nbytes\<rparr>)"

definition halo_camera_size :: "u32 \<times> u32" where
  "halo_camera_size = (640, 480)"

definition halo_pull_ref :: "sample_symbols \<Rightarrow> 'c camera_ops \<Rightarrow> halo_pull \<Rightarrow> 'c result" where
  "halo_pull_ref ds co pull = map_err HostError
     (co_new co (pl_seq pull) (ds_halo ds) (symbol_qualified ''stream/xr-camera'' ''halo-rgb'')
        (pl_frame_key pull) halo_camera_size (pl_t_ns pull) False)"

definition pull_halo_camera_once ::
  "value_ops \<Rightarrow> sample_symbols \<Rightarrow> 'c camera_ops \<Rightarrow> 'cx consent_check \<Rightarrow> 'cx \<Rightarrow> consent_receipt \<Rightarrow> symbol \<Rightarrow>
   halo_pull \<Rightarrow> u64 \<Rightarrow> content_store \<Rightarrow> ('c \<times> store_evicted list) result \<times> content_store" where
  "pull_halo_camera_once va ds co with_consent cx receipt session pull tick store =
     file_camera va co with_consent cx receipt session ''Halo'' (halo_pull_ref ds co pull)
       (pl_frame_key pull) (pl_payload pull) (pl_size_bytes pull) tick store"

definition halo_camera_store_key :: "symbol \<Rightarrow> store_key" where
  "halo_camera_store_key key = StoreKey key"

subsection \<open>VITURE\<close>

datatype viture_camera = UvcRgb | StereoVio

primrec viture_camera_token :: "viture_camera \<Rightarrow> string" where
  "viture_camera_token UvcRgb = ''viture-uvc-rgb''"
| "viture_camera_token StereoVio = ''viture-stereo-vio''"

definition viture_camera_stereo :: "viture_camera \<Rightarrow> bool" where
  "viture_camera_stereo c \<longleftrightarrow> c = StereoVio"

record viture_frame =
  vf_seq :: u64
  vf_camera :: viture_camera
  vf_frame_key :: symbol
  vf_size_px :: "u32 \<times> u32"
  vf_t_ns :: u64
  vf_payload :: expr
  vf_size_bytes :: usize

definition viture_frame_new ::
  "u64 \<Rightarrow> viture_camera \<Rightarrow> symbol \<Rightarrow> u32 \<times> u32 \<Rightarrow> u64 \<Rightarrow> expr \<Rightarrow> usize \<Rightarrow> viture_frame result" where
  "viture_frame_new seq camera key size_px t_ns payload nbytes =
     (if nbytes = 0 then Err (Eval [Lit ''VITURE camera frame size must be nonzero''])
      else Ok \<lparr>vf_seq = seq, vf_camera = camera, vf_frame_key = key, vf_size_px = size_px, vf_t_ns = t_ns,
             vf_payload = payload, vf_size_bytes = nbytes\<rparr>)"

definition viture_camera_device :: symbol where
  "viture_camera_device = symbol_qualified ''device'' ''viture-glasses''"

definition viture_camera_symbol :: "viture_camera \<Rightarrow> symbol" where
  "viture_camera_symbol c = symbol_qualified ''stream/xr-camera'' (viture_camera_token c)"

definition viture_frame_ref :: "'c camera_ops \<Rightarrow> viture_frame \<Rightarrow> 'c result" where
  "viture_frame_ref co frame = map_err HostError
     (co_new co (vf_seq frame) viture_camera_device (viture_camera_symbol (vf_camera frame)) (vf_frame_key frame)
        (vf_size_px frame) (vf_t_ns frame) (viture_camera_stereo (vf_camera frame)))"

definition store_viture_camera_frame ::
  "value_ops \<Rightarrow> 'c camera_ops \<Rightarrow> 'cx consent_check \<Rightarrow> 'cx \<Rightarrow> consent_receipt \<Rightarrow> symbol \<Rightarrow>
   viture_frame \<Rightarrow> u64 \<Rightarrow> content_store \<Rightarrow> ('c \<times> store_evicted list) result \<times> content_store" where
  "store_viture_camera_frame va co with_consent cx receipt session frame tick store =
     file_camera va co with_consent cx receipt session ''VITURE'' (viture_frame_ref co frame)
       (vf_frame_key frame) (vf_payload frame) (vf_size_bytes frame) tick store"

definition viture_camera_store_key :: "symbol \<Rightarrow> store_key" where
  "viture_camera_store_key key = StoreKey key"

subsection \<open>What filing does\<close>

text \<open>The frame as it is filed.\<close>

definition camera_frame :: "value_ops \<Rightarrow> consent_receipt \<Rightarrow> symbol \<Rightarrow> expr \<Rightarrow> usize \<Rightarrow> u64 \<Rightarrow> content_frame" where
  "camera_frame va receipt key payload nbytes tick = \<lparr>cf_key = StoreKey key, cf_session = cr_session receipt,
     cf_receipt_seq = cr_seq receipt, cf_inserted_tick = tick, cf_size_bytes = nbytes,
     cf_value = stored_glasses_value va GlassesCamera payload\<rparr>"

text \<open>
  A frame is filed when its reference was made, the consent check accepted the camera capability and
  the frame fits the store; then it is in the store under its key, filed for the session and number of
  the receipt. Otherwise the store is as before.
\<close>

definition consented_filing ::
  "value_ops \<Rightarrow> 'cx consent_check \<Rightarrow> 'cx \<Rightarrow> consent_receipt \<Rightarrow> symbol \<Rightarrow> 'c result \<Rightarrow> content_frame \<Rightarrow>
   content_store \<Rightarrow> ('c \<times> store_evicted list) result \<Rightarrow> content_store \<Rightarrow> bool" where
  "consented_filing va with_consent cx receipt session ref frame store out store' \<longleftrightarrow>
     (case out of
        Inr (sample, evicted) \<Rightarrow>
          ref = Ok sample \<and> with_consent cx ''glasses/camera'' receipt session = Ok () \<and>
          cf_size_bytes frame \<le> cs_max_bytes store \<and> store_insert frame store = (Ok evicted, store') \<and>
          bt_get (cs_entries store') (cf_key frame) = Some frame
      | Inl e \<Rightarrow> store' = store \<and>
          ((\<exists>er. ref = Err er) \<or> with_consent cx ''glasses/camera'' receipt session \<noteq> Ok () \<or>
           cs_max_bytes store < cf_size_bytes frame))"

lemma camera_ingest:
  assumes "camera_laws va co" and "co_new co seq dev camera key nbytes t_ns stereo = Ok c"
  shows "require_glasses_sample_ingest va with_consent cx (co_expr co c) receipt session =
    and_then (with_consent cx ''glasses/camera'' receipt session) (\<lambda>_. Ok GlassesCamera)"
proof -
  have "va_field va (co_expr co c) ''world-anchor'' = None"
    "va_field_sym va (co_expr co c) ''sample'' = Some (device_sample_kind_symbol ''xr/camera-frame'')"
    using assms unfolding camera_laws_def by blast+
  then have "glasses_capability_for_sample va (co_expr co c) = Ok GlassesCamera"
    by (simp add: glasses_capability_for_sample_def glasses_symbol_capability_def device_sample_kind_symbol_def)
  then show ?thesis
    by (simp add: require_glasses_sample_ingest_def require_glasses_consent_def)
qed

text \<open>Filing a frame that fits puts it under its key; one that does not fit changes nothing.\<close>

lemma store_insert_files:
  assumes inv: "store_inv store"
  obtains (filed) evicted s' where "cf_size_bytes frame \<le> cs_max_bytes store"
      "store_insert frame store = (Ok evicted, s')" "store_inv s'"
      "bt_get (cs_entries s') (cf_key frame) = Some frame"
      "insert_spec (unat (cs_max_bytes store)) frame (store_frames store) = (evicted, store_frames s')"
  | (refused) e where "\<not> cf_size_bytes frame \<le> cs_max_bytes store" "store_insert frame store = (Err e, store)"
proof (cases "cf_size_bytes frame \<le> cs_max_bytes store")
  case True
  from store_insert_ok [OF inv True] obtain evicted s' where ins: "store_insert frame store = (Ok evicted, s')"
    "store_inv s'" "insert_spec (unat (cs_max_bytes store)) frame (store_frames store) = (evicted, store_frames s')"
    by blast
  then obtain kept where kept: "kept @ [frame] = store_frames s'"
    by (auto simp: insert_spec_def Let_def split: prod.splits)
  have "frame \<in> set (store_frames s')"
    unfolding kept [symmetric] by simp
  then have "bt_get (cs_entries s') (cf_key frame) = Some frame"
    using store_inv_frames(3) [OF ins(2)] by blast
  with True ins show ?thesis
    by (intro filed)
next
  case False
  then obtain e where "store_insert frame store = (Err e, store)"
    by (auto simp: store_insert_def not_le)
  with False show ?thesis
    by (rule refused)
qed

lemma file_camera_spec:
  assumes inv: "store_inv store" and laws: "camera_laws va co"
    and made: "ref = map_err HostError (co_new co seq dev camera key size_px t_ns stereo)"
    and run: "file_camera va co with_consent cx receipt session name ref key payload nbytes tick store = (out, store')"
  shows "store_inv store' \<and>
    consented_filing va with_consent cx receipt session ref (camera_frame va receipt key payload nbytes tick) store out store'"
proof (cases "co_new co seq dev camera key size_px t_ns stereo")
  case (Inl e)
  with made have "ref = Err (HostError e)"
    by (simp add: map_err_def)
  with run inv show ?thesis
    by (auto simp: file_camera_def consented_filing_def)
next
  case (Inr c)
  then have ref: "ref = Ok c"
    using made by (simp add: map_err_def)
  have key: "co_frame_key co c = key"
    using laws Inr unfolding camera_laws_def by blast
  note ingest = camera_ingest [OF laws Inr, of with_consent cx receipt session]
  show ?thesis
  proof (cases "with_consent cx ''glasses/camera'' receipt session")
    case (Inl e)
    with run ref ingest inv show ?thesis
      by (auto simp: file_camera_def consented_filing_def)
  next
    case consent: (Inr u)
    let ?frame = "camera_frame va receipt key payload nbytes tick"
    have filing: "file_camera va co with_consent cx receipt session name ref key payload nbytes tick store =
        (case store_insert ?frame store of
           (Inl e, store') \<Rightarrow> (Err e, store')
         | (Inr evicted, store') \<Rightarrow> (Ok (c, evicted), store'))"
      using ref ingest consent key
      by (simp add: file_camera_def store_glasses_frame_def camera_frame_def [symmetric] split: prod.split sum.split)
    from inv show ?thesis
    proof (cases rule: store_insert_files [where frame = ?frame, consumes 1])
      case (filed evicted s')
      with ref consent run filing show ?thesis
        by (cases u) (auto simp: consented_filing_def)
    next
      case (refused e)
      with run filing inv show ?thesis
        by (auto simp: consented_filing_def not_le)
    qed
  qed
qed

subsection \<open>Properties\<close>

text \<open>
  C13. A camera frame of either pair of glasses leaves as a reference exactly when the reference can be
  made, the consent check accepts the camera capability for the receipt and the session, and the frame
  fits the store; it is then filed under its key with the session and number of the receipt, so
  that its retention is the receipt's. Otherwise nothing is stored. The store invariant is kept.
\<close>
theorem camera_frame_consented:
  assumes "store_inv store" and "camera_laws va co"
  shows "(case pull_halo_camera_once va ds co with_consent cx receipt session pull tick store of (out, store') \<Rightarrow>
      store_inv store' \<and>
      consented_filing va with_consent cx receipt session (halo_pull_ref ds co pull)
        (camera_frame va receipt (pl_frame_key pull) (pl_payload pull) (pl_size_bytes pull) tick) store out store') \<and>
    (case store_viture_camera_frame va co with_consent cx receipt session frame tick store of (out, store') \<Rightarrow>
      store_inv store' \<and>
      consented_filing va with_consent cx receipt session (viture_frame_ref co frame)
        (camera_frame va receipt (vf_frame_key frame) (vf_payload frame) (vf_size_bytes frame) tick) store out store')"
proof (intro conjI)
  show "case pull_halo_camera_once va ds co with_consent cx receipt session pull tick store of (out, store') \<Rightarrow>
      store_inv store' \<and>
      consented_filing va with_consent cx receipt session (halo_pull_ref ds co pull)
        (camera_frame va receipt (pl_frame_key pull) (pl_payload pull) (pl_size_bytes pull) tick) store out store'"
    unfolding pull_halo_camera_once_def
    by (split prod.split) (intro allI impI file_camera_spec [OF assms halo_pull_ref_def])
  show "case store_viture_camera_frame va co with_consent cx receipt session frame tick store of (out, store') \<Rightarrow>
      store_inv store' \<and>
      consented_filing va with_consent cx receipt session (viture_frame_ref co frame)
        (camera_frame va receipt (vf_frame_key frame) (vf_payload frame) (vf_size_bytes frame) tick) store out store'"
    unfolding store_viture_camera_frame_def
    by (split prod.split) (intro allI impI file_camera_spec [OF assms viture_frame_ref_def])
qed

definition demo_camera :: "(symbol \<times> expr) camera_ops" where
  "demo_camera = \<lparr>
     co_new = (\<lambda>seq dev camera key nbytes t_ns stereo. Ok (key, EMap [(ESymbol (symbol_new ''sample''),
        ESymbol (device_sample_kind_symbol ''xr/camera-frame''))])),
     co_expr = snd, co_frame_key = fst\<rparr>"

lemma demo_camera_laws: "camera_laws demo_values demo_camera"
  by (simp add: camera_laws_def demo_camera_def demo_values_def)

definition demo_check :: "symbol consent_check" where
  "demo_check = (\<lambda>cx c receipt session. if session = cx then Ok () else Err (KernelError 0))"

theorem camera_frame_consented_witness:
  "\<exists>sample evicted. fst (pull_halo_camera_once demo_values demo_symbols demo_camera demo_check (symbol_new ''s'')
       (demo_receipt [glasses_camera_grant]) (symbol_new ''s'')
       \<lparr>pl_seq = 0, pl_frame_key = symbol_new ''f'', pl_t_ns = 0, pl_payload = ENil, pl_size_bytes = 3\<rparr> 0 demo_store)
     = Ok (sample, evicted)"
proof -
  let ?pull = "\<lparr>pl_seq = 0, pl_frame_key = symbol_new ''f'', pl_t_ns = 0, pl_payload = ENil, pl_size_bytes = 3\<rparr>"
  let ?out = "pull_halo_camera_once demo_values demo_symbols demo_camera demo_check (symbol_new ''s'')
       (demo_receipt [glasses_camera_grant]) (symbol_new ''s'') ?pull 0 demo_store"
  obtain out store' where pull: "?out = (out, store')"
    by (cases ?out)
  have "consented_filing demo_values demo_check (symbol_new ''s'') (demo_receipt [glasses_camera_grant]) (symbol_new ''s'')
      (halo_pull_ref demo_symbols demo_camera ?pull) (camera_frame demo_values (demo_receipt [glasses_camera_grant])
        (symbol_new ''f'') ENil 3 0) demo_store out store'"
    using camera_frame_consented [OF demo_store_inv demo_camera_laws, where ds = demo_symbols and with_consent = demo_check and cx = "symbol_new ''s''"
        and receipt = "demo_receipt [glasses_camera_grant]" and session = "symbol_new ''s''" and pull = ?pull and tick = 0,
        THEN conjunct1] pull by simp
  moreover have "cf_size_bytes (camera_frame demo_values (demo_receipt [glasses_camera_grant]) (symbol_new ''f'') ENil 3 0)
      \<le> cs_max_bytes demo_store"
    by (simp add: camera_frame_def demo_store_def)
  ultimately show ?thesis
    using pull by (cases out)
      (auto simp: consented_filing_def demo_check_def halo_pull_ref_def demo_camera_def map_err_def not_less [symmetric])
qed

end
