(* ===== verification/CameraRuns.thy ===== *)
theory CameraRuns
  imports Cameras
begin

section \<open>A glasses content store over its life\<close>

text \<open>
  Cameras of both pairs of glasses file into one content store, and the host sweeps that store with
  the consent receipts it still holds (\<open>camera.rs\<close> of both crates,
  \<open>src/glasses.rs\<close>). This theory runs any sequence of these calls from an empty store:
  whatever order they come in and whichever of them fail, a picture is only in the store when
  someone consented to it and every sweep since was covered.
\<close>

datatype 'cx camera_op =
    PullHalo 'cx consent_receipt symbol halo_pull u64
  | FileViture 'cx consent_receipt symbol viture_frame u64
  | SweepCameras "consent_receipt list" u64 u16

primrec camera_step ::
  "value_ops \<Rightarrow> sample_symbols \<Rightarrow> 'c camera_ops \<Rightarrow> 'cx consent_check \<Rightarrow> 'cx camera_op \<Rightarrow> content_store \<Rightarrow> content_store"
  where
  "camera_step va ds co with_consent (PullHalo cx receipt session pull tick) store =
     snd (pull_halo_camera_once va ds co with_consent cx receipt session pull tick store)"
| "camera_step va ds co with_consent (FileViture cx receipt session frame tick) store =
     snd (store_viture_camera_frame va co with_consent cx receipt session frame tick store)"
| "camera_step va ds co with_consent (SweepCameras receipts now_tick hz) store =
     snd (sweep_glasses_retention receipts now_tick hz store)"

definition camera_run ::
  "value_ops \<Rightarrow> sample_symbols \<Rightarrow> 'c camera_ops \<Rightarrow> 'cx consent_check \<Rightarrow> 'cx camera_op list \<Rightarrow> content_store \<Rightarrow> content_store"
  where
  "camera_run va ds co with_consent ops store = fold (camera_step va ds co with_consent) ops store"

text \<open>The frame a call files, given the consent it asks for.\<close>

definition consented_frame :: "value_ops \<Rightarrow> 'cx consent_check \<Rightarrow> 'cx camera_op \<Rightarrow> content_frame \<Rightarrow> bool" where
  "consented_frame va with_consent op f \<longleftrightarrow> (case op of
       PullHalo cx receipt session pull tick \<Rightarrow>
         with_consent cx ''glasses/camera'' receipt session = Ok () \<and>
         f = camera_frame va receipt (pl_frame_key pull) (pl_payload pull) (pl_size_bytes pull) tick
     | FileViture cx receipt session frame tick \<Rightarrow>
         with_consent cx ''glasses/camera'' receipt session = Ok () \<and>
         f = camera_frame va receipt (vf_frame_key frame) (vf_payload frame) (vf_size_bytes frame) tick
     | SweepCameras _ _ _ \<Rightarrow> False)"

text \<open>The first glasses receipt of the session and the number a frame was filed under covers its age.\<close>

definition covered :: "consent_receipt list \<Rightarrow> u64 \<Rightarrow> u16 \<Rightarrow> content_frame \<Rightarrow> bool" where
  "covered receipts now_tick hz f \<longleftrightarrow>
     (\<exists>r. find (\<lambda>r. (\<exists>g \<in> set (cr_grants r). sym_namespace g = Some ''glasses'') \<and>
            cr_session r = cf_session f \<and> cr_seq r = cf_receipt_seq f) receipts = Some r \<and>
        elapsed_ms now_tick (cf_inserted_tick f) hz \<le> cr_retain_ms r)"

lemma covered_iff: "covered receipts now_tick hz f \<longleftrightarrow> within_retention now_tick hz (glasses_retention_windows receipts) f"
  by (auto simp: covered_def within_retention_def glasses_retention_windows_def find_map_filter list_ex_iff)

subsection \<open>One step\<close>

lemma store_insert_frames:
  assumes "store_inv store" and "store_insert frame store = (Ok evicted, store')"
  shows "set (store_frames store') \<subseteq> insert frame (set (store_frames store))"
  using assms(1)
proof (cases rule: store_insert_files [where frame = frame, consumes 1])
  case (filed evicted1 s1)
  obtain dropped kept where split:
    "drop_until (unat (cs_max_bytes store) - unat (cf_size_bytes frame))
       (filter (\<lambda>f. cf_key f \<noteq> cf_key frame) (store_frames store)) = (dropped, kept)"
    by (metis prod.exhaust)
  have "store_frames s1 = kept @ [frame]"
    using filed(5) split by (simp add: insert_spec_def Let_def)
  moreover have "filter (\<lambda>f. cf_key f \<noteq> cf_key frame) (store_frames store) = dropped @ kept"
    using drop_until_split [OF split] by (rule conjunct1)
  then have "set kept \<subseteq> set (store_frames store)"
    by (metis Un_subset_iff filter_is_subset set_append)
  ultimately show ?thesis
    using assms(2) filed(2) by auto
next
  case (refused e)
  then show ?thesis
    using assms(2) by simp
qed

lemma file_camera_frames:
  assumes "store_inv store" "camera_laws va co"
    and "ref = map_err HostError (co_new co seq dev camera key size_px t_ns stereo)"
    and "file_camera va co with_consent cx receipt session name ref key payload nbytes tick store = (out, store')"
    and "f \<in> set (store_frames store')"
  shows "f \<in> set (store_frames store) \<or> with_consent cx ''glasses/camera'' receipt session = Ok () \<and>
    f = camera_frame va receipt key payload nbytes tick"
  using file_camera_spec [OF assms(1-4)] assms(5) store_insert_frames [OF assms(1)]
  by (auto simp: consented_filing_def split: sum.splits)

lemma file_camera_inv:
  assumes "store_inv store" "camera_laws va co"
    and "ref = map_err HostError (co_new co seq dev camera key size_px t_ns stereo)"
  shows "store_inv (snd (file_camera va co with_consent cx receipt session name ref key payload nbytes tick store))"
  using file_camera_spec [OF assms, of with_consent cx receipt session name payload nbytes tick] by (metis prod.collapse)

lemma camera_step_inv:
  assumes "store_inv store" "camera_laws va co"
  shows "store_inv (camera_step va ds co with_consent op store)"
proof (cases op)
  case (SweepCameras receipts now_tick hz)
  then show ?thesis
    using sweep_frames [OF assms(1), of now_tick hz "glasses_retention_windows receipts"]
    by (auto simp: sweep_glasses_retention_def)
qed (simp_all add: assms pull_halo_camera_once_def store_viture_camera_frame_def
    file_camera_inv [OF assms halo_pull_ref_def] file_camera_inv [OF assms viture_frame_ref_def])

lemma camera_step_frames:
  assumes "store_inv store" "camera_laws va co" "f \<in> set (store_frames (camera_step va ds co with_consent op store))"
  shows "consented_frame va with_consent op f \<or> f \<in> set (store_frames store) \<and>
    (\<forall>receipts now_tick hz. op = SweepCameras receipts now_tick hz \<longrightarrow> covered receipts now_tick hz f)"
proof (cases op)
  case (PullHalo cx receipt session pull tick)
  then show ?thesis
    using assms file_camera_frames [OF assms(1,2) halo_pull_ref_def prod.collapse [symmetric]]
    by (fastforce simp: consented_frame_def pull_halo_camera_once_def)
next
  case (FileViture cx receipt session frame tick)
  then show ?thesis
    using assms file_camera_frames [OF assms(1,2) viture_frame_ref_def prod.collapse [symmetric]]
    by (fastforce simp: consented_frame_def store_viture_camera_frame_def)
next
  case (SweepCameras receipts now_tick hz)
  then show ?thesis
    using assms sweep_frames [OF assms(1), of now_tick hz "glasses_retention_windows receipts"]
    by (auto simp: sweep_glasses_retention_def frame_expired_iff covered_iff)
qed

text \<open>No call changes the bound of the store.\<close>

lemma store_insert_max:
  assumes "store_inv store"
  shows "cs_max_bytes (snd (store_insert frame store)) = cs_max_bytes store"
proof (cases "cf_size_bytes frame \<le> cs_max_bytes store")
  case True
  with store_insert_ok [OF assms] show ?thesis
    by fastforce
next
  case False
  from assms show ?thesis
    by (cases rule: store_insert_files [where frame = frame, consumes 1]) (use False in simp_all)
qed

lemma file_camera_max:
  "store_inv store \<Longrightarrow>
   cs_max_bytes (snd (file_camera va co with_consent cx receipt session name ref key payload nbytes tick store))
     = cs_max_bytes store"
  using store_insert_max [of store "\<lparr>cf_key = StoreKey key, cf_session = cr_session receipt,
      cf_receipt_seq = cr_seq receipt, cf_inserted_tick = tick, cf_size_bytes = nbytes,
      cf_value = stored_glasses_value va GlassesCamera payload\<rparr>"]
  by (auto simp: file_camera_def store_glasses_frame_def Let_def split: sum.splits prod.splits)

lemma camera_step_max:
  assumes "store_inv store"
  shows "cs_max_bytes (camera_step va ds co with_consent op store) = cs_max_bytes store"
proof (cases op)
  case (SweepCameras receipts now_tick hz)
  then show ?thesis
    using sweep_frames [OF assms, of now_tick hz "glasses_retention_windows receipts"]
    by (auto simp: sweep_glasses_retention_def)
qed (simp_all add: assms pull_halo_camera_once_def store_viture_camera_frame_def file_camera_max)

subsection \<open>Any sequence of calls\<close>

definition consented_since ::
  "value_ops \<Rightarrow> 'cx consent_check \<Rightarrow> 'cx camera_op list \<Rightarrow> content_frame \<Rightarrow> bool" where
  "consented_since va with_consent ops f \<longleftrightarrow>
     (\<exists>before op after. ops = before @ op # after \<and> consented_frame va with_consent op f \<and>
        (\<forall>receipts now_tick hz. SweepCameras receipts now_tick hz \<in> set after \<longrightarrow> covered receipts now_tick hz f))"

lemma consented_since_snoc:
  "consented_frame va with_consent op f \<Longrightarrow> consented_since va with_consent (ops @ [op]) f"
  unfolding consented_since_def by (rule exI [of _ ops], rule exI [of _ op], rule exI [of _ "[]"]) simp

lemma consented_since_later:
  assumes "consented_since va with_consent ops f"
    and "\<And>receipts now_tick hz. op = SweepCameras receipts now_tick hz \<Longrightarrow> covered receipts now_tick hz f"
  shows "consented_since va with_consent (ops @ [op]) f"
proof -
  obtain before op1 after where split: "ops = before @ op1 # after" "consented_frame va with_consent op1 f"
    "\<forall>receipts now_tick hz. SweepCameras receipts now_tick hz \<in> set after \<longrightarrow> covered receipts now_tick hz f"
    using assms(1) unfolding consented_since_def by blast
  show ?thesis
    unfolding consented_since_def
    by (rule exI [of _ before], rule exI [of _ op1], rule exI [of _ "after @ [op]"]) (use split assms(2) in auto)
qed

lemma camera_run_snoc:
  "camera_run va ds co with_consent (ops @ [op]) store =
     camera_step va ds co with_consent op (camera_run va ds co with_consent ops store)"
  by (simp add: camera_run_def)

lemma camera_run_inv:
  assumes "store_inv store" "camera_laws va co"
  shows "store_inv (camera_run va ds co with_consent ops store) \<and>
    cs_max_bytes (camera_run va ds co with_consent ops store) = cs_max_bytes store"
proof (induction ops rule: rev_induct)
  case Nil
  then show ?case
    by (simp add: camera_run_def assms)
next
  case (snoc op ops)
  then show ?case
    by (simp add: camera_run_snoc camera_step_inv camera_step_max assms(2))
qed

lemma camera_run_since:
  assumes "store_inv store" "store_frames store = []" "camera_laws va co"
  shows "f \<in> set (store_frames (camera_run va ds co with_consent ops store)) \<Longrightarrow> consented_since va with_consent ops f"
proof (induction ops rule: rev_induct)
  case Nil
  then show ?case
    by (simp add: camera_run_def assms(2))
next
  case (snoc op ops)
  from camera_step_frames [OF camera_run_inv [OF assms(1,3), THEN conjunct1] assms(3) snoc.prems [unfolded camera_run_snoc]]
  show ?case
    using snoc.IH consented_since_snoc consented_since_later by blast
qed

subsection \<open>Properties\<close>

text \<open>
  C16. Start from an empty content store of any bound but the largest \<open>usize\<close> and let the cameras
  of both pairs of glasses file into it and the host sweep it, in any order, with any receipts, whether or not the calls succeed. The
  store keeps its invariant and never holds more bytes than its bound; and every picture in it was
  filed by one of the calls, with exactly its payload, size and receipt and with that call's consent
  check passed, and every sweep after that call held a glasses receipt that still covers the
  picture's age. So no picture outlives its consent through some order of filing, eviction and
  sweeping.
\<close>

theorem camera_run_consented:
  assumes "store_new n = Ok store" "n \<noteq> - 1" "camera_laws va co"
  shows "store_inv (camera_run va ds co with_consent ops store) \<and>
    frame_bytes (store_frames (camera_run va ds co with_consent ops store)) \<le> unat n \<and>
    (\<forall>f \<in> set (store_frames (camera_run va ds co with_consent ops store)). consented_since va with_consent ops f)"
proof (intro conjI ballI)
  note new = store_inv_new [OF assms(1,2)]
  note inv = camera_run_inv [OF new(1) assms(3), of ds with_consent ops, THEN conjunct1]
  show "store_inv (camera_run va ds co with_consent ops store)"
    by (rule inv)
  show "frame_bytes (store_frames (camera_run va ds co with_consent ops store)) \<le> unat n"
    using store_inv_bytes [OF inv] camera_run_inv [OF new(1) assms(3), of ds with_consent ops] new(3) by simp
  fix f
  assume "f \<in> set (store_frames (camera_run va ds co with_consent ops store))"
  then show "consented_since va with_consent ops f"
    by (rule camera_run_since [OF new(1,2) assms(3)])
qed

text \<open>
  Two pictures are offered, one with consent; it is still there after a sweep with its receipt.
\<close>

definition demo_pull :: "symbol \<Rightarrow> halo_pull" where
  "demo_pull key = \<lparr>pl_seq = 0, pl_frame_key = key, pl_t_ns = 0, pl_payload = ENil, pl_size_bytes = 3\<rparr>"

definition demo_picture :: content_frame where
  "demo_picture = camera_frame demo_values (demo_receipt [glasses_camera_grant]) (symbol_new ''f'') ENil 3 0"

definition demo_camera_ops :: "symbol camera_op list" where
  "demo_camera_ops =
     [PullHalo (symbol_new ''s'') (demo_receipt [glasses_camera_grant]) (symbol_new ''s'') (demo_pull (symbol_new ''f'')) 0,
      PullHalo (symbol_new ''other'') (demo_receipt []) (symbol_new ''s'') (demo_pull (symbol_new ''g'')) 0,
      SweepCameras [demo_receipt [glasses_camera_grant]] 1 1]"

lemma demo_picture_filed:
  assumes "store_inv store" "cs_max_bytes store = 10"
    and "pull_halo_camera_once demo_values demo_symbols demo_camera demo_check (symbol_new ''s'')
      (demo_receipt [glasses_camera_grant]) (symbol_new ''s'') (demo_pull (symbol_new ''f'')) 0 store = (out, s1)"
  shows "store_inv s1 \<and> demo_picture \<in> set (store_frames s1)"
proof -
  have spec: "store_inv s1 \<and> consented_filing demo_values demo_check (symbol_new ''s'') (demo_receipt [glasses_camera_grant])
      (symbol_new ''s'') (halo_pull_ref demo_symbols demo_camera (demo_pull (symbol_new ''f''))) demo_picture store out s1"
    using file_camera_spec [OF assms(1) demo_camera_laws halo_pull_ref_def assms(3) [unfolded pull_halo_camera_once_def]]
    by (simp add: demo_picture_def demo_pull_def)
  have "\<not> cs_max_bytes store < cf_size_bytes demo_picture"
    using assms(2) by (simp add: demo_picture_def camera_frame_def)
  then have "bt_get (cs_entries s1) (cf_key demo_picture) = Some demo_picture"
    using spec by (cases out) (auto simp: consented_filing_def demo_check_def halo_pull_ref_def demo_camera_def map_err_def)
  then show ?thesis
    using spec store_inv_frames(3) [of s1 demo_picture] by simp
qed

lemma demo_picture_refused:
  assumes "store_inv store"
  shows "snd (pull_halo_camera_once demo_values demo_symbols demo_camera demo_check (symbol_new ''other'')
    (demo_receipt []) (symbol_new ''s'') (demo_pull key) 0 store) = store"
  using file_camera_spec [OF assms demo_camera_laws halo_pull_ref_def prod.collapse [symmetric],
      of demo_check "symbol_new ''other''" "demo_receipt []" "symbol_new ''s''" "''Halo''" demo_symbols "demo_pull key"
      "pl_payload (demo_pull key)" "pl_size_bytes (demo_pull key)" 0]
  by (auto simp: pull_halo_camera_once_def consented_filing_def demo_check_def symbol_new_def split: sum.splits)

lemma demo_picture_covered: "covered [demo_receipt [glasses_camera_grant]] 1 1 demo_picture"
  by (simp add: covered_def demo_picture_def camera_frame_def demo_receipt_def glasses_camera_grant_def
      glasses_grant_symbol_def symbol_qualified_def elapsed_ms_def sat_mul_def sat_sub_def)

lemma demo_camera_run:
  assumes "store_inv store" "cs_max_bytes store = 10"
  shows "demo_picture \<in> set (store_frames
    (camera_run demo_values demo_symbols demo_camera demo_check demo_camera_ops store))"
proof -
  obtain out s1 where s1: "pull_halo_camera_once demo_values demo_symbols demo_camera demo_check (symbol_new ''s'')
      (demo_receipt [glasses_camera_grant]) (symbol_new ''s'') (demo_pull (symbol_new ''f'')) 0 store = (out, s1)"
    by (metis prod.exhaust)
  note filed = demo_picture_filed [OF assms s1]
  note refused = demo_picture_refused [OF filed [THEN conjunct1]]
  have "demo_picture \<in> set (store_frames (snd (sweep_glasses_retention [demo_receipt [glasses_camera_grant]] 1 1 s1)))"
    using filed sweep_frames [of s1 1 1 "glasses_retention_windows [demo_receipt [glasses_camera_grant]]"] demo_picture_covered
    by (auto simp: sweep_glasses_retention_def frame_expired_iff covered_iff)
  then show ?thesis
    by (simp add: camera_run_def demo_camera_ops_def s1 refused)
qed

theorem camera_run_consented_witness:
  "\<exists>store. store_new 10 = Ok store \<and>
     (let s = camera_run demo_values demo_symbols demo_camera demo_check demo_camera_ops store
      in demo_picture \<in> set (store_frames s) \<and> frame_bytes (store_frames s) \<le> 10 \<and>
        consented_since demo_values demo_check demo_camera_ops demo_picture)"
proof -
  obtain store where new: "store_new 10 = Ok store"
    by (simp add: store_new_def ensure_def)
  have bound: "10 \<noteq> (- 1 :: usize)"
    by simp
  note run = camera_run_consented [OF new bound demo_camera_laws, of demo_symbols demo_check demo_camera_ops]
  note stored = demo_camera_run [OF store_inv_new(1,3) [OF new bound]]
  have "consented_since demo_values demo_check demo_camera_ops demo_picture"
    using run stored by blast
  then show ?thesis
    using run stored new by (auto simp: Let_def)
qed

end
