(* ===== verification/WatchEvents.thy ===== *)
theory WatchEvents
  imports Wire
begin

section \<open>Worn events and watch exports\<close>

text \<open>
  \<open>src/event.rs\<close> and \<open>src/import.rs\<close> of \<open>crates/sim-lib-stream-wristbridge\<close>: the worn-event
  sample with its encoding, and the parsers that turn an exported file (CSV, FIT and Zepp rows,
  GPX and TCX lines) into numbered worn events. The properties relate both to each other and to the
  consent gate of \<open>src/watch.rs\<close>: what an import emits can be decoded again and is classified by
  its sensor. \<open>events.len() as u64\<close> is \<open>vec_len\<close>.
\<close>

subsection \<open>Worn events (\<open>src/event.rs\<close>)\<close>

record worn_event =
  we_seq :: u64
  we_sensor :: symbol
  we_value :: expr

definition worn_event_new :: "u64 \<Rightarrow> symbol \<Rightarrow> expr \<Rightarrow> worn_event device_result" where
  "worn_event_new seq sensor val =
     (if sym_namespace sensor \<noteq> Some ''stream/worn-sensor''
      then Err (Sample [Lit ''worn sensor must be in '', Lit ''stream/worn-sensor'', Lit '', found '',
             Show_sym sensor])
      else Ok \<lparr>we_seq = seq, we_sensor = sensor, we_value = val\<rparr>)"

definition from_sensor_name :: "u64 \<Rightarrow> string \<Rightarrow> expr \<Rightarrow> worn_event device_result" where
  "from_sensor_name seq sensor val =
     worn_event_new seq (symbol_qualified ''stream/worn-sensor'' sensor) val"

definition worn_event_kind :: string where
  "worn_event_kind = ''worn-event''"

definition worn_event_sample_kind :: symbol where
  "worn_event_sample_kind = device_sample_kind_symbol worn_event_kind"

definition worn_event_expr :: "wire_ops \<Rightarrow> worn_event \<Rightarrow> expr" where
  "worn_event_expr wv ev = vb_map wv
     [(''kind'', vb_qsym wv ''stream/device-sample'' ''record''),
      (''sample'', vb_qsym wv ''stream/device-sample'' worn_event_kind),
      (''seq'', wo_uint wv (we_seq ev)),
      (''sensor'', ESymbol (we_sensor ev)),
      (''value'', we_value ev)]"

text \<open>\<open>map_device_error\<close>.\<close>

definition map_device_error :: "wire_ops \<Rightarrow> 'a result \<Rightarrow> 'a device_result" where
  "map_device_error wv r = map_err (\<lambda>e. Sample (wo_display wv e)) r"

definition ensure_sample :: "wire_ops \<Rightarrow> expr \<Rightarrow> unit device_result" where
  "ensure_sample wv e =
     and_then (map_device_error wv (wo_required_sym wv e ''sample'' ''worn event'')) (\<lambda>sample.
     if sym_namespace sample = Some ''stream/device-sample'' \<and> sym_name sample = worn_event_kind
     then Ok ()
     else Err (Sample [Lit ''expected stream/device-sample worn-event'']))"

definition watch_required_u64 :: "wire_ops \<Rightarrow> expr \<Rightarrow> string \<Rightarrow> string \<Rightarrow> u64 device_result" where
  "watch_required_u64 wv e name ctxt = required_u64 wv Sample e name ctxt"

definition worn_event_from_expr :: "wire_ops \<Rightarrow> expr \<Rightarrow> worn_event device_result" where
  "worn_event_from_expr wv e =
     and_then (ensure_sample wv e) (\<lambda>_.
     and_then (watch_required_u64 wv e ''seq'' ''worn event'') (\<lambda>seq.
     and_then (map_device_error wv (wo_required_sym wv e ''sensor'' ''worn event'')) (\<lambda>sensor.
     and_then (map_device_error wv (wo_required wv e ''value'' ''worn event'')) (\<lambda>val.
     worn_event_new seq sensor val))))"

subsection \<open>Exports (\<open>src/import.rs\<close>)\<close>

datatype import_format = Csv | Gpx | Tcx | Fit | ZeppExport

primrec format_token :: "import_format \<Rightarrow> string" where
  "format_token Csv = ''csv''"
| "format_token Gpx = ''gpx''"
| "format_token Tcx = ''tcx''"
| "format_token Fit = ''fit''"
| "format_token ZeppExport = ''zepp-export''"

record import_source =
  is_format :: import_format
  is_body :: string

definition import_source_new :: "import_format \<Rightarrow> string \<Rightarrow> import_source" where
  "import_source_new format body = \<lparr>is_format = format, is_body = body\<rparr>"

definition import_csv :: "string \<Rightarrow> import_source" where
  "import_csv body = import_source_new Csv body"

definition import_gpx :: "string \<Rightarrow> import_source" where
  "import_gpx body = import_source_new Gpx body"

definition import_tcx :: "string \<Rightarrow> import_source" where
  "import_tcx body = import_source_new Tcx body"

definition import_fit :: "string \<Rightarrow> import_source" where
  "import_fit body = import_source_new Fit body"

definition import_zepp_export :: "string \<Rightarrow> import_source" where
  "import_zepp_export body = import_source_new ZeppExport body"

definition split_row :: "string \<Rightarrow> string list" where
  "split_row line = filter (\<lambda>field. field \<noteq> [])
     (map trim (split_on (\<lambda>c. c = CHR '','' \<or> c = CHR '';'' \<or> c = CHR 0x09) line))"

definition is_header :: "string \<Rightarrow> bool" where
  "is_header line \<longleftrightarrow> (let lower = map ascii_lower line in
     prefix ''sensor,'' lower \<or> prefix ''type,'' lower \<or> lower = ''sensor'')"

definition normalize_sensor :: "string \<Rightarrow> string" where
  "normalize_sensor val =
     (let s = map ascii_lower (trim val)
      in if s \<in> set [''hr'', ''heart_rate'', ''heart rate'', ''heartrate'', ''heart-rate''] then ''heart-rate''
         else if s \<in> set [''gps'', ''latlon'', ''location''] then ''gps''
         else if s \<in> set [''route'', ''track''] then ''route''
         else if s \<in> set [''battery'', ''bat''] then ''battery''
         else if s \<in> set [''connection'', ''link''] then ''connection''
         else if s \<in> set [''mic'', ''audio'', ''mic-audio''] then ''mic-audio''
         else ''motion'')"

definition parse_value :: "wire_ops \<Rightarrow> string \<Rightarrow> expr" where
  "parse_value wv val = (let trimmed = trim val
     in case parse_u64 trimmed of Some n \<Rightarrow> wo_uint wv n | None \<Rightarrow> wo_text wv trimmed)"

text \<open>One row: the sensor it names and the value it carries.\<close>

definition row_sensor :: "string \<Rightarrow> string" where
  "row_sensor line = (case split_row line of f # _ \<Rightarrow> normalize_sensor f | [] \<Rightarrow> ''motion'')"

definition row_value :: "wire_ops \<Rightarrow> string \<Rightarrow> expr" where
  "row_value wv line = (case split_row line of _ # f # _ \<Rightarrow> parse_value wv f | _ \<Rightarrow> wo_text wv line)"

definition push_event ::
  "string \<Rightarrow> expr \<Rightarrow> worn_event list \<Rightarrow> worn_event list device_result" where
  "push_event sensor val events =
     and_then (from_sensor_name (vec_len events) sensor val) (\<lambda>ev. Ok (events @ [ev]))"

primrec row_loop :: "wire_ops \<Rightarrow> string list \<Rightarrow> worn_event list \<Rightarrow> worn_event list device_result" where
  "row_loop wv [] events = Ok events"
| "row_loop wv (line # lines) events =
     (if is_header line then row_loop wv lines events
      else and_then (push_event (row_sensor line) (row_value wv line) events) (row_loop wv lines))"

definition parse_row_export ::
  "wire_ops \<Rightarrow> import_format \<Rightarrow> string \<Rightarrow> worn_event list device_result" where
  "parse_row_export wv format body =
     and_then (row_loop wv (filter (\<lambda>line. line \<noteq> []) (map trim (text_lines body))) []) (\<lambda>events.
     if format = ZeppExport \<and> events = []
     then Err (Sample [Lit ''zepp export did not contain worn rows''])
     else Ok events)"

primrec gpx_loop :: "wire_ops \<Rightarrow> string list \<Rightarrow> worn_event list \<Rightarrow> worn_event list device_result" where
  "gpx_loop wv [] events = Ok events"
| "gpx_loop wv (line # lines) events =
     (if str_contains line ''<trkpt''
      then and_then (push_event ''gps'' (wo_text wv line) events) (gpx_loop wv lines)
      else gpx_loop wv lines events)"

definition parse_gpx :: "wire_ops \<Rightarrow> string \<Rightarrow> worn_event list device_result" where
  "parse_gpx wv body = gpx_loop wv (map trim (text_lines body)) []"

primrec tcx_loop :: "wire_ops \<Rightarrow> string list \<Rightarrow> worn_event list \<Rightarrow> worn_event list device_result" where
  "tcx_loop wv [] events = Ok events"
| "tcx_loop wv (line # lines) events =
     (if str_contains line ''<HeartRateBpm'' \<or> str_contains line ''<Value>''
      then and_then (push_event ''heart-rate'' (wo_text wv line) events) (tcx_loop wv lines)
      else if str_contains line ''<Trackpoint''
      then and_then (push_event ''route'' (wo_text wv line) events) (tcx_loop wv lines)
      else tcx_loop wv lines events)"

definition parse_tcx :: "wire_ops \<Rightarrow> string \<Rightarrow> worn_event list device_result" where
  "parse_tcx wv body = tcx_loop wv (map trim (text_lines body)) []"

definition import_events :: "wire_ops \<Rightarrow> import_source \<Rightarrow> worn_event list device_result" where
  "import_events wv source =
     (case is_format source of
        Csv \<Rightarrow> parse_row_export wv Csv (is_body source)
      | Fit \<Rightarrow> parse_row_export wv Fit (is_body source)
      | ZeppExport \<Rightarrow> parse_row_export wv ZeppExport (is_body source)
      | Gpx \<Rightarrow> parse_gpx wv (is_body source)
      | Tcx \<Rightarrow> parse_tcx wv (is_body source))"

subsection \<open>Encoding and decoding\<close>

definition worn_event_wf :: "worn_event \<Rightarrow> bool" where
  "worn_event_wf ev \<longleftrightarrow> sym_namespace (we_sensor ev) = Some ''stream/worn-sensor''"

lemma worn_event_new_Ok:
  "worn_event_new seq sensor val = Ok ev \<longleftrightarrow>
     ev = \<lparr>we_seq = seq, we_sensor = sensor, we_value = val\<rparr> \<and> worn_event_wf ev"
  by (auto simp: worn_event_new_def worn_event_wf_def)

lemma from_sensor_name_eq [simp]:
  "from_sensor_name seq sensor val =
     Ok \<lparr>we_seq = seq, we_sensor = symbol_qualified ''stream/worn-sensor'' sensor, we_value = val\<rparr>"
  by (simp add: from_sensor_name_def worn_event_new_def)

lemma worn_event_fields:
  assumes "wire_laws wv"
  shows "va_field wv (worn_event_expr wv ev) ''sample'' =
      Some (ESymbol (symbol_qualified ''stream/device-sample'' ''worn-event''))"
    "va_field wv (worn_event_expr wv ev) ''seq'' = Some (wo_uint wv (we_seq ev))"
    "va_field wv (worn_event_expr wv ev) ''sensor'' = Some (ESymbol (we_sensor ev))"
    "va_field wv (worn_event_expr wv ev) ''value'' = Some (we_value ev)"
  by (simp_all add: worn_event_expr_def worn_event_kind_def wire_access(1,7) [OF assms])

lemma worn_event_from_expr_Ok:
  assumes "wire_laws wv"
  shows "worn_event_from_expr wv e = Ok ev \<longleftrightarrow>
    va_field wv e ''sample'' = Some (ESymbol (symbol_qualified ''stream/device-sample'' ''worn-event'')) \<and>
    Option.bind (va_field wv e ''seq'') u64_value = Some (we_seq ev) \<and>
    va_field wv e ''sensor'' = Some (ESymbol (we_sensor ev)) \<and>
    va_field wv e ''value'' = Some (we_value ev) \<and> worn_event_wf ev"
proof -
  have sample: "ensure_sample wv e = Ok u \<longleftrightarrow>
      va_field wv e ''sample'' = Some (ESymbol (symbol_qualified ''stream/device-sample'' ''worn-event''))" for u
    by (auto simp: ensure_sample_def map_device_error_def and_then_eq_Ok wire_access(4) [OF assms]
        worn_event_kind_def symbol_qualified_def symbol.expand split: if_splits)
  show ?thesis
    unfolding worn_event_from_expr_def and_then_eq_Ok sample watch_required_u64_def
      required_u64_Ok [OF assms] map_device_error_def map_err_eq_Ok wire_access(3,4) [OF assms]
      worn_event_new_Ok
    by auto
qed

subsection \<open>What an export contains\<close>

text \<open>
  The reference: the lines of the format that count, each with its sensor and value, numbered
  from zero.
\<close>

definition export_rows :: "wire_ops \<Rightarrow> import_source \<Rightarrow> (string \<times> expr) list" where
  "export_rows wv source =
     (let lines = map trim (text_lines (is_body source))
      in case is_format source of
        Gpx \<Rightarrow> map (\<lambda>l. (''gps'', wo_text wv l)) (filter (\<lambda>l. str_contains l ''<trkpt'') lines)
      | Tcx \<Rightarrow> map (\<lambda>l. (if str_contains l ''<HeartRateBpm'' \<or> str_contains l ''<Value>''
                         then ''heart-rate'' else ''route'', wo_text wv l))
                (filter (\<lambda>l. list_ex (str_contains l) [''<HeartRateBpm'', ''<Value>'', ''<Trackpoint'']) lines)
      | _ \<Rightarrow> map (\<lambda>l. (row_sensor l, row_value wv l)) (filter (\<lambda>l. l \<noteq> [] \<and> \<not> is_header l) lines))"

definition number_events :: "nat \<Rightarrow> (string \<times> expr) list \<Rightarrow> worn_event list" where
  "number_events n rows = map (\<lambda>(i, sensor, val).
     \<lparr>we_seq = of_nat i, we_sensor = symbol_qualified ''stream/worn-sensor'' sensor, we_value = val\<rparr>)
     (enumerate n rows)"

lemma number_events_simps [simp]:
  "number_events n [] = []"
  "number_events n ((sensor, val) # rows) =
     \<lparr>we_seq = of_nat n, we_sensor = symbol_qualified ''stream/worn-sensor'' sensor, we_value = val\<rparr>
       # number_events (Suc n) rows"
  by (simp_all add: number_events_def)

lemma push_event_eq [simp]:
  "push_event sensor val events = Ok (events @ [\<lparr>we_seq = of_nat (length events),
     we_sensor = symbol_qualified ''stream/worn-sensor'' sensor, we_value = val\<rparr>])"
  by (simp add: push_event_def vec_len_def)

lemma row_loop_eq:
  "row_loop wv lines events = Ok (events @ number_events (length events)
     (map (\<lambda>l. (row_sensor l, row_value wv l)) (filter (\<lambda>l. \<not> is_header l) lines)))"
  by (induction lines arbitrary: events) simp_all

lemma gpx_loop_eq:
  "gpx_loop wv lines events = Ok (events @ number_events (length events)
     (map (\<lambda>l. (''gps'', wo_text wv l)) (filter (\<lambda>l. str_contains l ''<trkpt'') lines)))"
  by (induction lines arbitrary: events) simp_all

lemma tcx_loop_eq:
  "tcx_loop wv lines events = Ok (events @ number_events (length events)
     (map (\<lambda>l. (if str_contains l ''<HeartRateBpm'' \<or> str_contains l ''<Value>''
                then ''heart-rate'' else ''route'', wo_text wv l))
       (filter (\<lambda>l. list_ex (str_contains l) [''<HeartRateBpm'', ''<Value>'', ''<Trackpoint'']) lines)))"
  by (induction lines arbitrary: events) simp_all

lemma filter_header: "filter (\<lambda>l. \<not> is_header l) (filter (\<lambda>l. l \<noteq> []) ls) = filter (\<lambda>l. l \<noteq> [] \<and> \<not> is_header l) ls"
  by (simp add: conj_commute)

text \<open>The sensors that an export can name.\<close>

definition import_sensors :: "string list" where
  "import_sensors = [''heart-rate'', ''gps'', ''route'', ''battery'', ''connection'', ''mic-audio'', ''motion'']"

lemma normalize_sensor_known: "normalize_sensor val \<in> set import_sensors"
  by (simp add: normalize_sensor_def Let_def import_sensors_def)

lemma export_rows_known: "fst ` set (export_rows wv source) \<subseteq> set import_sensors"
proof -
  have "row_sensor l \<in> set import_sensors" for l
    using normalize_sensor_known by (auto simp: row_sensor_def import_sensors_def split: list.splits)
  moreover have "''gps'' \<in> set import_sensors" "''heart-rate'' \<in> set import_sensors" "''route'' \<in> set import_sensors"
    by (simp_all add: import_sensors_def)
  ultimately show ?thesis
    by (auto simp: export_rows_def Let_def split: import_format.splits)
qed

lemma number_events_nth:
  "i < length rows \<Longrightarrow> number_events n rows ! i =
     \<lparr>we_seq = of_nat (n + i), we_sensor = symbol_qualified ''stream/worn-sensor'' (fst (rows ! i)),
      we_value = snd (rows ! i)\<rparr>"
  by (simp add: number_events_def nth_enumerate_eq split: prod.splits)

lemma length_number_events [simp]: "length (number_events n rows) = length rows"
  by (simp add: number_events_def)

lemma parse_export_eq:
  "import_events wv source =
     (if is_format source = ZeppExport \<and> export_rows wv source = []
      then Err (Sample [Lit ''zepp export did not contain worn rows''])
      else Ok (number_events 0 (export_rows wv source)))"
proof -
  have "number_events 0 rows = [] \<longleftrightarrow> rows = []" for rows
    using length_number_events [of 0 rows] by (metis length_0_conv)
  then show ?thesis
    by (cases "is_format source")
      (simp_all add: import_events_def export_rows_def Let_def parse_row_export_def row_loop_eq filter_header
        parse_gpx_def gpx_loop_eq parse_tcx_def tcx_loop_eq)
qed

subsection \<open>Properties\<close>


text \<open>
  C26. A worn event that is encoded is decoded to itself when its number is below \<open>2 ^ 63\<close>; from
  there on decoding refuses what encoding produced, because numbers are parsed as \<open>i64\<close>. What
  decodes is always an event of the worn-sensor namespace with such a number.
\<close>
theorem worn_event_roundtrip:
  assumes "wire_laws wv" and "sym_namespace (we_sensor ev) = Some ''stream/worn-sensor''"
  shows "(\<forall>ev'. worn_event_from_expr wv (worn_event_expr wv ev) = Ok ev' \<longleftrightarrow>
        ev' = ev \<and> unat (we_seq ev) < 2 ^ 63) \<and>
    (\<forall>e ev'. worn_event_from_expr wv e = Ok ev' \<longrightarrow>
        sym_namespace (we_sensor ev') = Some ''stream/worn-sensor'' \<and> unat (we_seq ev') < 2 ^ 63)"
proof (intro conjI allI impI)
  show "worn_event_from_expr wv (worn_event_expr wv ev) = Ok ev' \<longleftrightarrow> ev' = ev \<and> unat (we_seq ev) < 2 ^ 63" for ev'
    unfolding worn_event_from_expr_Ok [OF assms(1)] worn_event_fields [OF assms(1)]
    using assms(2) by (auto simp: u64_value_uint [OF assms(1)] worn_event_wf_def split: if_splits)
next
  fix e ev'
  assume ok: "worn_event_from_expr wv e = Ok ev'"
  then obtain v where "u64_value v = Some (we_seq ev')"
    by (auto simp: worn_event_from_expr_Ok [OF assms(1)] bind_eq_Some_conv)
  then show "unat (we_seq ev') < 2 ^ 63"
    by (rule u64_value_bound)
  show "sym_namespace (we_sensor ev') = Some ''stream/worn-sensor''"
    using ok by (simp add: worn_event_from_expr_Ok [OF assms(1)] worn_event_wf_def)
qed

definition demo_event :: worn_event where
  "demo_event = \<lparr>we_seq = 7, we_sensor = symbol_qualified ''stream/worn-sensor'' ''gps'', we_value = ENil\<rparr>"

theorem worn_event_roundtrip_witness:
  "worn_event_from_expr demo_wire (worn_event_expr demo_wire demo_event) = Ok demo_event \<and>
   (\<forall>ev. worn_event_from_expr demo_wire (worn_event_expr demo_wire (demo_event\<lparr>we_seq := 2 ^ 63\<rparr>)) \<noteq> Ok ev)"
proof -
  have "sym_namespace (we_sensor (demo_event\<lparr>we_seq := n\<rparr>)) = Some ''stream/worn-sensor''" for n
    by (simp add: demo_event_def)
  note coded = worn_event_roundtrip [OF demo_wire_laws this]
  have "demo_event\<lparr>we_seq := 7\<rparr> = demo_event"
    by (simp add: demo_event_def)
  with coded [of 7] coded [of "2 ^ 63"] show ?thesis
    by (auto simp: demo_event_def)
qed

text \<open>
  What an import emits can be ingested: every event of an export of less than \<open>2 ^ 63\<close> rows
  decodes to itself, its number is its position, and the watch gate classifies it by its sensor:
  positions and routes need the location capability, audio needs the microphone capability,
  everything else the health capability.
\<close>
theorem imported_events_ingest:
  assumes "wire_laws wv" and "import_events wv source = Ok events" and "length events < 2 ^ 63" and "i < length events"
  shows "worn_event_from_expr wv (worn_event_expr wv (events ! i)) = Ok (events ! i) \<and>
    unat (we_seq (events ! i)) = i \<and>
    (\<exists>sensor \<in> set import_sensors. we_sensor (events ! i) = symbol_qualified ''stream/worn-sensor'' sensor \<and>
      watch_capability_for_worn_event (value_ops.truncate wv) (worn_event_expr wv (events ! i)) =
        Ok (if sensor = ''gps'' \<or> sensor = ''route'' then WatchLocation
            else if sensor = ''mic-audio'' then WatchMic else WatchHealth))"
proof -
  define rows where "rows = export_rows wv source"
  have events: "events = number_events 0 rows"
    using assms(2) parse_export_eq [of wv source] by (simp add: rows_def split: if_splits)
  define sensor where "sensor = fst (rows ! i)"
  have ev: "events ! i = \<lparr>we_seq = of_nat i, we_sensor = symbol_qualified ''stream/worn-sensor'' sensor,
      we_value = snd (rows ! i)\<rparr>"
    using assms(4) by (simp add: events number_events_nth sensor_def)
  have known: "sensor \<in> set import_sensors"
    using export_rows_known [of wv source] assms(4) by (force simp: sensor_def rows_def [symmetric] events)
  have seq: "unat (we_seq (events ! i)) = i"
    using assms(3,4) by (simp add: ev unat_of_nat)
  have "worn_event_from_expr wv (worn_event_expr wv (events ! i)) = Ok (events ! i)"
    unfolding worn_event_from_expr_Ok [OF assms(1)] worn_event_fields [OF assms(1)]
    using seq assms(3,4) by (simp add: u64_value_uint [OF assms(1)] worn_event_wf_def ev)
  moreover have "watch_capability_for_worn_event (value_ops.truncate wv) (worn_event_expr wv (events ! i)) =
        Ok (if sensor = ''gps'' \<or> sensor = ''route'' then WatchLocation
            else if sensor = ''mic-audio'' then WatchMic else WatchHealth)"
    using worn_event_fields [OF assms(1), of "events ! i"]
    by (simp add: watch_capability_for_worn_event_def ensure_worn_event_sample_def required_symbol_field_def
        value_ops.defs ev ensure_def)
  ultimately show ?thesis
    using seq known by (auto simp: ev)
qed

definition demo_export :: import_source where
  "demo_export = import_source_new Csv
     (''sensor,value'' @ [CHR 0x0A] @ ''hr, 71'' @ [CHR 0x0A, CHR 0x0A] @ ''GPS,59.1;18.0'' @ [CHR 0x0D, CHR 0x0A])"

lemma demo_rows: "export_rows demo_wire demo_export = [(''heart-rate'', wo_uint demo_wire 71), (''gps'', EString ''59.1'')]"
proof -
  have lines: "map trim (text_lines (is_body demo_export)) = [''sensor,value'', ''hr, 71'', [], ''GPS,59.1;18.0'']"
    by (simp add: demo_export_def import_source_new_def text_lines_def trim_def is_white_def strip_cr_def)
  have headers: "is_header ''sensor,value''" "\<not> is_header ''hr, 71''" "\<not> is_header ''GPS,59.1;18.0''"
    by (simp_all add: is_header_def ascii_lower_def)
  have rows: "split_row ''hr, 71'' = [''hr'', ''71'']" "split_row ''GPS,59.1;18.0'' = [''GPS'', ''59.1'', ''18.0'']"
    by (simp_all add: split_row_def trim_def is_white_def)
  have "map ascii_lower ''GPS'' = ''gps''"
    by code_simp
  then have sensors: "normalize_sensor ''hr'' = ''heart-rate''" "normalize_sensor ''GPS'' = ''gps''"
    by (simp_all add: normalize_sensor_def trim_def is_white_def ascii_lower_def)
  have "parse_u64 ''71'' = Some 71" "parse_u64 ''59.1'' = None"
    by (simp_all add: parse_u64_def parse_digits_def is_digit_def digits_value_def digit_value_def)
  then have vals: "parse_value demo_wire ''71'' = wo_uint demo_wire 71" "parse_value demo_wire ''59.1'' = EString ''59.1''"
    by (simp_all add: parse_value_def trim_def is_white_def) (simp add: demo_wire_def)
  have "is_format demo_export = Csv"
    by (simp add: demo_export_def import_source_new_def)
  then show ?thesis
    unfolding export_rows_def Let_def lines
    by (simp add: headers rows sensors vals row_sensor_def row_value_def)
qed

theorem imported_events_ingest_witness:
  "\<exists>events. import_events demo_wire demo_export = Ok events \<and> map we_seq events = [0, 1] \<and>
     map we_value events = [wo_uint demo_wire 71, EString ''59.1''] \<and>
     watch_capability_for_worn_event (value_ops.truncate demo_wire) (worn_event_expr demo_wire (events ! 1))
       = Ok WatchLocation"
proof -
  let ?events = "number_events 0 (export_rows demo_wire demo_export)"
  have events: "import_events demo_wire demo_export = Ok ?events"
    unfolding parse_export_eq by (simp add: demo_rows)
  have "length ?events = 2"
    by (simp add: demo_rows)
  then have "\<exists>sensor \<in> set import_sensors. we_sensor (?events ! 1) = symbol_qualified ''stream/worn-sensor'' sensor \<and>
      watch_capability_for_worn_event (value_ops.truncate demo_wire) (worn_event_expr demo_wire (?events ! 1)) =
        Ok (if sensor = ''gps'' \<or> sensor = ''route'' then WatchLocation
            else if sensor = ''mic-audio'' then WatchMic else WatchHealth)"
    using imported_events_ingest [OF demo_wire_laws events, of 1] by simp
  then have "watch_capability_for_worn_event (value_ops.truncate demo_wire) (worn_event_expr demo_wire (?events ! 1))
      = Ok WatchLocation"
    by (simp add: demo_rows)
  with events show ?thesis
    by (intro exI [of _ ?events]) (simp add: demo_rows)
qed

end
