(* ===== verification/WatchSession.thy ===== *)
theory WatchSession
  imports WatchEvents Sessions
begin

section \<open>Watch commands, routes and sessions\<close>

text \<open>
  The rest of \<open>crates/sim-lib-stream-wristbridge\<close>: validation of watch commands
  (\<open>src/command.rs\<close>), the bring-up ledger and the guard that hardware routes pass
  (\<open>src/bringup.rs\<close>), the four routes (\<open>src/ble.rs\<close>, \<open>src/relay.rs\<close>, \<open>src/zepp.rs\<close>, import) and
  the provider with its session (\<open>src/session.rs\<close>, \<open>src/stub.rs\<close>). The session is a
  \<open>logged_session\<close>.
\<close>

subsection \<open>Routes\<close>

datatype watch_route_kind = BleRoute | RelayRoute | ZeppBridgeRoute | ImportRoute

primrec route_kind_token :: "watch_route_kind \<Rightarrow> string" where
  "route_kind_token BleRoute = ''ble''"
| "route_kind_token RelayRoute = ''relay''"
| "route_kind_token ZeppBridgeRoute = ''zepp-bridge''"
| "route_kind_token ImportRoute = ''import''"

subsection \<open>Commands (\<open>src/command.rs\<close>)\<close>

datatype watch_command_kind = Notify | Haptic | SetFaceSlot | SetAlarm | PrivacyMode

primrec command_token :: "watch_command_kind \<Rightarrow> string" where
  "command_token Notify = ''notify''"
| "command_token Haptic = ''haptic''"
| "command_token SetFaceSlot = ''set-face-slot''"
| "command_token SetAlarm = ''set-alarm''"
| "command_token PrivacyMode = ''privacy-mode''"

definition command_from_symbol :: "symbol \<Rightarrow> watch_command_kind device_result" where
  "command_from_symbol s =
     (if sym_namespace s \<noteq> Some ''watch/command''
      then Err (Host [Lit ''watch command symbol must be in '', Lit ''watch/command''])
      else if sym_name s = ''notify'' then Ok Notify
      else if sym_name s = ''haptic'' then Ok Haptic
      else if sym_name s = ''set-face-slot'' then Ok SetFaceSlot
      else if sym_name s = ''set-alarm'' then Ok SetAlarm
      else if sym_name s = ''privacy-mode'' then Ok PrivacyMode
      else Err (Host [Lit ''unknown watch command '', Show_str (sym_name s)]))"

record watch_packet =
  wp_route :: watch_route_kind
  wp_command :: watch_command_kind
  wp_payload :: expr

definition watch_packet_new :: "watch_route_kind \<Rightarrow> watch_command_kind \<Rightarrow> expr \<Rightarrow> watch_packet" where
  "watch_packet_new route cmd payload = \<lparr>wp_route = route, wp_command = cmd, wp_payload = payload\<rparr>"

definition watch_packet_expr :: "wire_ops \<Rightarrow> watch_packet \<Rightarrow> expr" where
  "watch_packet_expr wv p = vb_map wv
     [(''kind'', vb_qsym wv ''stream/wristbridge'' ''command-packet''),
      (''route'', vb_qsym wv ''stream/wristbridge-route'' (route_kind_token (wp_route p))),
      (''command'', vb_qsym wv ''watch/command'' (command_token (wp_command p))),
      (''payload'', wp_payload p)]"

text \<open>\<open>map_host_error\<close>.\<close>

definition map_host_error :: "wire_ops \<Rightarrow> 'a result \<Rightarrow> 'a device_result" where
  "map_host_error wv r = map_err (\<lambda>e. Host (wo_display wv e)) r"

definition ensure_command_fields :: "expr \<Rightarrow> string list \<Rightarrow> string \<Rightarrow> unit device_result" where
  "ensure_command_fields cmd variant_fields ctxt =
     ensure_no_extra cmd ([''kind'', ''command''] @ variant_fields) ctxt"

primrec all_strings :: "expr list \<Rightarrow> unit device_result" where
  "all_strings [] = Ok ()"
| "all_strings (line # lines) =
     (case line of EString _ \<Rightarrow> all_strings lines
      | _ \<Rightarrow> Err (Host [Lit ''watch notify command lines contain a non-string'']))"

definition validate_notify :: "wire_ops \<Rightarrow> expr \<Rightarrow> unit device_result" where
  "validate_notify wv cmd =
     and_then (ensure_command_fields cmd [''title'', ''lines'', ''urgency''] ''watch command'') (\<lambda>_.
     and_then (map_host_error wv (wo_required_str wv cmd ''title'' ''watch notify command'')) (\<lambda>_.
     and_then (required_list wv cmd ''lines'' ''watch notify command'') (\<lambda>lines.
     and_then (all_strings lines) (\<lambda>_.
     and_then (map_host_error wv (wo_required_sym wv cmd ''urgency'' ''watch notify command'')) (\<lambda>urgency.
     if sym_name urgency \<in> set [''info'', ''warn'', ''error'', ''critical''] then Ok ()
     else Err (Host [Lit ''unknown watch urgency '', Show_str (sym_name urgency)]))))))"

primrec check_steps :: "wire_ops \<Rightarrow> expr list \<Rightarrow> unit device_result" where
  "check_steps wv [] = Ok ()"
| "check_steps wv (stp # stps) =
     and_then (ensure_no_extra stp [''on-ms'', ''off-ms''] ''watch haptic step'') (\<lambda>_.
     and_then (watch_required_u64 wv stp ''on-ms'' ''watch haptic step'') (\<lambda>_.
     and_then (watch_required_u64 wv stp ''off-ms'' ''watch haptic step'') (\<lambda>_.
     check_steps wv stps)))"

definition validate_haptic :: "wire_ops \<Rightarrow> expr \<Rightarrow> unit device_result" where
  "validate_haptic wv cmd =
     and_then (ensure_command_fields cmd [''pattern''] ''watch command'') (\<lambda>_.
     and_then (map_host_error wv (wo_required wv cmd ''pattern'' ''watch haptic command'')) (\<lambda>pattern.
     and_then (ensure_kind wv pattern ''view-wrist'' ''haptic-pattern'' ''watch haptic pattern'') (\<lambda>_.
     and_then (ensure_no_extra pattern [''kind'', ''id'', ''steps'', ''meaning'', ''repeat'']
                 ''watch haptic pattern'') (\<lambda>_.
     and_then (map_host_error wv (wo_required_sym wv pattern ''id'' ''watch haptic pattern'')) (\<lambda>_.
     and_then (map_host_error wv (wo_required_sym wv pattern ''meaning'' ''watch haptic pattern'')) (\<lambda>_.
     and_then (required_list wv pattern ''steps'' ''watch haptic pattern'') (\<lambda>stps.
     and_then (ensure (stps \<noteq> []) (Host [Lit ''watch haptic pattern requires at least one step''])) (\<lambda>_.
     and_then (check_steps wv stps) (\<lambda>_.
     and_then (watch_required_u64 wv pattern ''repeat'' ''watch haptic pattern'') (\<lambda>n.
     ensure (n \<noteq> 0) (Host [Lit ''watch haptic pattern repeat must be greater than zero''])))))))))))"

definition validate_set_face_slot :: "wire_ops \<Rightarrow> expr \<Rightarrow> unit device_result" where
  "validate_set_face_slot wv cmd =
     and_then (ensure_command_fields cmd [''slot'', ''value''] ''watch command'') (\<lambda>_.
     and_then (map_host_error wv (wo_required_str wv cmd ''slot'' ''watch face-slot command'')) (\<lambda>_.
     and_then (map_host_error wv (wo_required wv cmd ''value'' ''watch face-slot command'')) (\<lambda>_. Ok ())))"

definition validate_set_alarm :: "wire_ops \<Rightarrow> expr \<Rightarrow> unit device_result" where
  "validate_set_alarm wv cmd =
     and_then (ensure_command_fields cmd [''id'', ''at-ms'', ''label''] ''watch command'') (\<lambda>_.
     and_then (map_host_error wv (wo_required_str wv cmd ''id'' ''watch alarm command'')) (\<lambda>_.
     and_then (watch_required_u64 wv cmd ''at-ms'' ''watch alarm command'') (\<lambda>_.
     and_then (map_host_error wv (wo_required_str wv cmd ''label'' ''watch alarm command'')) (\<lambda>_. Ok ()))))"

definition validate_privacy :: "wire_ops \<Rightarrow> expr \<Rightarrow> unit device_result" where
  "validate_privacy wv cmd =
     and_then (ensure_command_fields cmd [''enabled'', ''window-ms''] ''watch command'') (\<lambda>_.
     and_then (map_host_error wv (wo_required_bool wv cmd ''enabled'' ''watch privacy command'')) (\<lambda>_.
     and_then (watch_required_u64 wv cmd ''window-ms'' ''watch privacy command'') (\<lambda>_. Ok ())))"

definition encode_watch_command ::
  "wire_ops \<Rightarrow> watch_route_kind \<Rightarrow> expr \<Rightarrow> watch_packet device_result" where
  "encode_watch_command wv route cmd =
     and_then (ensure_kind wv cmd ''view-wrist'' ''command'' ''watch command'') (\<lambda>_.
     and_then (map_host_error wv (wo_required_sym wv cmd ''command'' ''watch command'')) (\<lambda>s.
     and_then (command_from_symbol s) (\<lambda>kind.
     and_then (case kind of
         Notify \<Rightarrow> validate_notify wv cmd
       | Haptic \<Rightarrow> validate_haptic wv cmd
       | SetFaceSlot \<Rightarrow> validate_set_face_slot wv cmd
       | SetAlarm \<Rightarrow> validate_set_alarm wv cmd
       | PrivacyMode \<Rightarrow> validate_privacy wv cmd) (\<lambda>_.
     Ok (watch_packet_new route kind cmd)))))"

subsection \<open>The hardware routes (\<open>src/ble.rs\<close>, \<open>src/relay.rs\<close>, \<open>src/zepp.rs\<close>)\<close>

record watch_ble_link =
  bl_adapter :: string
  bl_device :: string
  bl_events :: "worn_event list"

definition watch_ble_new :: "string \<Rightarrow> string \<Rightarrow> watch_ble_link" where
  "watch_ble_new adapter dev = \<lparr>bl_adapter = adapter, bl_device = dev, bl_events = []\<rparr>"

definition watch_ble_scripted :: "string \<Rightarrow> string \<Rightarrow> worn_event list \<Rightarrow> watch_ble_link" where
  "watch_ble_scripted adapter dev events = \<lparr>bl_adapter = adapter, bl_device = dev, bl_events = events\<rparr>"

definition ble_serialize_command :: "wire_ops \<Rightarrow> expr \<Rightarrow> watch_packet device_result" where
  "ble_serialize_command wv cmd = encode_watch_command wv BleRoute cmd"

record watch_relay_link =
  rl_endpoint :: string
  rl_events :: "worn_event list"

definition watch_relay_new :: "string \<Rightarrow> watch_relay_link" where
  "watch_relay_new endpoint = \<lparr>rl_endpoint = endpoint, rl_events = []\<rparr>"

definition watch_relay_scripted :: "string \<Rightarrow> worn_event list \<Rightarrow> watch_relay_link" where
  "watch_relay_scripted endpoint events = \<lparr>rl_endpoint = endpoint, rl_events = events\<rparr>"

definition relay_serialize_command :: "wire_ops \<Rightarrow> watch_relay_link \<Rightarrow> expr \<Rightarrow> expr device_result" where
  "relay_serialize_command wv link cmd =
     and_then (encode_watch_command wv RelayRoute cmd) (\<lambda>packet.
     Ok (vb_map wv
       [(''kind'', vb_qsym wv ''stream/wristbridge'' ''relay-command''),
        (''endpoint'', wo_text wv (rl_endpoint link)),
        (''packet'', watch_packet_expr wv packet)]))"

definition relay_command_packet :: "wire_ops \<Rightarrow> expr \<Rightarrow> watch_packet device_result" where
  "relay_command_packet wv cmd = encode_watch_command wv RelayRoute cmd"

record zepp_link =
  zl_companion :: string
  zl_events :: "worn_event list"

definition zepp_new :: "string \<Rightarrow> zepp_link" where
  "zepp_new companion = \<lparr>zl_companion = companion, zl_events = []\<rparr>"

definition zepp_scripted :: "string \<Rightarrow> worn_event list \<Rightarrow> zepp_link" where
  "zepp_scripted companion events = \<lparr>zl_companion = companion, zl_events = events\<rparr>"

definition zepp_serialize_command :: "wire_ops \<Rightarrow> zepp_link \<Rightarrow> expr \<Rightarrow> expr device_result" where
  "zepp_serialize_command wv link cmd =
     and_then (encode_watch_command wv ZeppBridgeRoute cmd) (\<lambda>packet.
     Ok (vb_map wv
       [(''kind'', vb_qsym wv ''stream/wristbridge'' ''zepp-bridge-command''),
        (''companion'', wo_text wv (zl_companion link)),
        (''packet'', watch_packet_expr wv packet)]))"

definition zepp_command_packet :: "wire_ops \<Rightarrow> expr \<Rightarrow> watch_packet device_result" where
  "zepp_command_packet wv cmd = encode_watch_command wv ZeppBridgeRoute cmd"

datatype watch_route =
    WatchBle watch_ble_link
  | WatchRelay watch_relay_link
  | WatchZepp zepp_link
  | WatchImport import_source
  | WatchStub

subsection \<open>Bring-up evidence (\<open>src/bringup.rs\<close>)\<close>

datatype bringup_route = BringBle | BringRelay | BringZepp | BringImport | BringWifiLan

primrec bringup_key :: "bringup_route \<Rightarrow> string" where
  "bringup_key BringBle = ''ble''"
| "bringup_key BringRelay = ''relay''"
| "bringup_key BringZepp = ''zepp''"
| "bringup_key BringImport = ''import''"
| "bringup_key BringWifiLan = ''wifi-lan''"

primrec proof_expectation :: "bringup_route \<Rightarrow> string" where
  "proof_expectation BringBle = ''BlueZ HR/Battery/DeviceInfo/CurrentTime proof''"
| "proof_expectation BringRelay = ''phone relay notification lane proof''"
| "proof_expectation BringZepp = ''Zepp Mini Program bridge proof''"
| "proof_expectation BringImport = ''GPX/FIT/TCX/CSV import proof''"
| "proof_expectation BringWifiLan = ''Zepp OS API and device policy Wi-Fi LAN proof''"

record route_proof =
  rp_verified :: bool
  rp_proof :: "string option"

definition unverified :: route_proof where
  "unverified = \<lparr>rp_verified = False, rp_proof = None\<rparr>"

definition verified :: "string \<Rightarrow> route_proof" where
  "verified note_text = \<lparr>rp_verified = True, rp_proof = Some note_text\<rparr>"

definition route_proof_expr :: "wire_ops \<Rightarrow> route_proof \<Rightarrow> expr" where
  "route_proof_expr wv p = vb_map wv
     [(''verified'', EBool (rp_verified p)),
      (''proof'', case rp_proof p of None \<Rightarrow> ENil | Some t \<Rightarrow> wo_text wv t)]"

record bringup_ledger =
  bu_ble :: route_proof
  bu_relay :: route_proof
  bu_zepp :: route_proof
  bu_import :: route_proof
  bu_wifi_lan :: route_proof

definition ledger_default :: bringup_ledger where
  "ledger_default = \<lparr>bu_ble = unverified, bu_relay = unverified, bu_zepp = unverified,
     bu_import = unverified, bu_wifi_lan = unverified\<rparr>"

definition ledger_entry :: "bringup_ledger \<Rightarrow> bringup_route \<Rightarrow> route_proof" where
  "ledger_entry l route = (case route of
       BringBle \<Rightarrow> bu_ble l
     | BringRelay \<Rightarrow> bu_relay l
     | BringZepp \<Rightarrow> bu_zepp l
     | BringImport \<Rightarrow> bu_import l
     | BringWifiLan \<Rightarrow> bu_wifi_lan l)"

text \<open>\<open>*self.entry_mut(route) = p\<close>.\<close>

definition ledger_set :: "bringup_route \<Rightarrow> route_proof \<Rightarrow> bringup_ledger \<Rightarrow> bringup_ledger" where
  "ledger_set route p l = (case route of
       BringBle \<Rightarrow> l\<lparr>bu_ble := p\<rparr>
     | BringRelay \<Rightarrow> l\<lparr>bu_relay := p\<rparr>
     | BringZepp \<Rightarrow> l\<lparr>bu_zepp := p\<rparr>
     | BringImport \<Rightarrow> l\<lparr>bu_import := p\<rparr>
     | BringWifiLan \<Rightarrow> l\<lparr>bu_wifi_lan := p\<rparr>)"

definition ledger_verify :: "bringup_route \<Rightarrow> string \<Rightarrow> bringup_ledger \<Rightarrow> bringup_ledger" where
  "ledger_verify route note_text l = ledger_set route (verified note_text) l"

definition import_fixture :: bringup_ledger where
  "import_fixture = ledger_verify BringImport
     ''synthetic GPX/FIT/TCX/CSV fixtures exercised by CI'' ledger_default"

definition ledger_expr :: "wire_ops \<Rightarrow> bringup_ledger \<Rightarrow> expr" where
  "ledger_expr wv l = vb_map wv
     [(''kind'', vb_qsym wv ''stream/wristbridge'' ''bringup-ledger''),
      (''fixture'', wo_text wv ''bringup/ledger''),
      (''ble'', route_proof_expr wv (bu_ble l)),
      (''relay'', route_proof_expr wv (bu_relay l)),
      (''zepp'', route_proof_expr wv (bu_zepp l)),
      (''import'', route_proof_expr wv (bu_import l)),
      (''wifi-lan'', route_proof_expr wv (bu_wifi_lan l)),
      (''notes'', wo_list wv (map (\<lambda>r. wo_text wv (proof_expectation r))
         [BringBle, BringRelay, BringZepp, BringImport, BringWifiLan]))]"

definition require_verified :: "bringup_route \<Rightarrow> bringup_ledger \<Rightarrow> unit device_result" where
  "require_verified route l =
     (if rp_verified (ledger_entry l route) then Ok ()
      else Err (Host [Lit ''watch route '', Lit (bringup_key route),
             Lit '' requires verified bring-up proof: '', Lit (proof_expectation route)]))"

definition route_enable :: "watch_route \<Rightarrow> bringup_ledger \<Rightarrow> unit device_result" where
  "route_enable route l = (case route of
       WatchStub \<Rightarrow> Ok ()
     | WatchImport _ \<Rightarrow> Ok ()
     | WatchBle _ \<Rightarrow> require_verified BringBle l
     | WatchRelay _ \<Rightarrow> require_verified BringRelay l
     | WatchZepp _ \<Rightarrow> require_verified BringZepp l)"

subsection \<open>Provider and session (\<open>src/session.rs\<close>, \<open>src/stub.rs\<close>)\<close>

definition watch_device_profile :: device_profile where
  "watch_device_profile = \<lparr>
     dp_device = symbol_qualified ''device'' ''amazfit-t-rex-3-pro'',
     dp_streams = map (symbol_qualified ''device/stream'')
       [''heart-rate'', ''motion'', ''location'', ''battery'', ''connection'', ''mic-audio''],
     dp_inputs = map (symbol_qualified ''device/input'') [''button'', ''touch'', ''tap'', ''raise''],
     dp_outputs = map (symbol_qualified ''watch/output'')
       [''notification'', ''haptic'', ''face-slot'', ''alarm'', ''privacy''],
     dp_sample_kinds = [device_sample_kind_symbol worn_event_kind]\<rparr>"

record watch_provider =
  wp_source :: watch_route
  wp_profile :: device_profile
  wp_bringup :: bringup_ledger

definition watch_provider_new :: "watch_route \<Rightarrow> watch_provider" where
  "watch_provider_new route = \<lparr>wp_source = route, wp_profile = watch_device_profile, wp_bringup = ledger_default\<rparr>"

definition watch_ble :: "watch_ble_link \<Rightarrow> watch_provider" where
  "watch_ble link = watch_provider_new (WatchBle link)"

definition watch_relay :: "watch_relay_link \<Rightarrow> watch_provider" where
  "watch_relay link = watch_provider_new (WatchRelay link)"

definition watch_zepp_bridge :: "zepp_link \<Rightarrow> watch_provider" where
  "watch_zepp_bridge link = watch_provider_new (WatchZepp link)"

definition watch_import :: "import_source \<Rightarrow> watch_provider" where
  "watch_import source = watch_provider_new (WatchImport source)"

definition watch_stub :: watch_provider where
  "watch_stub = watch_provider_new WatchStub"

definition with_bringup_ledger :: "bringup_ledger \<Rightarrow> watch_provider \<Rightarrow> watch_provider" where
  "with_bringup_ledger l p = p\<lparr>wp_bringup := l\<rparr>"

record watch_session =
  ws_profile :: device_profile
  ws_route :: watch_route_kind
  ws_events :: "expr list"
  ws_sent :: "watch_packet list"

definition watch_session_new ::
  "wire_ops \<Rightarrow> watch_route_kind \<Rightarrow> worn_event list \<Rightarrow> device_profile \<Rightarrow> watch_session" where
  "watch_session_new wv route events profile = \<lparr>ws_profile = profile, ws_route = route,
     ws_events = map (worn_event_expr wv) events, ws_sent = []\<rparr>"

definition watch_open_session :: "wire_ops \<Rightarrow> watch_provider \<Rightarrow> watch_session device_result" where
  "watch_open_session wv p =
     and_then (route_enable (wp_source p) (wp_bringup p)) (\<lambda>_.
     case wp_source p of
       WatchStub \<Rightarrow> Err Unsupported
     | WatchBle link \<Rightarrow> Ok (watch_session_new wv BleRoute (bl_events link) (wp_profile p))
     | WatchRelay link \<Rightarrow> Ok (watch_session_new wv RelayRoute (rl_events link) (wp_profile p))
     | WatchZepp link \<Rightarrow> Ok (watch_session_new wv ZeppBridgeRoute (zl_events link) (wp_profile p))
     | WatchImport source \<Rightarrow>
         and_then (import_events wv source) (\<lambda>events.
         Ok (watch_session_new wv ImportRoute events (wp_profile p))))"

definition watch_open ::
  "wire_ops \<Rightarrow> watch_provider \<Rightarrow> (watch_session, watch_session) opened_session device_result" where
  "watch_open wv p = and_then (watch_open_session wv p) (\<lambda>s. Ok (Effect s))"

definition watch_start :: "watch_session \<Rightarrow> unit device_result \<times> watch_session" where
  "watch_start s = (Ok (), s)"

definition watch_poll :: "string \<Rightarrow> watch_session \<Rightarrow> expr option device_result \<times> watch_session" where
  "watch_poll kind s =
     (if kind = worn_event_kind
      then (case ws_events s of
          [] \<Rightarrow> (Ok None, s)
        | e # es \<Rightarrow> (Ok (Some e), s\<lparr>ws_events := es\<rparr>))
      else (Ok None, s))"

definition watch_stop :: "watch_session \<Rightarrow> unit device_result \<times> watch_session" where
  "watch_stop s = (Ok (), s)"

definition watch_invoke ::
  "wire_ops \<Rightarrow> (expr \<Rightarrow> usize) \<Rightarrow> effect_request \<Rightarrow> watch_session \<Rightarrow>
   effect_receipt device_result \<times> watch_session" where
  "watch_invoke wv debug_len req s =
     (let d = standard_effect_descriptor ''watch-command''
      in case and_then (authorize debug_len d req)
             (\<lambda>_. encode_watch_command wv (ws_route s) (rq_payload req)) of
        Inl e \<Rightarrow> (Err e, s)
      | Inr packet \<Rightarrow>
          (let s' = s\<lparr>ws_sent := ws_sent s @ [packet]\<rparr>
           in (Ok \<lparr>rc_kind = ed_receipt d, rc_descriptor = ed_id d, rc_sequence = vec_len (ws_sent s')\<rparr>, s')))"

definition watch_ops :: "wire_ops \<Rightarrow> (expr \<Rightarrow> usize) \<Rightarrow> watch_session session_ops" where
  "watch_ops wv debug_len = \<lparr>so_start = watch_start, so_poll = watch_poll, so_stop = watch_stop,
     so_invoke = (\<lambda>req s. Some (watch_invoke wv debug_len req s))\<rparr>"

definition watch_stub_provider :: stub_provider where
  "watch_stub_provider = stub_provider_new watch_device_profile"

subsection \<open>Valid commands\<close>

text \<open>The fields each command has, and what they hold.\<close>

primrec command_fields :: "watch_command_kind \<Rightarrow> string list" where
  "command_fields Notify = [''title'', ''lines'', ''urgency'']"
| "command_fields Haptic = [''pattern'']"
| "command_fields SetFaceSlot = [''slot'', ''value'']"
| "command_fields SetAlarm = [''id'', ''at-ms'', ''label'']"
| "command_fields PrivacyMode = [''enabled'', ''window-ms'']"

definition u64_field :: "wire_ops \<Rightarrow> expr \<Rightarrow> string \<Rightarrow> u64 option" where
  "u64_field wv e name = Option.bind (va_field wv e name) u64_value"

definition valid_step :: "wire_ops \<Rightarrow> expr \<Rightarrow> bool" where
  "valid_step wv e \<longleftrightarrow> only_fields e [''on-ms'', ''off-ms''] \<and>
     u64_field wv e ''on-ms'' \<noteq> None \<and> u64_field wv e ''off-ms'' \<noteq> None"

definition valid_pattern :: "wire_ops \<Rightarrow> expr \<Rightarrow> bool" where
  "valid_pattern wv e \<longleftrightarrow>
     va_field wv e ''kind'' = Some (ESymbol (symbol_qualified ''view-wrist'' ''haptic-pattern'')) \<and>
     only_fields e [''kind'', ''id'', ''steps'', ''meaning'', ''repeat''] \<and>
     (\<exists>s. va_field wv e ''id'' = Some (ESymbol s)) \<and> (\<exists>s. va_field wv e ''meaning'' = Some (ESymbol s)) \<and>
     (\<exists>stps. va_field wv e ''steps'' = Some (EList stps) \<and> stps \<noteq> [] \<and> (\<forall>stp \<in> set stps. valid_step wv stp)) \<and>
     (\<exists>n. u64_field wv e ''repeat'' = Some n \<and> n \<noteq> 0)"

primrec valid_arguments :: "wire_ops \<Rightarrow> expr \<Rightarrow> watch_command_kind \<Rightarrow> bool" where
  "valid_arguments wv e Notify \<longleftrightarrow>
     (\<exists>t. va_field wv e ''title'' = Some (EString t)) \<and>
     (\<exists>lines. va_field wv e ''lines'' = Some (EList (map EString lines))) \<and>
     (\<exists>s. va_field wv e ''urgency'' = Some (ESymbol s) \<and>
        sym_name s \<in> {''info'', ''warn'', ''error'', ''critical''})"
| "valid_arguments wv e Haptic \<longleftrightarrow> (\<exists>pattern. va_field wv e ''pattern'' = Some pattern \<and> valid_pattern wv pattern)"
| "valid_arguments wv e SetFaceSlot \<longleftrightarrow>
     (\<exists>t. va_field wv e ''slot'' = Some (EString t)) \<and> va_field wv e ''value'' \<noteq> None"
| "valid_arguments wv e SetAlarm \<longleftrightarrow>
     (\<exists>t. va_field wv e ''id'' = Some (EString t)) \<and> u64_field wv e ''at-ms'' \<noteq> None \<and>
     (\<exists>t. va_field wv e ''label'' = Some (EString t))"
| "valid_arguments wv e PrivacyMode \<longleftrightarrow>
     (\<exists>b. va_field wv e ''enabled'' = Some (EBool b)) \<and> u64_field wv e ''window-ms'' \<noteq> None"

definition watch_command_valid :: "wire_ops \<Rightarrow> watch_command_kind \<Rightarrow> expr \<Rightarrow> bool" where
  "watch_command_valid wv kind e \<longleftrightarrow>
     va_field wv e ''kind'' = Some (ESymbol (symbol_qualified ''view-wrist'' ''command'')) \<and>
     va_field wv e ''command'' = Some (ESymbol (symbol_qualified ''watch/command'' (command_token kind))) \<and>
     only_fields e (''kind'' # ''command'' # command_fields kind) \<and> valid_arguments wv e kind"

lemma command_from_symbol_Ok:
  "command_from_symbol s = Ok kind \<longleftrightarrow> s = symbol_qualified ''watch/command'' (command_token kind)"
  by (cases s; cases kind) (auto simp: command_from_symbol_def symbol_qualified_def)

lemma all_strings_Ok: "all_strings lines = Ok u \<longleftrightarrow> (\<exists>ts. lines = map EString ts)"
proof (induction lines)
  case Nil
  show ?case by simp
next
  case (Cons line lines)
  then show ?case
    by (cases line) (auto simp: Cons_eq_map_conv)
qed

lemmas command_reads = ensure_command_fields_def ensure_no_extra_Ok map_host_error_def map_err_eq_Ok
  watch_required_u64_def and_then_eq_Ok

lemmas wire_reads = wire_access(3-6) required_u64_Ok required_list_Ok ensure_kind_Ok

text \<open>Left over after unfolding the readers: the fields, and what a reader returned but nobody used.\<close>

lemma Ok_unit: "(Ok () = (Ok u :: 'e + unit)) = True"
  by simp

lemmas field_lists = Ok_unit not_None_eq valid_pattern_def append_Cons append_Nil command_fields.simps valid_arguments.simps simp_thms ex_simps
  u64_field_def ensure_eq_Ok if_True if_False

lemma validate_notify_Ok:
  assumes "wire_laws wv"
  shows "validate_notify wv e = Ok u \<longleftrightarrow>
    only_fields e (''kind'' # ''command'' # command_fields Notify) \<and> valid_arguments wv e Notify"
  unfolding validate_notify_def command_reads wire_reads [OF assms] all_strings_Ok
  by (simp only: field_lists) (auto split: if_splits)

lemma check_steps_Ok:
  assumes "wire_laws wv"
  shows "check_steps wv stps = Ok u \<longleftrightarrow> (\<forall>stp \<in> set stps. valid_step wv stp)"
proof (induction stps)
  case (Cons stp stps)
  show ?case
    unfolding check_steps.simps command_reads wire_reads [OF assms] Cons.IH valid_step_def
    by (simp only: field_lists) simp
qed simp

lemma validate_haptic_Ok:
  assumes "wire_laws wv"
  shows "validate_haptic wv e = Ok u \<longleftrightarrow>
    only_fields e (''kind'' # ''command'' # command_fields Haptic) \<and> valid_arguments wv e Haptic"
  unfolding validate_haptic_def command_reads wire_reads [OF assms] check_steps_Ok [OF assms]
  by (simp only: field_lists) blast

lemma validate_set_face_slot_Ok:
  assumes "wire_laws wv"
  shows "validate_set_face_slot wv e = Ok u \<longleftrightarrow>
    only_fields e (''kind'' # ''command'' # command_fields SetFaceSlot) \<and> valid_arguments wv e SetFaceSlot"
  unfolding validate_set_face_slot_def command_reads wire_reads [OF assms]
  by (simp only: field_lists)

lemma validate_set_alarm_Ok:
  assumes "wire_laws wv"
  shows "validate_set_alarm wv e = Ok u \<longleftrightarrow>
    only_fields e (''kind'' # ''command'' # command_fields SetAlarm) \<and> valid_arguments wv e SetAlarm"
  unfolding validate_set_alarm_def command_reads wire_reads [OF assms]
  by (simp only: field_lists)

lemma validate_privacy_Ok:
  assumes "wire_laws wv"
  shows "validate_privacy wv e = Ok u \<longleftrightarrow>
    only_fields e (''kind'' # ''command'' # command_fields PrivacyMode) \<and> valid_arguments wv e PrivacyMode"
  unfolding validate_privacy_def command_reads wire_reads [OF assms]
  by (simp only: field_lists)

lemma encode_watch_command_Ok:
  assumes "wire_laws wv"
  shows "encode_watch_command wv route e = Ok packet \<longleftrightarrow>
    (\<exists>kind. watch_command_valid wv kind e \<and> packet = watch_packet_new route kind e)"
proof -
  note validated = validate_notify_Ok validate_haptic_Ok validate_set_face_slot_Ok validate_set_alarm_Ok
    validate_privacy_Ok
  have "(case kind of Notify \<Rightarrow> validate_notify wv e | Haptic \<Rightarrow> validate_haptic wv e
      | SetFaceSlot \<Rightarrow> validate_set_face_slot wv e | SetAlarm \<Rightarrow> validate_set_alarm wv e
      | PrivacyMode \<Rightarrow> validate_privacy wv e) = Ok u \<longleftrightarrow>
    only_fields e (''kind'' # ''command'' # command_fields kind) \<and> valid_arguments wv e kind" for kind u
    by (cases kind) (simp_all only: watch_command_kind.case validated [OF assms])
  then show ?thesis
    unfolding encode_watch_command_def and_then_eq_Ok ensure_kind_Ok [OF assms] map_host_error_def
      map_err_eq_Ok wire_access(4) [OF assms] command_from_symbol_Ok watch_command_valid_def
    by auto
qed

subsection \<open>Opening\<close>

text \<open>The proof a route needs before it opens, and what its session starts from.\<close>

definition required_proof :: "watch_route \<Rightarrow> bringup_route option" where
  "required_proof route = (case route of
       WatchBle _ \<Rightarrow> Some BringBle
     | WatchRelay _ \<Rightarrow> Some BringRelay
     | WatchZepp _ \<Rightarrow> Some BringZepp
     | _ \<Rightarrow> None)"

definition route_source :: "wire_ops \<Rightarrow> watch_route \<Rightarrow> (watch_route_kind \<times> worn_event list) option" where
  "route_source wv route = (case route of
       WatchBle link \<Rightarrow> Some (BleRoute, bl_events link)
     | WatchRelay link \<Rightarrow> Some (RelayRoute, rl_events link)
     | WatchZepp link \<Rightarrow> Some (ZeppBridgeRoute, zl_events link)
     | WatchImport source \<Rightarrow>
         (case import_events wv source of Inr events \<Rightarrow> Some (ImportRoute, events) | Inl _ \<Rightarrow> None)
     | WatchStub \<Rightarrow> None)"

definition proven :: "bringup_ledger \<Rightarrow> watch_route \<Rightarrow> bool" where
  "proven l route \<longleftrightarrow> (case required_proof route of None \<Rightarrow> True | Some b \<Rightarrow> rp_verified (ledger_entry l b))"

lemma ledger_entry_set [simp]: "ledger_entry (ledger_set b p l) b' = (if b' = b then p else ledger_entry l b')"
  by (cases b; cases b') (simp_all add: ledger_entry_def ledger_set_def)

lemma ledger_entry_default [simp]: "ledger_entry ledger_default b = unverified"
  by (cases b) (simp_all add: ledger_entry_def ledger_default_def)

lemma route_enable_Ok: "route_enable route l = Ok u \<longleftrightarrow> proven l route"
  by (cases route) (simp_all add: route_enable_def require_verified_def proven_def required_proof_def)

lemma watch_open_session_Ok:
  "watch_open_session wv p = Ok s \<longleftrightarrow> proven (wp_bringup p) (wp_source p) \<and>
     (\<exists>kind events. route_source wv (wp_source p) = Some (kind, events) \<and>
        s = watch_session_new wv kind events (wp_profile p))"
  by (cases "wp_source p")
    (auto simp: watch_open_session_def and_then_eq_Ok route_enable_Ok route_source_def split: sum.splits)

subsection \<open>Invoking\<close>

lemma watch_invoke_eq:
  "watch_invoke wv debug_len req s =
     (case and_then (authorize debug_len (standard_effect_descriptor ''watch-command'') req)
             (\<lambda>_. encode_watch_command wv (ws_route s) (rq_payload req)) of
        Inl e \<Rightarrow> (Err e, s)
      | Inr packet \<Rightarrow>
          (Ok (session_receipt (standard_effect_descriptor ''watch-command'') (Suc (length (ws_sent s)))),
           s\<lparr>ws_sent := ws_sent s @ [packet]\<rparr>))"
  by (simp add: watch_invoke_def Let_def session_receipt_def vec_len_def split: sum.split)

lemma watch_invoke_Ok:
  assumes "wire_laws wv"
  shows "watch_invoke wv debug_len req s = (Ok r, s') \<longleftrightarrow>
    authorized debug_len (standard_effect_descriptor ''watch-command'') req \<and>
    (\<exists>kind. watch_command_valid wv kind (rq_payload req) \<and>
       s' = s\<lparr>ws_sent := ws_sent s @ [watch_packet_new (ws_route s) kind (rq_payload req)]\<rparr>) \<and>
    r = session_receipt (standard_effect_descriptor ''watch-command'') (Suc (length (ws_sent s)))"
proof -
  have split: "(case x of Inl e \<Rightarrow> (Err e, s) | Inr packet \<Rightarrow> (Ok r0, f packet)) = (Ok r, s') \<longleftrightarrow>
      (\<exists>packet. x = Ok packet \<and> s' = f packet) \<and> r = r0" for x :: "watch_packet device_result" and f and r0 r :: effect_receipt
    by (cases x) auto
  show ?thesis
    unfolding watch_invoke_eq split and_then_eq_Ok authorize_Ok encode_watch_command_Ok [OF assms] by blast
qed

lemma watch_invoke_Err: "watch_invoke wv debug_len req s = (Err e, s') \<Longrightarrow> s' = s"
  by (auto simp: watch_invoke_eq split: sum.splits)

interpretation watch_log: logged_session debug_len "watch_ops wv debug_len"
    "standard_effect_descriptor ''watch-command''" "\<lambda>s. length (ws_sent s)" for wv debug_len
proof
  fix req s r s'
  assume "so_invoke (watch_ops wv debug_len) req s = Some (Ok r, s')"
  then have inv: "watch_invoke wv debug_len req s = (Ok r, s')"
    by (simp add: watch_ops_def)
  then obtain packet where "authorize debug_len (standard_effect_descriptor ''watch-command'') req = Ok ()"
      "s' = s\<lparr>ws_sent := ws_sent s @ [packet]\<rparr>"
      "r = session_receipt (standard_effect_descriptor ''watch-command'') (Suc (length (ws_sent s)))"
    by (auto simp: watch_invoke_eq and_then_def split: sum.splits)
  then show "authorize debug_len (standard_effect_descriptor ''watch-command'') req = Ok () \<and>
      length (ws_sent s') = Suc (length (ws_sent s)) \<and>
      r = session_receipt (standard_effect_descriptor ''watch-command'') (length (ws_sent s'))"
    by simp
qed (auto simp: watch_ops_def watch_start_def watch_stop_def watch_poll_def dest: watch_invoke_Err split: list.splits)

subsection \<open>Runs\<close>

text \<open>The requests of a run that were answered with a receipt, and the samples it polled.\<close>

definition accepted_request :: "fake_op \<times> fake_out \<Rightarrow> effect_request option" where
  "accepted_request x = (case x of (InvokeEffect req, Invoked (Inr r)) \<Rightarrow> Some req | _ \<Rightarrow> None)"

definition polled_sample :: "fake_out \<Rightarrow> expr option" where
  "polled_sample out = (case out of Polled (Inr (Some e)) \<Rightarrow> Some e | _ \<Rightarrow> None)"

lemma watch_run_total: "\<exists>outs s'. run_steps (session_step (watch_ops wv debug_len)) ops s = Some (outs, s')"
proof (induction ops arbitrary: s)
  case (Cons op ops)
  have "\<exists>out s1. session_step (watch_ops wv debug_len) op s = Some (out, s1)"
    by (cases op) (auto simp: watch_ops_def split: prod.splits)
  then obtain out s1 where "session_step (watch_ops wv debug_len) op s = Some (out, s1)"
    by blast
  with Cons.IH [of s1] show ?case by auto
qed simp

lemma watch_step_log:
  assumes "session_step (watch_ops wv debug_len) op s = Some (out, s1)"
  obtains (same) "accepted_request (op, out) = None" "polled_sample out = None" "s1 = s"
  | (poll) e es where "accepted_request (op, out) = None" "polled_sample out = Some e"
      "ws_events s = e # es" "s1 = s\<lparr>ws_events := es\<rparr>"
  | (invoke) req r where "accepted_request (op, out) = Some req" "polled_sample out = None"
      "watch_invoke wv debug_len req s = (Ok r, s1)"
proof (cases op)
  case (PollSession kind)
  with assms show ?thesis
    by (auto simp: watch_ops_def watch_poll_def accepted_request_def polled_sample_def split: if_splits list.splits
        intro: same poll)
next
  case (InvokeEffect req)
  with assms obtain r where r: "watch_invoke wv debug_len req s = (r, s1)" "out = Invoked r"
    by (auto simp: watch_ops_def split: prod.splits)
  with InvokeEffect show ?thesis
    by (cases r) (auto simp: accepted_request_def polled_sample_def dest: watch_invoke_Err intro: same invoke)
next
  case StartSession
  with assms show ?thesis
    by (intro same) (auto simp: watch_ops_def watch_start_def accepted_request_def polled_sample_def)
next
  case StopSession
  with assms show ?thesis
    by (intro same) (auto simp: watch_ops_def watch_stop_def accepted_request_def polled_sample_def)
qed

lemma watch_run_log:
  assumes "wire_laws wv"
  shows "run_steps (session_step (watch_ops wv debug_len)) ops s = Some (outs, s') \<Longrightarrow>
    ws_route s' = ws_route s \<and>
    List.map_filter polled_sample outs @ ws_events s' = ws_events s \<and>
    map wp_payload (ws_sent s') =
      map wp_payload (ws_sent s) @ map rq_payload (List.map_filter accepted_request (zip ops outs)) \<and>
    (\<forall>packet \<in> set (ws_sent s') - set (ws_sent s).
       wp_route packet = ws_route s \<and> watch_command_valid wv (wp_command packet) (wp_payload packet)) \<and>
    (\<forall>req \<in> set (List.map_filter accepted_request (zip ops outs)).
       authorized debug_len (standard_effect_descriptor ''watch-command'') req)"
proof (induction ops arbitrary: s outs)
  case Nil
  then show ?case by (simp add: map_filter_simps)
next
  case (Cons op ops)
  then obtain out s1 outs1 where step: "session_step (watch_ops wv debug_len) op s = Some (out, s1)"
    and rest: "run_steps (session_step (watch_ops wv debug_len)) ops s1 = Some (outs1, s')"
    and outs: "outs = out # outs1"
    by (auto split: bind_splits)
  note IH = Cons.IH [OF rest]
  from step show ?case
  proof (cases rule: watch_step_log)
    case same
    with IH show ?thesis by (simp add: outs map_filter_simps)
  next
    case (poll e es)
    with IH show ?thesis by (simp add: outs map_filter_simps)
  next
    case (invoke req r)
    then obtain kind where kind: "authorized debug_len (standard_effect_descriptor ''watch-command'') req"
        "watch_command_valid wv kind (rq_payload req)"
        "s1 = s\<lparr>ws_sent := ws_sent s @ [watch_packet_new (ws_route s) kind (rq_payload req)]\<rparr>"
      using watch_invoke_Ok [OF assms, of debug_len req s r s1] by blast
    with IH invoke(1,2) show ?thesis
      by (auto simp: outs map_filter_simps watch_packet_new_def)
  qed
qed

subsection \<open>Properties\<close>

text \<open>
  C25. A command is accepted exactly when it is valid: of the watch command kind, with a known
  command symbol, exactly the fields of that command and nothing else in the map, each of its
  type, integers below \<open>2 ^ 63\<close>, a haptic pattern with at least one complete step and a positive
  repeat. The packet then has the route asked for, the command of the symbol and the whole command as
  payload.
\<close>
theorem watch_command_exact:
  assumes "wire_laws wv"
  shows "encode_watch_command wv route e = Ok packet \<longleftrightarrow>
    watch_command_valid wv (wp_command packet) e \<and> wp_route packet = route \<and> wp_payload packet = e"
  unfolding encode_watch_command_Ok [OF assms] by (auto simp: watch_packet_new_def)

text \<open>
  C8. Routes fail closed. A session opens exactly when its route has a source of events and, for a
  hardware route, the ledger holds a verified proof of that very route; it then holds the events of
  the source in order, and nothing sent. Verifying a proof enables the routes that need it and no
  other, so the Wi-Fi proof enables nothing, and under the ledger a provider starts with only imports open.
\<close>
theorem watch_open_guarded:
  "(watch_open_session wv p = Ok s \<longleftrightarrow>
      (\<forall>b. required_proof (wp_source p) = Some b \<longrightarrow> rp_verified (ledger_entry (wp_bringup p) b)) \<and>
      (\<exists>kind events. route_source wv (wp_source p) = Some (kind, events) \<and>
         s = watch_session_new wv kind events (wp_profile p))) \<and>
   (route_enable route (ledger_verify b note_text l) = Ok () \<longleftrightarrow>
      route_enable route l = Ok () \<or> required_proof route = Some b) \<and>
   required_proof route \<noteq> Some BringWifiLan \<and>
   (watch_open_session wv (watch_provider_new route) = Ok s \<longrightarrow> (\<exists>source. route = WatchImport source))"
proof -
  have "watch_open_session wv p = Ok s \<longleftrightarrow>
      (\<forall>b. required_proof (wp_source p) = Some b \<longrightarrow> rp_verified (ledger_entry (wp_bringup p) b)) \<and>
      (\<exists>kind events. route_source wv (wp_source p) = Some (kind, events) \<and>
         s = watch_session_new wv kind events (wp_profile p))"
    by (simp add: watch_open_session_Ok proven_def split: option.splits)
  moreover have "route_enable route (ledger_verify b note_text l) = Ok () \<longleftrightarrow>
      route_enable route l = Ok () \<or> required_proof route = Some b"
    by (auto simp: route_enable_Ok proven_def ledger_verify_def verified_def split: option.splits)
  moreover have "required_proof route \<noteq> Some BringWifiLan"
    by (simp add: required_proof_def split: watch_route.splits)
  moreover have "\<exists>source. route = WatchImport source" if "watch_open_session wv (watch_provider_new route) = Ok s"
    using that
    by (cases route) (auto simp: watch_open_session_Ok watch_provider_new_def proven_def required_proof_def
        ledger_entry_def ledger_default_def unverified_def route_source_def)
  ultimately show ?thesis
    by blast
qed

definition demo_watch :: watch_provider where
  "demo_watch = watch_provider_new (WatchImport (import_source_new Gpx ''<trkpt''))"

definition demo_privacy :: expr where
  "demo_privacy = vb_map demo_wire
     [(''kind'', ESymbol (symbol_qualified ''view-wrist'' ''command'')),
      (''command'', ESymbol (symbol_qualified ''watch/command'' ''privacy-mode'')),
      (''enabled'', EBool True), (''window-ms'', wo_uint demo_wire 60000)]"

definition demo_watch_request :: effect_request where
  "demo_watch_request = \<lparr>rq_descriptor = symbol_qualified ''device/effect'' ''watch-command'',
     rq_payload = demo_privacy, rq_arm = Some ''armed'', rq_idempotence_key = Some ''test'',
     rq_grants = [''device.effect.watch-command''], rq_armed_at_ms = 1, rq_invoked_at_ms = 2\<rparr>"

lemma demo_privacy_valid: "watch_command_valid demo_wire PrivacyMode demo_privacy"
proof -
  have "only_fields demo_privacy (''kind'' # ''command'' # command_fields PrivacyMode)"
    by (simp add: demo_privacy_def only_fields_def demo_wire_def key_name_def)
  moreover have "valid_arguments demo_wire demo_privacy PrivacyMode"
    by (auto simp: demo_privacy_def wire_access(1) [OF demo_wire_laws] u64_field_def
        u64_value_uint [OF demo_wire_laws])
  moreover have "va_field demo_wire demo_privacy ''kind'' = Some (ESymbol (symbol_qualified ''view-wrist'' ''command''))"
    "va_field demo_wire demo_privacy ''command'' = Some (ESymbol (symbol_qualified ''watch/command'' ''privacy-mode''))"
    by (simp_all add: demo_privacy_def wire_access(1) [OF demo_wire_laws])
  ultimately show ?thesis
    by (simp add: watch_command_valid_def)
qed

lemma demo_watch_authorized:
  "authorized (\<lambda>_. 0) (standard_effect_descriptor ''watch-command'') demo_watch_request"
  by (simp add: authorized_def complete_descriptor_def standard_effect_descriptor_def demo_watch_request_def
      from_millis_def from_secs_def word_gt_0)

theorem watch_command_exact_witness:
  "encode_watch_command demo_wire RelayRoute demo_privacy =
     Ok \<lparr>wp_route = RelayRoute, wp_command = PrivacyMode, wp_payload = demo_privacy\<rparr>"
  using demo_privacy_valid by (simp add: watch_command_exact [OF demo_wire_laws])

definition demo_ble :: "bringup_ledger \<Rightarrow> watch_provider" where
  "demo_ble l = with_bringup_ledger l (watch_provider_new (WatchBle (watch_ble_new ''hci0'' ''AA'')))"

theorem watch_open_guarded_witness:
  "watch_open_session demo_wire (demo_ble (ledger_verify BringBle ''log'' ledger_default))
     = Ok (watch_session_new demo_wire BleRoute [] watch_device_profile) \<and>
   (\<forall>s. watch_open_session demo_wire (demo_ble (ledger_verify BringWifiLan ''log'' ledger_default)) \<noteq> Ok s)"
proof -
  have parts [simp]: "wp_source (demo_ble l) = WatchBle (watch_ble_new ''hci0'' ''AA'')"
      "wp_profile (demo_ble l) = watch_device_profile" "wp_bringup (demo_ble l) = l"
      "required_proof (WatchBle link) = Some BringBle" "route_source wv (WatchBle link) = Some (BleRoute, bl_events link)"
      for l link wv
    by (simp_all add: demo_ble_def with_bringup_ledger_def watch_provider_new_def required_proof_def route_source_def)
  note guarded = watch_open_guarded [where wv = demo_wire, THEN conjunct1]
  show ?thesis
    unfolding guarded by (simp add: ledger_verify_def verified_def unverified_def watch_ble_new_def)
qed



text \<open>
  The standard descriptors ask for an idempotence key, but this session never looks at it: a
  request repeated with its key is sent again, with the next receipt, as in the run above.
\<close>

lemma watch_key_not_deduplicated:
  assumes "wire_laws wv" and "watch_invoke wv debug_len req s = (Ok r, s')"
  shows "\<exists>s''. watch_invoke wv debug_len req s' =
      (Ok (session_receipt (standard_effect_descriptor ''watch-command'') (Suc (Suc (length (ws_sent s))))), s'') \<and>
    ws_sent s'' = ws_sent s' @ [last (ws_sent s')]"
  using assms(2) unfolding watch_invoke_Ok [OF assms(1)] by auto

end
