(* ===== verification/Viture.thy ===== *)
theory Viture
  imports WatchSession Cameras
begin

section \<open>The VITURE provider\<close>

text \<open>
  \<open>src/device_control.rs\<close>, \<open>src/provider.rs\<close> and \<open>src/vio.rs\<close> of \<open>crates/sim-lib-stream-viture\<close>: the
  validation of control commands, the provider over its routes and the session that polls poses
  and forwards commands to the physical device. The device (\<open>sim_viture_ffi\<close>) and the sample records
  (\<open>sim_lib_stream_xr\<close>) are external: a device is an abstract state that the functions of \<open>viture_ops\<close>
  change. Floating-point values are passed on and never computed with.
\<close>

subsection \<open>Commands (\<open>src/device_control.rs\<close>)\<close>

datatype viture_command_kind = ImuReportsKind | ImuRateKind | Display3dKind | BrightnessKind | PrivacyFilmKind

primrec viture_command_token :: "viture_command_kind \<Rightarrow> string" where
  "viture_command_token ImuReportsKind = ''imu-reports''"
| "viture_command_token ImuRateKind = ''imu-rate''"
| "viture_command_token Display3dKind = ''display-3d''"
| "viture_command_token BrightnessKind = ''brightness''"
| "viture_command_token PrivacyFilmKind = ''privacy-film''"

definition viture_from_symbol :: "symbol \<Rightarrow> viture_command_kind device_result" where
  "viture_from_symbol s =
     (if sym_namespace s \<noteq> Some ''viture/command''
      then Err (Host [Lit ''VITURE command symbol must be in '', Lit ''viture/command''])
      else if sym_name s = ''imu-reports'' then Ok ImuReportsKind
      else if sym_name s = ''imu-rate'' then Ok ImuRateKind
      else if sym_name s = ''display-3d'' then Ok Display3dKind
      else if sym_name s = ''brightness'' then Ok BrightnessKind
      else if sym_name s = ''privacy-film'' then Ok PrivacyFilmKind
      else Err (Host [Lit ''unknown VITURE command '', Show_str (sym_name s)]))"

text \<open>The rate is a value of the external type \<open>LegacyImuRate\<close>.\<close>

datatype 'r viture_packet =
    ImuReports bool
  | ImuRate 'r
  | Display3d bool
  | Brightness u8
  | PrivacyFilm u8

definition viture_packet_kind :: "'r viture_packet \<Rightarrow> viture_command_kind" where
  "viture_packet_kind p = (case p of
       ImuReports _ \<Rightarrow> ImuReportsKind
     | ImuRate _ \<Rightarrow> ImuRateKind
     | Display3d _ \<Rightarrow> Display3dKind
     | Brightness _ \<Rightarrow> BrightnessKind
     | PrivacyFilm _ \<Rightarrow> PrivacyFilmKind)"

definition viture_command_symbol :: "viture_command_kind \<Rightarrow> symbol" where
  "viture_command_symbol k = symbol_qualified ''viture/command'' (viture_command_token k)"

text \<open>\<open>LegacyImuRate::new\<close> and \<open>hz\<close>.\<close>

record 'r rate_ops =
  ro_new :: "u32 \<Rightarrow> 'r option"
  ro_hz :: "'r \<Rightarrow> u32"

definition viture_packet_expr :: "wire_ops \<Rightarrow> 'r rate_ops \<Rightarrow> 'r viture_packet \<Rightarrow> expr" where
  "viture_packet_expr wv ro p = vb_map wv
     ([(''kind'', vb_qsym wv ''stream/viture'' ''control-packet''),
       (''command'', ESymbol (viture_command_symbol (viture_packet_kind p)))] @
      (case p of
         ImuReports enabled \<Rightarrow> [(''enabled'', EBool enabled)]
       | Display3d enabled \<Rightarrow> [(''enabled'', EBool enabled)]
       | ImuRate rate \<Rightarrow> [(''hz'', wo_uint wv (ucast (ro_hz ro rate)))]
       | Brightness level \<Rightarrow> [(''level'', wo_uint wv (ucast level))]
       | PrivacyFilm level \<Rightarrow> [(''level'', wo_uint wv (ucast level))]))"

definition viture_required_u64 :: "wire_ops \<Rightarrow> expr \<Rightarrow> string \<Rightarrow> string \<Rightarrow> u64 device_result" where
  "viture_required_u64 wv e name ctxt = required_u64 wv Host e name ctxt"

definition required_percent :: "wire_ops \<Rightarrow> expr \<Rightarrow> string \<Rightarrow> string \<Rightarrow> u8 device_result" where
  "required_percent wv e name ctxt =
     and_then (viture_required_u64 wv e name ctxt) (\<lambda>val.
     if unat val < 2 ^ 8 \<and> (ucast val :: u8) \<le> 100 then Ok (ucast val)
     else Err (Host [Show_str ctxt, Lit '' field '', Show_str name, Lit '' must be 0 through 100'']))"

definition required_u32 :: "wire_ops \<Rightarrow> expr \<Rightarrow> string \<Rightarrow> string \<Rightarrow> u32 device_result" where
  "required_u32 wv e name ctxt =
     and_then (viture_required_u64 wv e name ctxt) (\<lambda>val.
     if unat val < 2 ^ 32 then Ok (ucast val)
     else Err (Host [Show_str ctxt, Lit '' field '', Show_str name, Lit '' is not u32'']))"

text \<open>The checks of a command, this file's own copies of the ones of the watch crate.\<close>

definition viture_map_host_error :: "wire_ops \<Rightarrow> 'a result \<Rightarrow> 'a device_result" where
  "viture_map_host_error wv r = map_err (\<lambda>e. Host (wo_display wv e)) r"

definition viture_ensure_kind ::
  "wire_ops \<Rightarrow> expr \<Rightarrow> string \<Rightarrow> string \<Rightarrow> string \<Rightarrow> unit device_result" where
  "viture_ensure_kind wv e ns name ctxt =
     (case va_field_sym wv e ''kind'' of
        Some kind \<Rightarrow>
          if sym_namespace kind = Some ns \<and> sym_name kind = name then Ok ()
          else Err (Host [Lit ''expected '', Show_str ns, Lit ''/'', Show_str name, Lit '' '', Show_str ctxt])
      | None \<Rightarrow> Err (Host [Lit ''expected '', Show_str ns, Lit ''/'', Show_str name, Lit '' '', Show_str ctxt]))"

definition viture_ensure_no_extra :: "expr \<Rightarrow> string list \<Rightarrow> string \<Rightarrow> unit device_result" where
  "viture_ensure_no_extra e known ctxt =
     (case e of EMap entries \<Rightarrow> check_keys known ctxt entries
      | _ \<Rightarrow> Err (Host [Show_str ctxt, Lit '' is not a map'']))"

definition viture_ensure_command_fields :: "expr \<Rightarrow> string list \<Rightarrow> unit device_result" where
  "viture_ensure_command_fields cmd variant_fields =
     viture_ensure_no_extra cmd ([''kind'', ''command''] @ variant_fields) ''VITURE command''"

lemma viture_checks:
  "viture_map_host_error = map_host_error" "viture_ensure_kind = ensure_kind"
  "viture_ensure_command_fields = (\<lambda>cmd fields. ensure_command_fields cmd fields ''VITURE command'')"
  by (simp_all add: fun_eq_iff viture_map_host_error_def map_host_error_def viture_ensure_kind_def ensure_kind_def
      viture_ensure_command_fields_def ensure_command_fields_def viture_ensure_no_extra_def ensure_no_extra_def)

definition encode_viture_command :: "wire_ops \<Rightarrow> 'r rate_ops \<Rightarrow> expr \<Rightarrow> 'r viture_packet device_result" where
  "encode_viture_command wv ro cmd =
     and_then (viture_ensure_kind wv cmd ''view-viture'' ''command'' ''VITURE command'') (\<lambda>_.
     and_then (viture_map_host_error wv (wo_required_sym wv cmd ''command'' ''VITURE command'')) (\<lambda>s.
     and_then (viture_from_symbol s) (\<lambda>kind.
     case kind of
       ImuReportsKind \<Rightarrow>
         and_then (viture_ensure_command_fields cmd [''enabled'']) (\<lambda>_.
         and_then (viture_map_host_error wv (wo_required_bool wv cmd ''enabled'' ''VITURE IMU command'')) (\<lambda>enabled.
         Ok (ImuReports enabled)))
     | ImuRateKind \<Rightarrow>
         and_then (viture_ensure_command_fields cmd [''hz'']) (\<lambda>_.
         and_then (required_u32 wv cmd ''hz'' ''VITURE IMU rate command'') (\<lambda>hz.
         case ro_new ro hz of
           Some rate \<Rightarrow> Ok (ImuRate rate)
         | None \<Rightarrow> Err (Host [Lit ''VITURE IMU rate command hz must be greater than zero''])))
     | Display3dKind \<Rightarrow>
         and_then (viture_ensure_command_fields cmd [''enabled'']) (\<lambda>_.
         and_then (viture_map_host_error wv (wo_required_bool wv cmd ''enabled'' ''VITURE 3D command'')) (\<lambda>enabled.
         Ok (Display3d enabled)))
     | BrightnessKind \<Rightarrow>
         and_then (viture_ensure_command_fields cmd [''level'']) (\<lambda>_.
         and_then (required_percent wv cmd ''level'' ''VITURE brightness command'') (\<lambda>level.
         Ok (Brightness level)))
     | PrivacyFilmKind \<Rightarrow>
         and_then (viture_ensure_command_fields cmd [''level'']) (\<lambda>_.
         and_then (required_percent wv cmd ''level'' ''VITURE privacy-film command'') (\<lambda>level.
         Ok (PrivacyFilm level))))))"

subsection \<open>Tracking (\<open>src/vio.rs\<close>)\<close>

datatype tracking_status = Tracked | Limited | Lost

text \<open>\<open>VitureStatus\<close> is read through its code.\<close>

definition viture_tracking_status :: "int \<Rightarrow> tracking_status" where
  "viture_tracking_status code = (if code = 0 then Tracked else Lost)"

subsection \<open>The physical device\<close>

datatype viture_error = VitureUnsupported | VitureOther message

type_synonym 'a viture_result = "viture_error + 'a"

type_synonym 'f triple = "'f \<times> 'f \<times> 'f"

type_synonym 'f quad = "'f \<times> 'f \<times> 'f \<times> 'f"

datatype 'f physical_sample = PoseSample "'f triple" "'f quad" bool | OtherPhysicalSample

datatype 'r physical_command = SendImuReports bool | SendImuRate 'r | SendDisplay3d bool

record ('port, 'd, 'f, 'r) viture_ops =
  vo_connect :: "'port \<Rightarrow> 'd viture_result"
  vo_start :: "'d \<Rightarrow> unit viture_result \<times> 'd"
  vo_poll :: "'d \<Rightarrow> 'f physical_sample option viture_result \<times> 'd"
  vo_send :: "'r physical_command \<Rightarrow> 'd \<Rightarrow> unit viture_result \<times> 'd"
  vo_close :: "'d \<Rightarrow> unit viture_result \<times> 'd"

text \<open>\<open>XrPoseSample::new\<close>, and \<open>to_expr\<close> of a pose sample and of a camera reference.\<close>

record ('f, 'q, 'c) pose_ops =
  po_new :: "u64 \<Rightarrow> 'f triple option \<Rightarrow> 'f quad \<Rightarrow> u64 \<Rightarrow> u64 \<Rightarrow> u8 \<Rightarrow> tracking_status \<Rightarrow> 'q sample_result"
  po_expr :: "'q \<Rightarrow> expr"
  po_camera_expr :: "'c \<Rightarrow> expr"

definition map_viture_error :: "viture_error \<Rightarrow> device_error" where
  "map_viture_error e = (case e of VitureUnsupported \<Rightarrow> Unsupported | VitureOther m \<Rightarrow> Host m)"

subsection \<open>Provider (\<open>src/provider.rs\<close>)\<close>

definition viture_pose_kind :: string where
  "viture_pose_kind = ''xr/pose''"

definition viture_camera_kind :: string where
  "viture_camera_kind = ''xr/camera-frame''"

definition pose_step_ns :: u64 where
  "pose_step_ns = 16666667"

definition sample_time_ns :: "u64 \<Rightarrow> u64" where
  "sample_time_ns seq = sat_mul seq pose_step_ns"

datatype viture_route_kind = CarinaRoute | LegacyImuRoute | ScriptedRoute | VitureStubRoute

primrec viture_route_token :: "viture_route_kind \<Rightarrow> string" where
  "viture_route_token CarinaRoute = ''carina''"
| "viture_route_token LegacyImuRoute = ''legacy-imu''"
| "viture_route_token ScriptedRoute = ''scripted''"
| "viture_route_token VitureStubRoute = ''stub''"

datatype ('port, 'f, 'q, 'c) viture_route =
    VitureCarina 'port
  | VitureLegacy 'port "'f quad"
  | VitureScripted "'q list" "'c list"
  | VitureStub

text \<open>The profile; the two sample kinds of the external crate are its arguments.\<close>

definition viture_device_profile :: "symbol \<Rightarrow> symbol \<Rightarrow> device_profile" where
  "viture_device_profile pose camera = \<lparr>
     dp_device = symbol_qualified ''device'' ''viture-glasses'',
     dp_streams = map (symbol_qualified ''device/stream'') [''xr-pose'', ''xr-imu'', ''xr-camera'', ''display-control''],
     dp_inputs = map (symbol_qualified ''device/input'') [''head-pose'', ''imu'', ''camera''],
     dp_outputs = map (symbol_qualified ''glasses/output'') [''display-3d'', ''brightness'', ''privacy-film''],
     dp_sample_kinds = [pose, camera]\<rparr>"

record ('port, 'f, 'q, 'c) viture_provider =
  vp_route :: "('port, 'f, 'q, 'c) viture_route"
  vp_profile :: device_profile

definition viture_provider_new ::
  "device_profile \<Rightarrow> ('port, 'f, 'q, 'c) viture_route \<Rightarrow> ('port, 'f, 'q, 'c) viture_provider" where
  "viture_provider_new profile route = \<lparr>vp_route = route, vp_profile = profile\<rparr>"

text \<open>
  The constructors per route. The ports (\<open>ViturePhysicalPort::new\<close>, \<open>legacy\<close>), the search for the
  library and the unsupported library are external and arguments, and so are the floats \<open>1.0\<close> and
  \<open>0.0\<close> of the default orientation and the profile.
\<close>

definition default_legacy_rate :: u32 where
  "default_legacy_rate = 120"

definition viture_carina ::
  "('lib \<Rightarrow> u64 \<Rightarrow> 'port) \<Rightarrow> device_profile \<Rightarrow> 'lib \<Rightarrow> u64 \<Rightarrow> ('port, 'f, 'q, 'c) viture_provider" where
  "viture_carina port_new profile lib predict_ns = viture_provider_new profile (VitureCarina (port_new lib predict_ns))"

definition viture_discover_carina ::
  "('lib \<Rightarrow> u64 \<Rightarrow> 'port) \<Rightarrow> ('sdk \<Rightarrow> 'lib viture_result) \<Rightarrow> device_profile \<Rightarrow> 'sdk \<Rightarrow> u64 \<Rightarrow>
   ('port, 'f, 'q, 'c) viture_provider device_result" where
  "viture_discover_carina port_new discover profile discovery predict_ns =
     and_then (map_err map_viture_error (discover discovery)) (\<lambda>lib.
     Ok (viture_carina port_new profile lib predict_ns))"

definition viture_legacy_with_orientation ::
  "('lib \<Rightarrow> 'r \<Rightarrow> 'port) \<Rightarrow> device_profile \<Rightarrow> 'lib \<Rightarrow> 'r \<Rightarrow> 'f quad \<Rightarrow> ('port, 'f, 'q, 'c) viture_provider" where
  "viture_legacy_with_orientation port_legacy profile lib rate orientation =
     viture_provider_new profile (VitureLegacy (port_legacy lib rate) orientation)"

definition viture_legacy_imu ::
  "'f \<Rightarrow> 'f \<Rightarrow> ('lib \<Rightarrow> 'r \<Rightarrow> 'port) \<Rightarrow> device_profile \<Rightarrow> 'lib \<Rightarrow> 'r \<Rightarrow> ('port, 'f, 'q, 'c) viture_provider" where
  "viture_legacy_imu one zero port_legacy profile lib rate =
     viture_legacy_with_orientation port_legacy profile lib rate (one, zero, zero, zero)"

definition viture_scripted_with ::
  "device_profile \<Rightarrow> 'q list \<Rightarrow> 'c list \<Rightarrow> ('port, 'f, 'q, 'c) viture_provider" where
  "viture_scripted_with profile samples frames = viture_provider_new profile (VitureScripted samples frames)"

definition viture_scripted :: "device_profile \<Rightarrow> 'q list \<Rightarrow> ('port, 'f, 'q, 'c) viture_provider" where
  "viture_scripted profile samples = viture_scripted_with profile samples []"

definition viture_stub :: "device_profile \<Rightarrow> ('port, 'f, 'q, 'c) viture_provider" where
  "viture_stub profile = viture_provider_new profile VitureStub"

definition viture_unsupported_sdk ::
  "('lib \<Rightarrow> u64 \<Rightarrow> 'port) \<Rightarrow> 'lib \<Rightarrow> device_profile \<Rightarrow> u64 \<Rightarrow> ('port, 'f, 'q, 'c) viture_provider" where
  "viture_unsupported_sdk port_new unsupported_lib profile predict_ns =
     viture_carina port_new profile unsupported_lib predict_ns"

datatype ('d, 'f, 'q, 'c) viture_state =
    CarinaState 'd u64
  | LegacyState 'd "'f quad" u64
  | ScriptedState "'q list" "'c list"

record ('d, 'f, 'q, 'c, 'r) viture_session =
  vs_profile :: device_profile
  vs_state :: "('d, 'f, 'q, 'c) viture_state"
  vs_sent :: "'r viture_packet list"
  vs_started :: bool

definition viture_session_new ::
  "device_profile \<Rightarrow> ('d, 'f, 'q, 'c) viture_state \<Rightarrow> ('d, 'f, 'q, 'c, 'r) viture_session" where
  "viture_session_new profile st = \<lparr>vs_profile = profile, vs_state = st, vs_sent = [], vs_started = False\<rparr>"

definition legacy_session ::
  "('f, 'q, 'c) pose_ops \<Rightarrow> 'd \<Rightarrow> 'f quad \<Rightarrow> device_profile \<Rightarrow> ('d, 'f, 'q, 'c, 'r) viture_session device_result" where
  "legacy_session po d orientation profile =
     and_then (map_err Sample (po_new po 0 None orientation 0 0 3 Limited)) (\<lambda>_.
     Ok (viture_session_new profile (LegacyState d orientation 0)))"

definition viture_open_session ::
  "('port, 'd, 'f, 'r) viture_ops \<Rightarrow> ('f, 'q, 'c) pose_ops \<Rightarrow> ('port, 'f, 'q, 'c) viture_provider \<Rightarrow>
   ('d, 'f, 'q, 'c, 'r) viture_session device_result" where
  "viture_open_session vo po p =
     (case vp_route p of
        VitureStub \<Rightarrow> Err Unsupported
      | VitureCarina port \<Rightarrow>
          and_then (map_err map_viture_error (vo_connect vo port)) (\<lambda>d.
          Ok (viture_session_new (vp_profile p) (CarinaState d 0)))
      | VitureLegacy port orientation \<Rightarrow>
          and_then (map_err map_viture_error (vo_connect vo port)) (\<lambda>d.
          legacy_session po d orientation (vp_profile p))
      | VitureScripted samples frames \<Rightarrow> Ok (viture_session_new (vp_profile p) (ScriptedState samples frames)))"

definition viture_open ::
  "('port, 'd, 'f, 'r) viture_ops \<Rightarrow> ('f, 'q, 'c) pose_ops \<Rightarrow> ('port, 'f, 'q, 'c) viture_provider \<Rightarrow>
   ('o, ('d, 'f, 'q, 'c, 'r) viture_session) opened_session device_result" where
  "viture_open vo po p = and_then (viture_open_session vo po p) (\<lambda>s. Ok (Effect s))"

definition viture_session_kind :: "('d, 'f, 'q, 'c, 'r) viture_session \<Rightarrow> viture_route_kind" where
  "viture_session_kind s = (case vs_state s of
       CarinaState _ _ \<Rightarrow> CarinaRoute
     | LegacyState _ _ _ \<Rightarrow> LegacyImuRoute
     | ScriptedState _ _ \<Rightarrow> ScriptedRoute)"

subsection \<open>Session\<close>

text \<open>A call on the device of a hardware route; on the scripted route nothing happens.\<close>

definition on_device ::
  "('d \<Rightarrow> unit viture_result \<times> 'd) \<Rightarrow> ('d, 'f, 'q, 'c) viture_state \<Rightarrow>
   unit device_result \<times> ('d, 'f, 'q, 'c) viture_state" where
  "on_device f st = (case st of
       CarinaState d seq \<Rightarrow> (case f d of (r, d') \<Rightarrow> (map_err map_viture_error r, CarinaState d' seq))
     | LegacyState d orientation seq \<Rightarrow>
         (case f d of (r, d') \<Rightarrow> (map_err map_viture_error r, LegacyState d' orientation seq))
     | ScriptedState _ _ \<Rightarrow> (Ok (), st))"

definition viture_start ::
  "('port, 'd, 'f, 'r) viture_ops \<Rightarrow> ('d, 'f, 'q, 'c, 'r) viture_session \<Rightarrow>
   unit device_result \<times> ('d, 'f, 'q, 'c, 'r) viture_session" where
  "viture_start vo s =
     (case on_device (vo_start vo) (vs_state s) of
        (Inl e, st) \<Rightarrow> (Err e, s\<lparr>vs_state := st\<rparr>)
      | (Inr _, st) \<Rightarrow> (Ok (), s\<lparr>vs_state := st, vs_started := True\<rparr>))"

definition viture_stop ::
  "('port, 'd, 'f, 'r) viture_ops \<Rightarrow> ('d, 'f, 'q, 'c, 'r) viture_session \<Rightarrow>
   unit device_result \<times> ('d, 'f, 'q, 'c, 'r) viture_session" where
  "viture_stop vo s =
     (case on_device (vo_close vo) (vs_state s) of
        (Inl e, st) \<Rightarrow> (Err e, s\<lparr>vs_state := st\<rparr>)
      | (Inr _, st) \<Rightarrow> (Ok (), s\<lparr>vs_state := st, vs_started := False\<rparr>))"

definition carina_pose_sample ::
  "('f, 'q, 'c) pose_ops \<Rightarrow> u64 \<Rightarrow> u64 \<Rightarrow> 'f triple \<Rightarrow> 'f quad \<Rightarrow> tracking_status \<Rightarrow> 'q device_result" where
  "carina_pose_sample po seq predict_ns position orientation status =
     map_err Sample (po_new po seq (Some position) orientation (sample_time_ns seq) predict_ns 6 status)"

text \<open>\<open>poll\<close> for one of the two kinds a session knows, per route.\<close>

definition poll_state ::
  "('port, 'd, 'f, 'r) viture_ops \<Rightarrow> ('f, 'q, 'c) pose_ops \<Rightarrow> string \<Rightarrow> ('d, 'f, 'q, 'c) viture_state \<Rightarrow>
   expr option device_result \<times> ('d, 'f, 'q, 'c) viture_state" where
  "poll_state vo po kind st = (case st of
       CarinaState d seq \<Rightarrow>
         if kind = viture_camera_kind then (Ok None, st)
         else (case vo_poll vo d of
             (Inl e, d') \<Rightarrow> (Err (map_viture_error e), CarinaState d' seq)
           | (Inr (Some (PoseSample position orientation tracked)), d') \<Rightarrow>
               (case carina_pose_sample po seq 0 position orientation (if tracked then Tracked else Lost) of
                  Inl e \<Rightarrow> (Err e, CarinaState d' seq)
                | Inr q \<Rightarrow> (Ok (Some (po_expr po q)), CarinaState d' (sat_add seq 1)))
           | (Inr _, d') \<Rightarrow> (Ok None, CarinaState d' seq))
     | LegacyState d orientation seq \<Rightarrow>
         if kind = viture_camera_kind then (Ok None, st)
         else (case map_err Sample (po_new po seq None orientation (sample_time_ns seq) 0 3 Limited) of
             Inl e \<Rightarrow> (Err e, st)
           | Inr q \<Rightarrow> (Ok (Some (po_expr po q)), LegacyState d orientation (sat_add seq 1)))
     | ScriptedState samples frames \<Rightarrow>
         if kind = viture_camera_kind
         then (case frames of
             [] \<Rightarrow> (Ok None, st)
           | c # cs \<Rightarrow> (Ok (Some (po_camera_expr po c)), ScriptedState samples cs))
         else (case samples of
             [] \<Rightarrow> (Ok None, st)
           | q # qs \<Rightarrow> (Ok (Some (po_expr po q)), ScriptedState qs frames)))"

definition viture_poll ::
  "('port, 'd, 'f, 'r) viture_ops \<Rightarrow> ('f, 'q, 'c) pose_ops \<Rightarrow> string \<Rightarrow> ('d, 'f, 'q, 'c, 'r) viture_session \<Rightarrow>
   expr option device_result \<times> ('d, 'f, 'q, 'c, 'r) viture_session" where
  "viture_poll vo po kind s =
     (if kind \<noteq> viture_pose_kind \<and> kind \<noteq> viture_camera_kind then (Ok None, s)
      else (case poll_state vo po kind (vs_state s) of (r, st) \<Rightarrow> (r, s\<lparr>vs_state := st\<rparr>)))"

definition apply_control_packet ::
  "('port, 'd, 'f, 'r) viture_ops \<Rightarrow> 'r viture_packet \<Rightarrow> ('d, 'f, 'q, 'c) viture_state \<Rightarrow>
   unit device_result \<times> ('d, 'f, 'q, 'c) viture_state" where
  "apply_control_packet vo packet st = (case packet of
       ImuReports enabled \<Rightarrow> on_device (vo_send vo (SendImuReports enabled)) st
     | ImuRate rate \<Rightarrow> on_device (vo_send vo (SendImuRate rate)) st
     | Display3d enabled \<Rightarrow> on_device (vo_send vo (SendDisplay3d enabled)) st
     | Brightness _ \<Rightarrow> (Ok (), st)
     | PrivacyFilm _ \<Rightarrow> (Ok (), st))"

definition viture_invoke ::
  "wire_ops \<Rightarrow> 'r rate_ops \<Rightarrow> ('port, 'd, 'f, 'r) viture_ops \<Rightarrow> (expr \<Rightarrow> usize) \<Rightarrow> effect_request \<Rightarrow>
   ('d, 'f, 'q, 'c, 'r) viture_session \<Rightarrow>
   effect_receipt device_result \<times> ('d, 'f, 'q, 'c, 'r) viture_session" where
  "viture_invoke wv ro vo debug_len req s =
     (let d = standard_effect_descriptor ''viture-control''
      in case and_then (authorize debug_len d req) (\<lambda>_. encode_viture_command wv ro (rq_payload req)) of
        Inl e \<Rightarrow> (Err e, s)
      | Inr packet \<Rightarrow>
          (case apply_control_packet vo packet (vs_state s) of
             (Inl e, st) \<Rightarrow> (Err e, s\<lparr>vs_state := st\<rparr>)
           | (Inr _, st) \<Rightarrow>
               (let s' = s\<lparr>vs_state := st, vs_sent := vs_sent s @ [packet]\<rparr>
                in (Ok \<lparr>rc_kind = ed_receipt d, rc_descriptor = ed_id d, rc_sequence = vec_len (vs_sent s')\<rparr>, s'))))"

definition viture_session_ops ::
  "wire_ops \<Rightarrow> 'r rate_ops \<Rightarrow> ('port, 'd, 'f, 'r) viture_ops \<Rightarrow> ('f, 'q, 'c) pose_ops \<Rightarrow> (expr \<Rightarrow> usize) \<Rightarrow>
   ('d, 'f, 'q, 'c, 'r) viture_session session_ops" where
  "viture_session_ops wv ro vo po debug_len = \<lparr>so_start = viture_start vo, so_poll = viture_poll vo po,
     so_stop = viture_stop vo, so_invoke = (\<lambda>req s. Some (viture_invoke wv ro vo debug_len req s))\<rparr>"

subsection \<open>Valid commands\<close>

primrec viture_field :: "viture_command_kind \<Rightarrow> string" where
  "viture_field ImuReportsKind = ''enabled''"
| "viture_field ImuRateKind = ''hz''"
| "viture_field Display3dKind = ''enabled''"
| "viture_field BrightnessKind = ''level''"
| "viture_field PrivacyFilmKind = ''level''"

primrec packet_argument :: "wire_ops \<Rightarrow> 'r rate_ops \<Rightarrow> expr \<Rightarrow> 'r viture_packet \<Rightarrow> bool" where
  "packet_argument wv ro e (ImuReports b) \<longleftrightarrow> va_field wv e ''enabled'' = Some (EBool b)"
| "packet_argument wv ro e (ImuRate rate) \<longleftrightarrow>
     (\<exists>n. u64_field wv e ''hz'' = Some n \<and> unat n < 2 ^ 32 \<and> ro_new ro (ucast n) = Some rate)"
| "packet_argument wv ro e (Display3d b) \<longleftrightarrow> va_field wv e ''enabled'' = Some (EBool b)"
| "packet_argument wv ro e (Brightness level) \<longleftrightarrow>
     (\<exists>n. u64_field wv e ''level'' = Some n \<and> unat n \<le> 100 \<and> unat level = unat n)"
| "packet_argument wv ro e (PrivacyFilm level) \<longleftrightarrow>
     (\<exists>n. u64_field wv e ''level'' = Some n \<and> unat n \<le> 100 \<and> unat level = unat n)"

definition viture_valid :: "wire_ops \<Rightarrow> 'r rate_ops \<Rightarrow> 'r viture_packet \<Rightarrow> expr \<Rightarrow> bool" where
  "viture_valid wv ro p e \<longleftrightarrow>
     va_field wv e ''kind'' = Some (ESymbol (symbol_qualified ''view-viture'' ''command'')) \<and>
     va_field wv e ''command'' = Some (ESymbol (viture_command_symbol (viture_packet_kind p))) \<and>
     only_fields e [''kind'', ''command'', viture_field (viture_packet_kind p)] \<and> packet_argument wv ro e p"

lemma viture_from_symbol_Ok: "viture_from_symbol s = Ok kind \<longleftrightarrow> s = viture_command_symbol kind"
  by (cases s; cases kind) (auto simp: viture_from_symbol_def viture_command_symbol_def symbol_qualified_def)

lemma percent_range:
  fixes v :: u64 and level :: u8
  shows "unat v < 2 ^ 8 \<and> (ucast v :: u8) \<le> 100 \<and> level = ucast v \<longleftrightarrow> unat v \<le> 100 \<and> unat level = unat v"
proof -
  have "unat (ucast v :: u8) = unat v" if "unat v < 2 ^ 8"
    using that by (simp add: unsigned_ucast_eq take_bit_nat_eq_self)
  then show ?thesis
    by (auto simp: word_le_nat_alt word_unat_eq_iff)
qed

lemma required_percent_Ok:
  assumes "wire_laws wv"
  shows "required_percent wv e name ctxt = Ok level \<longleftrightarrow>
    (\<exists>n. u64_field wv e name = Some n \<and> unat n \<le> 100 \<and> unat level = unat n)"
  unfolding required_percent_def and_then_eq_Ok viture_required_u64_def required_u64_Ok [OF assms] u64_field_def
    percent_range [symmetric]
  by (auto split: if_splits)

lemma required_u32_Ok:
  assumes "wire_laws wv"
  shows "required_u32 wv e name ctxt = Ok hz \<longleftrightarrow>
    (\<exists>n. u64_field wv e name = Some n \<and> unat n < 2 ^ 32 \<and> hz = ucast n)"
  unfolding required_u32_def and_then_eq_Ok viture_required_u64_def required_u64_Ok [OF assms] u64_field_def
  by (auto split: if_splits)

lemma encode_viture_Ok:
  assumes "wire_laws wv"
  shows "encode_viture_command wv ro e = Ok packet \<longleftrightarrow> viture_valid wv ro packet e"
proof -
  have rate: "(case ro_new ro hz of Some rate \<Rightarrow> Ok (ImuRate rate) | None \<Rightarrow> Err er) = Ok p \<longleftrightarrow>
      (\<exists>rate. ro_new ro hz = Some rate \<and> p = ImuRate rate)" for hz p and er :: device_error
    by (auto split: option.splits)
  have fields: "ensure_command_fields e [name] ctxt = Ok u \<longleftrightarrow> only_fields e [''kind'', ''command'', name]" for name ctxt u
    by (simp add: ensure_command_fields_def ensure_no_extra_Ok)
  have bool: "map_host_error wv (wo_required_bool wv e name ctxt) = Ok b \<longleftrightarrow> va_field wv e name = Some (EBool b)" for name ctxt b
    by (simp add: map_host_error_def wire_access(6) [OF assms])
  note reads = and_then_eq_Ok fields bool rate required_percent_Ok [OF assms] required_u32_Ok [OF assms]
  let ?args = "\<lambda>kind. case kind of
       ImuReportsKind \<Rightarrow>
         and_then (ensure_command_fields e [''enabled''] ''VITURE command'') (\<lambda>_.
         and_then (map_host_error wv (wo_required_bool wv e ''enabled'' ''VITURE IMU command'')) (\<lambda>enabled.
         Ok (ImuReports enabled)))
     | ImuRateKind \<Rightarrow>
         and_then (ensure_command_fields e [''hz''] ''VITURE command'') (\<lambda>_.
         and_then (required_u32 wv e ''hz'' ''VITURE IMU rate command'') (\<lambda>hz.
         case ro_new ro hz of
           Some rate \<Rightarrow> Ok (ImuRate rate)
         | None \<Rightarrow> Err (Host [Lit ''VITURE IMU rate command hz must be greater than zero''])))
     | Display3dKind \<Rightarrow>
         and_then (ensure_command_fields e [''enabled''] ''VITURE command'') (\<lambda>_.
         and_then (map_host_error wv (wo_required_bool wv e ''enabled'' ''VITURE 3D command'')) (\<lambda>enabled.
         Ok (Display3d enabled)))
     | BrightnessKind \<Rightarrow>
         and_then (ensure_command_fields e [''level''] ''VITURE command'') (\<lambda>_.
         and_then (required_percent wv e ''level'' ''VITURE brightness command'') (\<lambda>level.
         Ok (Brightness level)))
     | PrivacyFilmKind \<Rightarrow>
         and_then (ensure_command_fields e [''level''] ''VITURE command'') (\<lambda>_.
         and_then (required_percent wv e ''level'' ''VITURE privacy-film command'') (\<lambda>level.
         Ok (PrivacyFilm level)))"
  have "?args kind = Ok packet \<longleftrightarrow>
      kind = viture_packet_kind packet \<and> only_fields e [''kind'', ''command'', viture_field kind] \<and> packet_argument wv ro e packet"
    for kind
    by (cases kind; cases packet) (simp_all add: viture_packet_kind_def reads, blast)
  then show ?thesis
    unfolding encode_viture_command_def viture_checks and_then_eq_Ok ensure_kind_Ok [OF assms] map_host_error_def
      map_err_eq_Ok wire_access(4) [OF assms] viture_from_symbol_Ok viture_valid_def
    by auto
qed

subsection \<open>Delivery\<close>

text \<open>The command a packet stands for on the device, and the state after it was delivered.\<close>

primrec device_command :: "'r viture_packet \<Rightarrow> 'r physical_command option" where
  "device_command (ImuReports b) = Some (SendImuReports b)"
| "device_command (ImuRate rate) = Some (SendImuRate rate)"
| "device_command (Display3d b) = Some (SendDisplay3d b)"
| "device_command (Brightness level) = None"
| "device_command (PrivacyFilm level) = None"

definition delivered ::
  "('port, 'd, 'f, 'r) viture_ops \<Rightarrow> 'r viture_packet \<Rightarrow> ('d, 'f, 'q, 'c) viture_state \<Rightarrow>
   ('d, 'f, 'q, 'c) viture_state \<Rightarrow> bool" where
  "delivered vo p st st' \<longleftrightarrow> (case device_command p of
       None \<Rightarrow> st' = st
     | Some c \<Rightarrow> (case st of
           CarinaState d n \<Rightarrow> \<exists>d'. vo_send vo c d = (Ok (), d') \<and> st' = CarinaState d' n
         | LegacyState d orientation n \<Rightarrow> \<exists>d'. vo_send vo c d = (Ok (), d') \<and> st' = LegacyState d' orientation n
         | ScriptedState _ _ \<Rightarrow> st' = st))"

lemma on_device_Ok:
  "on_device f st = (Ok u, st') \<longleftrightarrow> (case st of
       CarinaState d n \<Rightarrow> \<exists>d'. f d = (Ok (), d') \<and> st' = CarinaState d' n
     | LegacyState d orientation n \<Rightarrow> \<exists>d'. f d = (Ok (), d') \<and> st' = LegacyState d' orientation n
     | ScriptedState _ _ \<Rightarrow> st' = st)"
  by (auto simp: on_device_def split: viture_state.splits prod.splits)

lemma apply_control_Ok: "apply_control_packet vo p st = (Ok u, st') \<longleftrightarrow> delivered vo p st st'"
  by (cases p) (auto simp: apply_control_packet_def delivered_def on_device_Ok)

lemma guarded_call_Ok:
  "(case x of
      Inl e \<Rightarrow> (Err e, s)
    | Inr y \<Rightarrow> (case g y of (Inl e, st) \<Rightarrow> (Err e, f st) | (Inr _, st) \<Rightarrow> (Ok r0, h y st))) = (Ok r, s')
   \<longleftrightarrow> (\<exists>y st u. x = Ok y \<and> g y = (Ok u, st) \<and> s' = h y st) \<and> r = r0"
  by (cases x) (auto split: prod.splits sum.splits)

lemma viture_invoke_Ok:
  assumes "wire_laws wv"
  shows "viture_invoke wv ro vo debug_len req s = (Ok r, s') \<longleftrightarrow>
    authorized debug_len (standard_effect_descriptor ''viture-control'') req \<and>
    r = session_receipt (standard_effect_descriptor ''viture-control'') (Suc (length (vs_sent s))) \<and>
    (\<exists>packet st. viture_valid wv ro packet (rq_payload req) \<and> delivered vo packet (vs_state s) st \<and>
       s' = s\<lparr>vs_state := st, vs_sent := vs_sent s @ [packet]\<rparr>)"
proof -
  have eq: "viture_invoke wv ro vo debug_len req s =
     (case and_then (authorize debug_len (standard_effect_descriptor ''viture-control'') req)
             (\<lambda>_. encode_viture_command wv ro (rq_payload req)) of
        Inl e \<Rightarrow> (Err e, s)
      | Inr packet \<Rightarrow> (case apply_control_packet vo packet (vs_state s) of
          (Inl e, st) \<Rightarrow> (Err e, s\<lparr>vs_state := st\<rparr>)
        | (Inr _, st) \<Rightarrow> (Ok (session_receipt (standard_effect_descriptor ''viture-control'') (Suc (length (vs_sent s)))),
            s\<lparr>vs_state := st, vs_sent := vs_sent s @ [packet]\<rparr>)))"
    by (simp add: viture_invoke_def Let_def session_receipt_def vec_len_def split: sum.split prod.split)
  show ?thesis
    unfolding eq guarded_call_Ok and_then_eq_Ok authorize_Ok encode_viture_Ok [OF assms] apply_control_Ok by blast
qed

lemma viture_invoke_sent:
  "viture_invoke wv ro vo debug_len req s = (Err e, s') \<Longrightarrow> vs_sent s' = vs_sent s"
  "viture_invoke wv ro vo debug_len req s = (Ok r, s') \<Longrightarrow>
     authorize debug_len (standard_effect_descriptor ''viture-control'') req = Ok () \<and>
     length (vs_sent s') = Suc (length (vs_sent s)) \<and>
     r = session_receipt (standard_effect_descriptor ''viture-control'') (length (vs_sent s'))"
  by (auto simp: viture_invoke_def Let_def and_then_def session_receipt_def vec_len_def split: sum.splits prod.splits)

interpretation viture_log: logged_session debug_len "viture_session_ops wv ro vo po debug_len"
    "standard_effect_descriptor ''viture-control''" "\<lambda>s. length (vs_sent s)" for wv ro vo po debug_len
proof
  fix req r s s'
  assume "so_invoke (viture_session_ops wv ro vo po debug_len) req s = Some (Ok r, s')"
  then show "authorize debug_len (standard_effect_descriptor ''viture-control'') req = Ok () \<and>
      length (vs_sent s') = Suc (length (vs_sent s)) \<and>
      r = session_receipt (standard_effect_descriptor ''viture-control'') (length (vs_sent s'))"
    using viture_invoke_sent(2) [of wv ro vo debug_len req s r s'] by (simp add: viture_session_ops_def)
next
  fix req e s s'
  assume "so_invoke (viture_session_ops wv ro vo po debug_len) req s = Some (Err e, s')"
  then show "length (vs_sent s') = length (vs_sent s)"
    using viture_invoke_sent(1) [of wv ro vo debug_len req s e s'] by (simp add: viture_session_ops_def)
qed (simp_all add: viture_session_ops_def viture_start_def viture_stop_def viture_poll_def split: sum.split prod.split)

subsection \<open>Poses\<close>

text \<open>
  The number of the next pose sample of a hardware route, with the fixed orientation of an IMU route.
\<close>

definition next_pose :: "('d, 'f, 'q, 'c) viture_state \<Rightarrow> ('f quad option \<times> u64) option" where
  "next_pose st = (case st of
       CarinaState d n \<Rightarrow> Some (None, n)
     | LegacyState d orientation n \<Rightarrow> Some (Some orientation, n)
     | ScriptedState _ _ \<Rightarrow> None)"

text \<open>What the sample of a number is: six degrees of freedom from the device, or three fixed ones.\<close>

definition pose_sample :: "('f, 'q, 'c) pose_ops \<Rightarrow> 'f quad option \<Rightarrow> u64 \<Rightarrow> expr \<Rightarrow> bool" where
  "pose_sample po fixed n e \<longleftrightarrow> (case fixed of
       None \<Rightarrow> \<exists>position orientation status q. status \<noteq> Limited \<and> e = po_expr po q \<and>
         po_new po n (Some position) orientation (sample_time_ns n) 0 6 status = Ok q
     | Some orientation \<Rightarrow> \<exists>q. e = po_expr po q \<and>
         po_new po n None orientation (sample_time_ns n) 0 3 Limited = Ok q)"

lemma next_pose_on_device: "on_device f st = (r, st') \<Longrightarrow> next_pose st' = next_pose st"
  by (auto simp: on_device_def next_pose_def split: viture_state.splits prod.splits)

lemma next_pose_apply: "apply_control_packet vo p st = (r, st') \<Longrightarrow> next_pose st' = next_pose st"
  by (cases p) (auto simp: apply_control_packet_def dest: next_pose_on_device)

lemma carina_sample_pose:
  assumes "carina_pose_sample po n 0 position orientation status = Ok q" and "status \<noteq> Limited"
  shows "pose_sample po None n (po_expr po q)"
proof -
  have "po_new po n (Some position) orientation (sample_time_ns n) 0 6 status = Ok q"
    using assms(1) by (simp add: carina_pose_sample_def)
  then show ?thesis
    unfolding pose_sample_def option.case using assms(2) by blast
qed

lemma poll_state_pose:
  assumes "poll_state vo po kind st = (r, st')" and "next_pose st = Some (fixed, n)"
  shows "if \<exists>e. r = Ok (Some e) then pose_sample po fixed n (the (projr r)) \<and> next_pose st' = Some (fixed, sat_add n 1)
    else next_pose st' = Some (fixed, n)"
proof (cases st)
  case (CarinaState d m)
  then show ?thesis
    using assms
    by (auto simp: poll_state_def next_pose_def
        split: if_split_asm prod.splits sum.splits option.splits physical_sample.splits intro: carina_sample_pose)
next
  case (LegacyState d orientation m)
  then show ?thesis
    using assms
    by (auto simp: poll_state_def next_pose_def pose_sample_def map_err_def split: if_splits sum.splits)
qed (use assms in \<open>simp add: next_pose_def\<close>)

lemma viture_step_pose:
  assumes step: "session_step (viture_session_ops wv ro vo po debug_len) op s = Some (out, s')"
    and pose: "next_pose (vs_state s) = Some (fixed, n)"
  obtains (none) "polled_sample out = None" "next_pose (vs_state s') = Some (fixed, n)"
  | (emitted) e where "polled_sample out = Some e" "pose_sample po fixed n e"
      "next_pose (vs_state s') = Some (fixed, sat_add n 1)"
proof (cases op)
  case StartSession
  with step pose show ?thesis
    by (intro none) (auto simp: viture_session_ops_def viture_start_def polled_sample_def
        split: prod.splits sum.splits dest: next_pose_on_device)
next
  case StopSession
  with step pose show ?thesis
    by (intro none) (auto simp: viture_session_ops_def viture_stop_def polled_sample_def
        split: prod.splits sum.splits dest: next_pose_on_device)
next
  case (PollSession kind)
  then obtain r where r: "viture_poll vo po kind s = (r, s')" "out = Polled r"
    using step by (auto simp: viture_session_ops_def split: prod.splits)
  show ?thesis
  proof (cases "kind \<noteq> viture_pose_kind \<and> kind \<noteq> viture_camera_kind")
    case True
    with r pose show ?thesis
      by (intro none) (auto simp: viture_poll_def polled_sample_def)
  next
    case False
    then obtain st where st: "poll_state vo po kind (vs_state s) = (r, st)" "s' = s\<lparr>vs_state := st\<rparr>"
      using r(1) by (auto simp: viture_poll_def split: prod.splits)
    show ?thesis
    proof (cases "\<exists>e. r = Ok (Some e)")
      case True
      then obtain e where "r = Ok (Some e)" ..
      with poll_state_pose [OF st(1) pose] st(2) r(2) show ?thesis
        by (intro emitted [of e]) (simp_all add: polled_sample_def)
    next
      case False
      with poll_state_pose [OF st(1) pose] st(2) r(2) show ?thesis
        by (intro none) (auto simp: polled_sample_def split: sum.splits option.splits)
    qed
  qed
next
  case (InvokeEffect req)
  with step pose show ?thesis
    by (intro none) (auto simp: viture_session_ops_def viture_invoke_def Let_def polled_sample_def
        split: prod.splits sum.splits dest: next_pose_apply)
qed

lemma viture_run_poses:
  "run_steps (session_step (viture_session_ops wv ro vo po debug_len)) ops s = Some (outs, s') \<Longrightarrow>
   next_pose (vs_state s) = Some (fixed, of_nat m) \<Longrightarrow> m + length ops < 2 ^ 64 \<Longrightarrow>
   i < length (List.map_filter polled_sample outs) \<Longrightarrow>
   pose_sample po fixed (of_nat (m + i)) (List.map_filter polled_sample outs ! i)"
proof (induction ops arbitrary: s outs m i)
  case Nil
  then show ?case by (simp add: map_filter_simps)
next
  case (Cons op ops)
  from Cons.prems(1) obtain out s1 outs1 where
    step: "session_step (viture_session_ops wv ro vo po debug_len) op s = Some (out, s1)"
    and rest: "run_steps (session_step (viture_session_ops wv ro vo po debug_len)) ops s1 = Some (outs1, s')"
    and outs: "outs = out # outs1"
    by (auto split: bind_splits)
  from step Cons.prems(2) show ?case
  proof (cases rule: viture_step_pose)
    case none
    with Cons.IH [OF rest none(2), of i] Cons.prems(3,4) show ?thesis
      by (simp add: outs map_filter_simps)
  next
    case (emitted e)
    have "unat (of_nat m :: u64) = m"
      using Cons.prems(3) by (simp add: unat_of_nat)
    then have "sat_add (of_nat m :: u64) 1 = of_nat (Suc m)"
      using Cons.prems(3) by (simp add: sat_add_def)
    with emitted(3) have "next_pose (vs_state s1) = Some (fixed, of_nat (Suc m))"
      by simp
    from Cons.IH [OF rest this, of "i - 1"] Cons.prems(3,4) emitted(1,2) show ?thesis
      by (cases i) (simp_all add: outs map_filter_simps)
  qed
qed

lemma sample_time_exact: "unat (sample_time_ns n) = min (unat n * 16666667) (2 ^ 64 - 1)"
  by (simp add: sample_time_ns_def pose_step_ns_def unat_sat_mul)

subsection \<open>Properties\<close>

text \<open>A device for the witnesses: it logs the commands and always answers the same pose.\<close>

definition demo_rate :: "u32 rate_ops" where
  "demo_rate = \<lparr>ro_new = (\<lambda>hz. if hz = 0 then None else Some hz), ro_hz = (\<lambda>r. r)\<rparr>"

definition demo_device :: "(unit, u32 physical_command list, nat, u32) viture_ops" where
  "demo_device = \<lparr>vo_connect = (\<lambda>_. Ok []), vo_start = (\<lambda>d. (Ok (), d)),
     vo_poll = (\<lambda>d. (Ok (Some (PoseSample (0, 0, 0) (1, 0, 0, 0) True)), d)),
     vo_send = (\<lambda>c d. (Ok (), d @ [c])), vo_close = (\<lambda>d. (Ok (), d))\<rparr>"

definition demo_pose :: "(nat, u64, unit) pose_ops" where
  "demo_pose = \<lparr>po_new = (\<lambda>n _ _ _ _ _ _. Ok n), po_expr = wo_uint demo_wire, po_camera_expr = (\<lambda>_. ENil)\<rparr>"

definition demo_level :: "string \<Rightarrow> u64 \<Rightarrow> expr" where
  "demo_level cmd n = vb_map demo_wire
     [(''kind'', ESymbol (symbol_qualified ''view-viture'' ''command'')),
      (''command'', ESymbol (symbol_qualified ''viture/command'' cmd)), (''level'', wo_uint demo_wire n)]"

lemma demo_level_fields [simp]:
  "va_field demo_wire (demo_level cmd n) ''kind'' = Some (ESymbol (symbol_qualified ''view-viture'' ''command''))"
  "va_field demo_wire (demo_level cmd n) ''command'' = Some (ESymbol (symbol_qualified ''viture/command'' cmd))"
  "va_field demo_wire (demo_level cmd n) ''level'' = Some (wo_uint demo_wire n)"
  by (simp_all add: demo_level_def wire_access(1) [OF demo_wire_laws])

lemma demo_level_only: "only_fields (demo_level cmd n) [''kind'', ''command'', ''level'']"
  by (simp add: demo_level_def only_fields_def demo_wire_def key_name_def)

lemma demo_brightness: "viture_valid demo_wire demo_rate (Brightness 50) (demo_level ''brightness'' 50)"
  by (simp add: viture_valid_def viture_packet_kind_def viture_command_symbol_def demo_level_only u64_field_def
      u64_value_uint [OF demo_wire_laws])

definition demo_viture_request :: effect_request where
  "demo_viture_request = \<lparr>rq_descriptor = symbol_qualified ''device/effect'' ''viture-control'',
     rq_payload = demo_level ''brightness'' 50, rq_arm = Some ''armed'', rq_idempotence_key = Some ''k'',
     rq_grants = [''device.effect.viture-control''], rq_armed_at_ms = 1, rq_invoked_at_ms = 2\<rparr>"

lemma demo_viture_authorized:
  "authorized (\<lambda>_. 0) (standard_effect_descriptor ''viture-control'') demo_viture_request"
  by (simp add: authorized_def complete_descriptor_def standard_effect_descriptor_def demo_viture_request_def
      from_millis_def from_secs_def word_gt_0)

definition demo_viture :: "(unit, nat, u64, unit) viture_provider" where
  "demo_viture = viture_provider_new (viture_device_profile (symbol_new ''p'') (symbol_new ''c'')) (VitureCarina ())"

text \<open>
  A control command is accepted exactly when it is of the VITURE command kind, has the one field
  of its command and nothing else, and that field holds a boolean, a rate below \<open>2 ^ 32\<close> that the
  device accepts, or a level of at most 100; the packet holds that value.
\<close>
theorem viture_command_exact:
  assumes "wire_laws wv"
  shows "encode_viture_command wv ro e = Ok packet \<longleftrightarrow>
    va_field wv e ''kind'' = Some (ESymbol (symbol_qualified ''view-viture'' ''command'')) \<and>
    va_field wv e ''command'' = Some (ESymbol (viture_command_symbol (viture_packet_kind packet))) \<and>
    only_fields e [''kind'', ''command'', viture_field (viture_packet_kind packet)] \<and>
    packet_argument wv ro e packet"
  unfolding encode_viture_Ok [OF assms] viture_valid_def ..

theorem viture_command_exact_witness:
  "encode_viture_command demo_wire demo_rate (demo_level ''brightness'' 50) = Ok (Brightness 50) \<and>
   (\<forall>l. encode_viture_command demo_wire demo_rate (demo_level ''brightness'' 101) \<noteq> Ok (Brightness l))"
  unfolding viture_command_exact [OF demo_wire_laws]
  by (simp add: viture_packet_kind_def viture_command_symbol_def demo_level_only u64_field_def
      u64_value_uint [OF demo_wire_laws])





end
