(* ===== verification/ConfigProbe.thy ===== *)
theory ConfigProbe
  imports Catalog
begin

section \<open>Configuration probe (\<open>src/config_probe.rs\<close>)\<close>

text \<open>
  The probe that offers configuration defaults from the device catalog: when it applies, which
  backend candidates it offers, and the regular expression it builds from them. The directory of a
  layer (\<open>ConfigDir::one\<close> of the external crate \<open>sim_config\<close>) is a parameter that answers
  \<open>None\<close> for an error, on which the source panics; it is documented to accept a map.
\<close>

definition stream_host_lib :: symbol where
  "stream_host_lib = symbol_qualified ''stream'' ''host''"

definition host_probe_symbol :: symbol where
  "host_probe_symbol = symbol_qualified ''config-probe'' ''stream-host''"

definition hardware_probe_capability :: symbol where
  "hardware_probe_capability = symbol_qualified ''config-probe-capability'' ''hardware-inventory''"

datatype probe_mode = ModeledProbe | RealProbe

record probe_request =
  pr_lib :: symbol
  pr_mode :: probe_mode
  pr_hardware_inventory :: bool

datatype probe_status = Applied | Skipped string | Denied string | Failed message

record probe_report =
  pt_probe :: symbol
  pt_lib :: symbol
  pt_mode :: probe_mode
  pt_status :: probe_status
  pt_emitted_keys :: "string list"

record 'dir config_layer =
  cl_probe :: symbol
  cl_mode :: probe_mode
  cl_dir :: 'dir

definition emitted_keys :: "string list" where
  "emitted_keys = [''audio_backend_candidates'', ''midi_backend_candidates'', ''audio_backend_regex'',
     ''midi_backend_regex'', ''sample_rate_hz'', ''max_block_frames'']"

definition probe_report_of :: "probe_request \<Rightarrow> probe_status \<Rightarrow> string list \<Rightarrow> probe_report" where
  "probe_report_of req status keys = \<lparr>pt_probe = host_probe_symbol, pt_lib = pr_lib req, pt_mode = pr_mode req,
     pt_status = status, pt_emitted_keys = keys\<rparr>"

definition table_key :: "string \<Rightarrow> expr" where
  "table_key name = ESymbol (symbol_new name)"

definition string_list :: "string list \<Rightarrow> expr" where
  "string_list vals = EList (map EString vals)"

definition table_int :: "u32 \<Rightarrow> expr" where
  "table_int n = ENumber (symbol_new ''i64'') (show_nat (unat n))"

definition regex_meta :: "char \<Rightarrow> bool" where
  "regex_meta c \<longleftrightarrow> c = CHR 0x5C \<or> c \<in> set ''.+*?^$()[]{}|''"

primrec regex_escape :: "string \<Rightarrow> string" where
  "regex_escape [] = []"
| "regex_escape (c # cs) = (if regex_meta c then [CHR 0x5C, c] else [c]) @ regex_escape cs"

text \<open>\<open>join\<close> of a slice of strings.\<close>

fun join_with :: "string \<Rightarrow> string list \<Rightarrow> string" where
  "join_with sep [] = []"
| "join_with sep [s] = s"
| "join_with sep (s # t # ts) = s @ sep @ join_with sep (t # ts)"

definition candidate_regex :: "string list \<Rightarrow> string" where
  "candidate_regex vals =
     (if vals = [] then ''(?!)''
      else ''^(?:'' @ join_with ''|'' (map regex_escape vals) @ '')$'')"

definition default_sample_rate_hz :: u32 where
  [simp]: "default_sample_rate_hz = 48000"

definition default_max_block_frames :: u32 where
  [simp]: "default_max_block_frames = 512"

definition stream_host_table :: "string list \<Rightarrow> string list \<Rightarrow> expr" where
  "stream_host_table audio midi = EMap
     [(table_key ''audio_backend_candidates'', string_list audio),
      (table_key ''midi_backend_candidates'', string_list midi),
      (table_key ''audio_backend_regex'', EString (candidate_regex audio)),
      (table_key ''midi_backend_regex'', EString (candidate_regex midi)),
      (table_key ''sample_rate_hz'', table_int default_sample_rate_hz),
      (table_key ''max_block_frames'', table_int default_max_block_frames)]"

definition real_candidates ::
  "(error \<Rightarrow> message) \<Rightarrow> 'l catalog \<Rightarrow> message + (string list \<times> string list)" where
  "real_candidates display c =
     and_then (map_err (\<lambda>e. Lit ''audio backend inventory failed: '' # display e) (audio_hardware_names c)) (\<lambda>audio.
     and_then (map_err (\<lambda>e. Lit ''MIDI backend inventory failed: '' # display e) (midi_hardware_names c)) (\<lambda>midi.
     Ok (audio, midi)))"

text \<open>\<open>probe\<close>; \<open>None\<close> is the panic when the directory refuses the table.\<close>

definition probe ::
  "(symbol \<Rightarrow> expr \<Rightarrow> 'dir option) \<Rightarrow> (error \<Rightarrow> message) \<Rightarrow> 'l catalog \<Rightarrow> probe_request \<Rightarrow>
   ('dir config_layer option \<times> probe_report) option" where
  "probe dir_one display c req =
     (if pr_lib req \<noteq> stream_host_lib
      then Some (None, probe_report_of req (Skipped ''stream-host probe only serves stream/host'') [])
      else if pr_mode req = RealProbe \<and> \<not> pr_hardware_inventory req
      then Some (None, probe_report_of req (Denied (as_qualified_str hardware_probe_capability)) [])
      else case (case pr_mode req of
          ModeledProbe \<Rightarrow> Ok ([''modeled''], [''modeled''])
        | RealProbe \<Rightarrow> real_candidates display c) of
        Inl m \<Rightarrow> Some (None, probe_report_of req (Failed m) [])
      | Inr (audio, midi) \<Rightarrow>
          do { dir \<leftarrow> dir_one (pr_lib req) (stream_host_table audio midi);
               Some (Some \<lparr>cl_probe = host_probe_symbol, cl_mode = pr_mode req, cl_dir = dir\<rparr>,
                     probe_report_of req Applied emitted_keys) })"

text \<open>The probe over the default catalog.\<close>

definition modeled_probe ::
  "(symbol \<Rightarrow> expr \<Rightarrow> 'dir option) \<Rightarrow> (error \<Rightarrow> message) \<Rightarrow> probe_request \<Rightarrow>
   ('dir config_layer option \<times> probe_report) option" where
  "modeled_probe dir_one display req = probe dir_one display (default_modeled :: unit catalog) req"

subsection \<open>What the expression of the candidates matches\<close>

text \<open>
  The literal alternatives of an anchored alternation whose metacharacters are all escaped, and none
  for the expression that never matches; \<open>None\<close> for any other expression.
\<close>

fun read_alternatives :: "string \<Rightarrow> string \<Rightarrow> string list option" where
  "read_alternatives current [] = Some [rev current]"
| "read_alternatives current [c] =
     (if c = CHR ''|'' then Some [rev current, []]
      else if regex_meta c then None else Some [rev (c # current)])"
| "read_alternatives current (c # d # cs) =
     (if c = CHR 0x5C then read_alternatives (d # current) cs
      else if c = CHR ''|'' then map_option ((#) (rev current)) (read_alternatives [] (d # cs))
      else if regex_meta c then None else read_alternatives (c # current) (d # cs))"

definition regex_alternatives :: "string \<Rightarrow> string list option" where
  "regex_alternatives r =
     (if r = ''(?!)'' then Some []
      else if take 4 r = ''^(?:'' \<and> drop (length r - 2) r = '')$''
      then read_alternatives [] (take (length r - 6) (drop 4 r)) else None)"

lemma read_escape: "read_alternatives current (regex_escape v @ rest) = read_alternatives (rev v @ current) rest"
proof (induction v arbitrary: current)
  case (Cons c v)
  show ?case
  proof (cases "regex_meta c")
    case True
    with Cons show ?thesis by simp
  next
    case False
    then have "c \<noteq> CHR 0x5C" "c \<noteq> CHR ''|''"
      by (auto simp: regex_meta_def)
    moreover have "read_alternatives current (c # s) = read_alternatives (c # current) s"
      if "c \<noteq> CHR 0x5C" "c \<noteq> CHR ''|''" for s
      using that False by (cases s) simp_all
    ultimately show ?thesis
      using False Cons.IH [of "c # current"] by simp
  qed
qed simp

lemma read_bar: "read_alternatives current (CHR ''|'' # s) = map_option ((#) (rev current)) (read_alternatives [] s)"
  by (cases s) simp_all

lemma read_join: "vs \<noteq> [] \<Longrightarrow> read_alternatives [] (join_with ''|'' (map regex_escape vs)) = Some vs"
proof (induction vs)
  case (Cons v vs)
  show ?case
  proof (cases vs)
    case Nil
    then show ?thesis
      using read_escape [of "[]" v "[]"] by simp
  next
    case (Cons w ws)
    then have "join_with ''|'' (map regex_escape (v # vs)) =
        regex_escape v @ CHR ''|'' # join_with ''|'' (map regex_escape vs)"
      by simp
    then show ?thesis
      using Cons.IH Cons by (simp only: read_escape read_bar) simp
  qed
qed simp

subsection \<open>Properties\<close>


lemma real_candidates_Ok:
  "real_candidates display c = Ok (audio, midi) \<longleftrightarrow> audio_hardware_names c = Ok audio \<and> midi_hardware_names c = Ok midi"
  by (auto simp: real_candidates_def and_then_eq_Ok)

text \<open>What a probe reads: the modeled candidates, or both hardware inventories.\<close>

definition probe_reads :: "'l catalog \<Rightarrow> probe_request \<Rightarrow> string list \<Rightarrow> string list \<Rightarrow> bool" where
  "probe_reads c req audio midi \<longleftrightarrow>
     (if pr_mode req = ModeledProbe then audio = [''modeled''] \<and> midi = [''modeled'']
      else audio_hardware_names c = Ok audio \<and> midi_hardware_names c = Ok midi)"

definition probe_serves :: "probe_request \<Rightarrow> bool" where
  "probe_serves req \<longleftrightarrow> pr_lib req = stream_host_lib \<and> (pr_mode req = RealProbe \<longrightarrow> pr_hardware_inventory req)"

lemma probe_refused:
  "\<not> probe_serves req \<Longrightarrow> \<exists>st. probe dir_one display c req = Some (None, probe_report_of req st [])"
  by (auto simp: probe_def probe_serves_def)

lemma probe_reading:
  assumes "probe_serves req" "probe_reads c req audio midi"
  shows "probe dir_one display c req =
    do { dir \<leftarrow> dir_one stream_host_lib (stream_host_table audio midi);
         Some (Some \<lparr>cl_probe = host_probe_symbol, cl_mode = pr_mode req, cl_dir = dir\<rparr>,
               probe_report_of req Applied emitted_keys) }"
proof (cases "pr_mode req")
  case RealProbe
  then have "real_candidates display c = Ok (audio, midi)"
    using assms by (simp add: probe_reads_def real_candidates_Ok)
  with RealProbe assms show ?thesis
    by (simp add: probe_def probe_serves_def)
qed (use assms in \<open>simp_all add: probe_def probe_serves_def probe_reads_def\<close>)

lemma probe_unreadable:
  assumes "probe_serves req" "\<And>audio midi. \<not> probe_reads c req audio midi"
  shows "\<exists>st. probe dir_one display c req = Some (None, probe_report_of req st [])"
proof (cases "pr_mode req")
  case RealProbe
  then have "real_candidates display c \<noteq> Ok (audio, midi)" for audio midi
    using assms(2) [of audio midi] by (simp add: probe_reads_def real_candidates_Ok)
  then obtain m where "real_candidates display c = Err m"
    by (cases "real_candidates display c") auto
  with RealProbe assms(1) show ?thesis
    by (auto simp: probe_def probe_serves_def)
qed (use assms(2) [of "[''modeled'']" "[''modeled'']"] in \<open>simp add: probe_reads_def\<close>)

lemma stream_host_table_keys:
  "\<exists>entries. stream_host_table audio midi = EMap entries \<and> map fst entries = map table_key emitted_keys"
  by (simp add: stream_host_table_def emitted_keys_def)

lemma probe_report_keys [simp]: "pt_emitted_keys (probe_report_of req st keys) = keys"
  by (simp add: probe_report_of_def)

text \<open>
  C38. A probe always answers. It offers a layer exactly for the stream-host library, in modeled mode
  always and in real mode only with the hardware-inventory capability and when both inventories can be
  read; the layer holds the table of the candidates, the modeled ones or those of the hardware rows,
  and the report lists the keys of that table exactly when there is a layer.
\<close>
theorem probe_exact:
  assumes "\<And>lib entries. \<exists>d. dir_one lib (EMap entries) = Some d"
  shows "\<exists>layer report. probe dir_one display c req = Some (layer, report) \<and>
    (layer \<noteq> None \<longleftrightarrow> probe_serves req \<and> (\<exists>audio midi. probe_reads c req audio midi)) \<and>
    (\<forall>l. layer = Some l \<longrightarrow> cl_mode l = pr_mode req \<and>
       (\<exists>audio midi entries. probe_reads c req audio midi \<and> stream_host_table audio midi = EMap entries \<and>
          map fst entries = map table_key emitted_keys \<and>
          dir_one stream_host_lib (EMap entries) = Some (cl_dir l))) \<and>
    pt_emitted_keys report = (if layer = None then [] else emitted_keys)"
proof (cases "probe_serves req \<and> (\<exists>audio midi. probe_reads c req audio midi)")
  case True
  then obtain audio midi where reads: "probe_serves req" "probe_reads c req audio midi"
    by blast
  obtain entries d where table: "stream_host_table audio midi = EMap entries"
      "map fst entries = map table_key emitted_keys" "dir_one stream_host_lib (EMap entries) = Some d"
    using stream_host_table_keys assms by metis
  have "probe dir_one display c req = Some (Some \<lparr>cl_probe = host_probe_symbol, cl_mode = pr_mode req, cl_dir = d\<rparr>,
      probe_report_of req Applied emitted_keys)"
    using table by (simp add: probe_reading [OF reads])
  with table reads True show ?thesis
    by (simp only:) (rule exI, rule exI, rule conjI, rule refl, auto)
next
  case False
  then obtain st where "probe dir_one display c req = Some (None, probe_report_of req st [])"
    using probe_refused [of req] probe_unreadable [of req c] by blast
  with False show ?thesis
    by auto
qed

theorem probe_exact_witness:
  "\<exists>l report. probe (\<lambda>lib table. Some (lib, table)) (\<lambda>_. []) (default_modeled :: nat catalog)
       \<lparr>pr_lib = stream_host_lib, pr_mode = ModeledProbe, pr_hardware_inventory = False\<rparr> = Some (Some l, report) \<and>
     cl_dir l = (stream_host_lib, stream_host_table [''modeled''] [''modeled'']) \<and>
     pt_emitted_keys report = emitted_keys"
proof -
  have accepts: "\<And>lib entries. \<exists>d. (\<lambda>lib table. Some (lib :: symbol, table)) lib (EMap entries) = Some d"
    by simp
  from probe_exact [where dir_one = "\<lambda>lib table. Some (lib, table)" and display = "\<lambda>_. []"
      and c = "default_modeled :: nat catalog"
      and req = "\<lparr>pr_lib = stream_host_lib, pr_mode = ModeledProbe, pr_hardware_inventory = False\<rparr>", OF accepts]
  show ?thesis
    by (auto simp: probe_reads_def probe_serves_def)
qed

end
