(* ===== verification/Cookbook.thy ===== *)
theory Cookbook
  imports Streams
begin

section \<open>The fake-backend recipe (\<open>src/cookbook.rs\<close>)\<close>

text \<open>
  The builder of the recipe: it makes a fake backend, registers it, opens its data stream with
  authority and describes what was opened. It composes the fake backend, the registry, the checked
  open and the stream configuration, and every step of it is unwrapped, so \<open>None\<close> is a panic.
  Making a context and granting a capability to it belong to the kernel and are parameters.
\<close>

definition demo_field :: "string \<Rightarrow> expr" where
  "demo_field name = ESymbol (symbol_qualified ''stream-host'' name)"

definition demo_sym :: "string \<Rightarrow> string \<Rightarrow> expr" where
  "demo_sym ns name = ESymbol (symbol_qualified ns name)"

definition demo_number :: "string \<Rightarrow> expr" where
  "demo_number text = ENumber (symbol_qualified ''numbers'' ''i64'') text"

definition assert_demo_granted :: "error + 'cx \<Rightarrow> 'cx option" where
  "assert_demo_granted granted = (case granted of Inl _ \<Rightarrow> None | Inr cx \<Rightarrow> Some cx)"

definition authorized_demo_cx :: "'cx \<Rightarrow> ('cx \<Rightarrow> capability \<Rightarrow> error + 'cx) \<Rightarrow> 'cx option" where
  "authorized_demo_cx seated grant = assert_demo_granted (grant seated stream_host_capability)"

text \<open>\<open>expect\<close>.\<close>

definition expect :: "'e + 'a \<Rightarrow> 'a option" where
  "expect r = (case r of Inl _ \<Rightarrow> None | Inr x \<Rightarrow> Some x)"

definition fake_backend_demo ::
  "('b, 'm) core_ops \<Rightarrow> ('m, 'st, 'it, 'p) stream_ops \<Rightarrow> ('cx, 'h) context_ops \<Rightarrow> 'cx \<Rightarrow>
   ('cx \<Rightarrow> capability \<Rightarrow> error + 'cx) \<Rightarrow> expr option" where
  "fake_backend_demo co so ops seated grant = do {
     backend \<leftarrow> fake_backend_new co;
     inventory \<leftarrow> expect (fake_enumerate backend);
     let (registered, registry) =
       registry_register (fake_as_backend co so backend :: ('b, 'st, unit) backend) backend_registry_new;
     expect registered;
     cx \<leftarrow> authorized_demo_cx seated grant;
     request \<leftarrow> expect (fake_data_request co 8);
     opened \<leftarrow> expect (fst (open_checked ops registry request cx));
     let config = os_config opened;
     Some (EMap
       [(demo_field ''kind'', demo_sym ''stream-host'' ''fake-backend''),
        (demo_field ''backend'', ESymbol (sc_backend config)),
        (demo_field ''device'', ESymbol (sc_device config)),
        (demo_field ''media'', ESymbol (co_media_symbol co (sc_media config))),
        (demo_field ''clock'', ESymbol (ci_clock (sc_clock config))),
        (demo_field ''devices'', demo_number (show_nat (length (iv_devices inventory)))),
        (demo_field ''ports'', demo_number (show_nat (length (iv_ports inventory)))),
        (demo_field ''callback-queue'', demo_sym ''stream-host'' ''bounded''),
        (demo_field ''hardware-required'', EBool False)]) }"

subsection \<open>What the recipe relies on\<close>

text \<open>A context that grants the host capability, and that records every effect it is given.\<close>

definition demo_context :: "('cx, 'h) context_ops \<Rightarrow> 'cx \<Rightarrow> bool" where
  "demo_context ops cx \<longleftrightarrow> cx_require ops cx stream_host_capability = Ok () \<and>
     (\<forall>cx e r. fst (cx_resolve ops cx e r) = Ok ())"

lemma resolve_all_Ok:
  "(\<And>cx e r. fst (cx_resolve ops cx e r) = Ok ()) \<Longrightarrow> fst (resolve_all ops plan kinds cx) = Ok ()"
proof (induction kinds arbitrary: cx)
  case (Cons kind kinds)
  obtain handle cx1 where fresh: "cx_fresh_handle ops cx = (handle, cx1)"
    by (cases "cx_fresh_handle ops cx")
  obtain out cx2 where res: "cx_resolve ops cx1 (plan_effect plan kind handle)
      (symbol_qualified ''stream/host'' ''open-authorized'') = (out, cx2)"
    by (cases "cx_resolve ops cx1 (plan_effect plan kind handle)
      (symbol_qualified ''stream/host'' ''open-authorized'')")
  have "out = Ok ()"
    using Cons.prems [of cx1 "plan_effect plan kind handle" "symbol_qualified ''stream/host'' ''open-authorized''"]
    by (simp add: res)
  with fresh res Cons show ?case
    by simp
qed simp

lemma plan_enforce_granted:
  assumes "demo_context ops cx" "op_requires plan = [stream_host_capability]"
  shows "fst (plan_enforce ops plan cx) = Ok ()"
  using assms by (simp add: plan_enforce_def demo_context_def resolve_all_Ok)

text \<open>With authority, a checked open answers what the registry answers for the request.\<close>

lemma open_checked_granted:
  assumes "demo_context ops cx" "registry_open reg r = Ok s"
  shows "fst (open_checked ops reg r cx) = Ok s"
proof -
  from assms(2) obtain plan where plan: "plan_open reg r = Ok plan"
    by (auto simp: registry_open_def and_then_eq_Ok)
  then have "op_requires plan = [stream_host_capability]"
    by (rule plan_open_Ok)
  from plan_enforce_granted [OF assms(1) this] assms(2) plan show ?thesis
    by (auto simp: open_checked_def split: prod.splits)
qed

lemma fake_backend_total:
  assumes "co_bounded co 8 = Ok buffer"
  shows "\<exists>fb. fake_backend_new co = Some fb \<and> length (iv_devices (fb_inventory fb)) = 4 \<and>
    length (iv_ports (fb_inventory fb)) = 4"
  using assms
  by (simp add: fake_backend_new_def fake_device_def Let_def with_ports_def with_devices_def inventory_new_def)

lemma fake_data_opens:
  assumes fb: "fake_backend_new co = Some fb" and request: "fake_data_request co n = Ok request"
  shows "fake_open co so fb request = Ok (open_stream_new co so (config_from_request request latency_default
    (clock_info_new (co_clock_symbol co ServerFrameClock) None True)))"
proof -
  have sel: "cr_backend request = fake_backend_symbol" "cr_device request = symbol_new ''fake/data''"
      "cr_media request = Data" "cr_direction request = Input"
    using request by (auto simp: fake_data_request_def and_then_eq_Ok request_new_def)
  obtain d ds where "iv_devices (fb_inventory fb) = d # ds" "ds_id d = symbol_new ''fake/data''"
      "ds_media d = Data" "ds_direction d = Input"
    using fb by (auto simp: fake_backend_new_def Let_def with_ports_def with_devices_def
        dest!: fake_device_sel split: bind_splits)
  then show ?thesis
    by (simp add: fake_open_def sel fake_backend_new_sel(1) [OF fb])
qed

lemma open_checked_requires:
  assumes "fst (open_checked ops reg r cx) = Ok s"
  shows "cx_require ops cx stream_host_capability = Ok ()"
proof -
  obtain plan where plan: "plan_open reg r = Ok plan" "fst (plan_enforce ops plan cx) = Ok ()"
    using assms by (auto simp: open_checked_def split: sum.splits prod.splits)
  then have "op_requires plan = [stream_host_capability]"
    by (auto elim: plan_open_Ok)
  with plan(2) show ?thesis
    by (cases "cx_require ops cx stream_host_capability") (auto simp: plan_enforce_def)
qed

text \<open>The registry of the recipe, and what opening its request answers.\<close>

lemma fake_demo_registry:
  assumes fb: "fake_backend_new co = Some fb"
  shows "registry_register (fake_as_backend co so fb) backend_registry_new =
    (Ok (), bt_insert fake_backend_symbol (fake_as_backend co so fb) bt_empty)"
  using fake_backend_new_sel(1) [OF fb]
  by (simp add: registry_register_def backend_registry_new_def fake_as_backend_def btree.laws)

lemma fake_demo_open:
  assumes "core_laws co" "stream_laws so" and fb: "fake_backend_new co = Some fb"
    and request: "fake_data_request co n = Ok request"
  shows "registry_open (bt_insert fake_backend_symbol (fake_as_backend co so fb :: ('b, 'st, 'd) backend) bt_empty) request =
    Ok (open_stream_new co so (config_from_request request latency_default
      (clock_info_new (co_clock_symbol co ServerFrameClock) None True)))"
proof -
  have wf: "(\<lambda>(co, so, fb). core_laws co \<and> stream_laws so \<and> fake_backend_new co = Some fb) (co, so, fb)"
    using assms(1-3) by simp
  have "cr_backend request = fake_backend_symbol"
    using request by (auto simp: fake_data_request_def and_then_eq_Ok request_new_def)
  moreover have "bt_get (bt_insert fake_backend_symbol (fake_as_backend co so fb :: ('b, 'st, 'd) backend) bt_empty) fake_backend_symbol =
      Some (fake_as_backend co so fb)"
    by (simp add: btree.laws)
  ultimately show ?thesis
    by (intro iffD2 [OF fake_host.registry_agrees [OF wf]])
      (simp_all add: fake_backend_new_sel(1) [OF fb] fake_as_backend_def fake_data_opens [OF fb request])
qed

text \<open>
  The recipe never panics in a context that grants the host capability: every step it unwraps
  succeeds, and it describes the data device of the fake backend, which the registry dispatched to,
  with the four devices and four ports that were enumerated. Where the grant is refused, or the
  context does not hold it afterwards, it panics.
\<close>
theorem fake_backend_demo_exact:
  assumes "core_laws co" "stream_laws so" "co_bounded co 8 = Ok buffer"
  shows "(\<forall>cx. grant seated stream_host_capability = Ok cx \<and> demo_context ops cx \<longrightarrow>
      fake_backend_demo co so ops seated grant = Some (EMap
        [(demo_field ''kind'', demo_sym ''stream-host'' ''fake-backend''),
         (demo_field ''backend'', demo_sym ''stream/host'' ''fake''),
         (demo_field ''device'', ESymbol (symbol_new ''fake/data'')),
         (demo_field ''media'', ESymbol (co_media_symbol co Data)),
         (demo_field ''clock'', ESymbol (co_clock_symbol co ServerFrameClock)),
         (demo_field ''devices'', demo_number ''4''),
         (demo_field ''ports'', demo_number ''4''),
         (demo_field ''callback-queue'', demo_sym ''stream-host'' ''bounded''),
         (demo_field ''hardware-required'', EBool False)])) \<and>
    (fake_backend_demo co so ops seated grant \<noteq> None \<longrightarrow>
      (\<exists>cx. grant seated stream_host_capability = Ok cx \<and> cx_require ops cx stream_host_capability = Ok ()))"
proof -
  obtain fb where fb: "fake_backend_new co = Some fb" "length (iv_devices (fb_inventory fb)) = 4"
      "length (iv_ports (fb_inventory fb)) = 4"
    using fake_backend_total [OF assms(3)] by blast
  obtain request where request: "fake_data_request co 8 = Ok request"
    using assms(3) by (simp add: fake_data_request_def)
  have sel: "cr_backend request = fake_backend_symbol" "cr_device request = symbol_new ''fake/data''"
      "cr_media request = Data"
    using request by (auto simp: fake_data_request_def and_then_eq_Ok request_new_def)
  have four: "show_nat 4 = ''4''"
    by code_simp
  note run = fake_backend_demo_def fb fake_demo_registry [OF fb(1)] request expect_def fake_enumerate_def
    authorized_demo_cx_def assert_demo_granted_def
  show ?thesis
  proof (intro conjI allI impI)
    fix cx
    assume "grant seated stream_host_capability = Ok cx \<and> demo_context ops cx"
    then show "fake_backend_demo co so ops seated grant = Some (EMap
        [(demo_field ''kind'', demo_sym ''stream-host'' ''fake-backend''),
         (demo_field ''backend'', demo_sym ''stream/host'' ''fake''),
         (demo_field ''device'', ESymbol (symbol_new ''fake/data'')),
         (demo_field ''media'', ESymbol (co_media_symbol co Data)),
         (demo_field ''clock'', ESymbol (co_clock_symbol co ServerFrameClock)),
         (demo_field ''devices'', demo_number ''4''),
         (demo_field ''ports'', demo_number ''4''),
         (demo_field ''callback-queue'', demo_sym ''stream-host'' ''bounded''),
         (demo_field ''hardware-required'', EBool False)])"
      by (simp add: run Let_def open_checked_granted [OF _ fake_demo_open [OF assms(1,2) fb(1) request]]
          open_stream_new_sel(1) sel four clock_info_new_def) (simp add: fake_backend_symbol_def demo_sym_def)
  next
    assume "fake_backend_demo co so ops seated grant \<noteq> None"
    then show "\<exists>cx. grant seated stream_host_capability = Ok cx \<and> cx_require ops cx stream_host_capability = Ok ()"
      by (auto simp: run Let_def dest: open_checked_requires split: bind_splits sum.splits)
  qed
qed

text \<open>The small core of \<open>Streams\<close>, a grant that is recorded, and one that is refused.\<close>

theorem fake_backend_demo_exact_witness:
  "(\<exists>entries. fake_backend_demo demo_core demo_streams demo_ops \<lparr>dc_grants = [], dc_next = 0, dc_ledger = []\<rparr>
      (\<lambda>cx c. Ok (cx\<lparr>dc_grants := c # dc_grants cx\<rparr>)) = Some (EMap entries) \<and>
      (demo_field ''devices'', demo_number ''4'') \<in> set entries) \<and>
   fake_backend_demo demo_core demo_streams demo_ops \<lparr>dc_grants = [], dc_next = 0, dc_ledger = []\<rparr>
      (\<lambda>cx c. Ok cx) = None"
proof -
  let ?seated = "\<lparr>dc_grants = [], dc_next = 0, dc_ledger = []\<rparr> :: demo_cx"
  have buffer: "co_bounded demo_core 8 = Ok 8"
    by (simp add: demo_core_def)
  have "demo_context demo_ops (?seated\<lparr>dc_grants := [stream_host_capability]\<rparr>)"
    "cx_require demo_ops ?seated stream_host_capability \<noteq> Ok ()"
    by (simp_all add: demo_context_def demo_ops_def)
  then show ?thesis
    using fake_backend_demo_exact [OF demo_core_laws demo_stream_laws buffer, of "\<lambda>cx c. Ok (cx\<lparr>dc_grants := c # dc_grants cx\<rparr>)" ?seated demo_ops]
      fake_backend_demo_exact [OF demo_core_laws demo_stream_laws buffer, of "\<lambda>cx c. Ok cx" ?seated demo_ops]
    by auto
qed

end
