(* ===== verification/Tooling.thy ===== *)
theory Tooling
  imports Kernel "HOL-Library.Sublist"
begin

section \<open>The tooling launcher (\<open>xtask\<close>)\<close>

text \<open>
  \<open>xtask/src/tooling.rs\<close> and \<open>xtask/src/main.rs\<close>: which arguments the
  launcher accepts and which command of the shared tools it starts for them. The environment of the
  process (its directory, one variable, whether a file is there) and the start of a child process
  belong to the operating system and are arguments. An absolute path is the list of its components,
  so \<open>parent\<close> drops the last one.
\<close>

type_synonym file_path = "string list"

datatype os_arg = TextArg string | PathArg file_path

record process_env =
  pe_current_dir :: "message + file_path"
  pe_manifest_var :: "string option"
  pe_is_file :: "file_path \<Rightarrow> bool"

record exit_status =
  xs_success :: bool
  xs_display :: message

definition tooling_usage :: "string \<Rightarrow> message" where
  "tooling_usage program = [Lit ''usage: '', Show_str program, Lit '' simdoc [--check] | '', Show_str program,
     Lit '' index-check [--repo PATH] [--strict SPEC] | '', Show_str program, Lit '' check-file-sizes'']"

definition has_repo_arg :: "string list \<Rightarrow> bool" where
  "has_repo_arg args \<longleftrightarrow> list_ex (\<lambda>arg. arg = ''--repo'' \<or> prefix ''--repo='' arg) (drop 2 args)"

definition path_parent :: "file_path \<Rightarrow> file_path option" where
  "path_parent p = (if p = [] then None else Some (butlast p))"

definition locate_manifest :: "process_env \<Rightarrow> file_path \<Rightarrow> message + os_arg" where
  "locate_manifest env repo_root =
     (case pe_manifest_var env of
        Some text \<Rightarrow> Inr (TextArg text)
      | None \<Rightarrow>
          (let sibling = (case path_parent repo_root of Some p \<Rightarrow> p | None \<Rightarrow> repo_root) @ [''sim-tooling'', ''Cargo.toml'']
           in if pe_is_file env sibling then Inr (PathArg sibling)
              else Inl [Lit ''set SIMDOC_TOOLING_MANIFEST to the sim-tooling Cargo.toml'']))"

text \<open>\<open>run\<close> up to the start of the child: the arguments of \<open>cargo\<close>.\<close>

definition tooling_command :: "process_env \<Rightarrow> string list \<Rightarrow> message + os_arg list" where
  "tooling_command env args =
     (let program = (case args of [] \<Rightarrow> ''xtask'' | p # _ \<Rightarrow> p)
      in and_then (if 1 < length args then Inr (args ! 1) else Inl (tooling_usage program)) (\<lambda>cmd.
         if cmd \<notin> set [''simdoc'', ''index-check'', ''check-file-sizes''] then Inl (tooling_usage program)
         else
         and_then (map_err (\<lambda>m. Lit ''current dir: '' # m) (pe_current_dir env)) (\<lambda>root.
         and_then (locate_manifest env root) (\<lambda>manifest.
         Inr ([TextArg ''run'', TextArg ''--manifest-path'', manifest, TextArg ''--quiet'', TextArg ''--'', TextArg cmd] @
           (if cmd = ''index-check''
            then if has_repo_arg args then [] else [TextArg ''--repo'', PathArg root]
            else [TextArg ''--repo-root'', PathArg root]) @
           map TextArg (drop 2 args))))))"

definition tooling_run ::
  "process_env \<Rightarrow> (os_arg list \<Rightarrow> message + exit_status) \<Rightarrow> string list \<Rightarrow> message + unit" where
  "tooling_run env start args =
     and_then (tooling_command env args) (\<lambda>child.
     and_then (map_err (\<lambda>m. Lit ''run shared sim-tooling command: '' # m) (start child)) (\<lambda>status.
     if xs_success status then Inr ()
     else Inl (Lit ''shared sim-tooling command failed with status '' # xs_display status)))"

text \<open>\<open>main\<close>: what is printed on the error stream, and the exit code.\<close>

definition tooling_main ::
  "process_env \<Rightarrow> (os_arg list \<Rightarrow> message + exit_status) \<Rightarrow> string list \<Rightarrow> message option \<times> nat" where
  "tooling_main env start args =
     (case tooling_run env start args of Inl m \<Rightarrow> (Some m, 1) | Inr _ \<Rightarrow> (None, 0))"

subsection \<open>What is started\<close>

text \<open>The manifest the launcher settles on: the variable, and otherwise the file beside the repository.\<close>

lemma locate_manifest_Ok:
  "locate_manifest env root = Inr m \<longleftrightarrow>
     (case pe_manifest_var env of
        Some text \<Rightarrow> m = TextArg text
      | None \<Rightarrow> pe_is_file env (butlast root @ [''sim-tooling'', ''Cargo.toml'']) \<and>
          m = PathArg (butlast root @ [''sim-tooling'', ''Cargo.toml'']))"
  by (auto simp: locate_manifest_def path_parent_def Let_def split: option.splits)

text \<open>
  A child is started exactly for a known command, with a directory and a manifest; its first
  arguments name the manifest, the command comes next, then the repository unless the caller of
  \<open>index-check\<close> names one, and then the caller's own arguments, in order. Nothing else starts.
\<close>

lemma tooling_command_exact:
  "tooling_command env args = Inr child \<longleftrightarrow>
     (\<exists>program cmd rest root m. args = program # cmd # rest \<and>
        cmd \<in> set [''simdoc'', ''index-check'', ''check-file-sizes''] \<and>
        pe_current_dir env = Inr root \<and> locate_manifest env root = Inr m \<and>
        child = [TextArg ''run'', TextArg ''--manifest-path'', m, TextArg ''--quiet'', TextArg ''--'', TextArg cmd] @
          (if cmd \<noteq> ''index-check'' then [TextArg ''--repo-root'', PathArg root]
           else if \<exists>arg \<in> set rest. arg = ''--repo'' \<or> prefix ''--repo='' arg then []
           else [TextArg ''--repo'', PathArg root]) @ map TextArg rest)"
proof (cases args rule: remdups_adj.cases)
  case (3 program cmd rest)
  have repo: "has_repo_arg args \<longleftrightarrow> (\<exists>arg \<in> set rest. arg = ''--repo'' \<or> prefix ''--repo='' arg)"
    by (simp add: has_repo_arg_def 3 list_ex_iff)
  show ?thesis
    unfolding tooling_command_def Let_def repo by (auto simp: 3 and_then_eq_Ok map_err_eq_Ok)
qed (simp_all add: tooling_command_def)

text \<open>The launcher exits with zero exactly when it started a child and the child succeeded.\<close>

lemma tooling_main_exact:
  "snd (tooling_main env start args) = 0 \<longleftrightarrow>
     (\<exists>child status. tooling_command env args = Inr child \<and> start child = Inr status \<and> xs_success status)"
  by (auto simp: tooling_main_def tooling_run_def and_then_eq_Ok map_err_eq_Ok split: sum.splits if_splits)

end
