(* ===== verification/Spec2Isabelle.thy ===== *)
theory Spec2Isabelle
  imports Loops Effects Host Streams OpenRuns Placement Router Catalog Consent Lan HaloSession Cameras CameraRuns Viture
    ConfigProbe Cookbook Tooling
begin

text \<open>
  Verification of the host-device stream substrate: the main crate \<open>src/\<close> and the three device
  provider crates \<open>crates/sim-lib-stream-halo\<close>, \<open>crates/sim-lib-stream-wristbridge\<close> and
  \<open>crates/sim-lib-stream-viture\<close>.

  \<^bold>\<open>The program.\<close> The substrate moves stream packets and device samples between a runtime and
  outside devices, and decides who may do so.

  \<^item> A host \<^bold>\<open>backend\<close> (fake, RTP-MIDI) enumerates devices and opens streams from configuration
    requests; opened streams hand host callbacks a bounded queue, and a driver that is shut down once.
    A registry dispatches requests to backends, and \<open>open_checked\<close> first requires capabilities from
    the kernel context and records the effects of the open in its ledger.
  \<^item> The \<^bold>\<open>ring\<close> is the preallocated queue between a host callback and the runtime; the
    \<^bold>\<open>content store\<close> holds the content that samples refer to, within a byte bound and for the time
    a consent receipt allows.
  \<^item> The \<^bold>\<open>catalog\<close> lists the devices of its providers: modelled rows, native ones, the audio sites a
    loaded provider library registered in the \<^bold>\<open>router\<close>, and the exports of the kernel's registry.
    The configuration \<^bold>\<open>probe\<close> reads the catalog to offer defaults.
  \<^item> Glasses and watches are \<^bold>\<open>sessions\<close>: polled for samples, and asked for effects that pass the
    authority check of an effect descriptor. What they hand out passes the watch or glasses consent
    gate before it is used or filed.

  \<^bold>\<open>Theories and sources.\<close> Each definition keeps the name of the Rust item where the logic allows it;
  a record field is an accessor of the struct.

  \<^item> \<open>Prelude\<close>: words for the machine integers with saturating and checked arithmetic, \<open>Result\<close> as a
    sum, \<open>?\<close> as \<open>and_then\<close>, panics as \<open>option\<close>, sequences of calls (\<open>run_steps\<close>).
    \<open>OrderedMap\<close>: \<open>BTreeMap\<close>, and the locale \<open>ordered_map\<close> of its laws. \<open>Kernel\<close>: symbols, expressions,
    errors, and the kernel context as the record \<open>context_ops\<close>.
  \<^item> \<open>Ring\<close>: \<open>ring.rs\<close>. \<open>ContentStore\<close>: \<open>store_evict.rs\<close>. \<open>Loops\<close>: the \<open>while\<close> loops of both files.
  \<^item> \<open>Effects\<close>: \<open>device.rs\<close>, \<open>music_effects.rs\<close>. \<open>Host\<close>: \<open>model.rs\<close>, \<open>capability.rs\<close>, \<open>inventory.rs\<close>,
    \<open>config.rs\<close>. \<open>Streams\<close>: \<open>queue.rs\<close>, \<open>backend.rs\<close>, \<open>registry.rs\<close>, \<open>fake.rs\<close>, \<open>rtp_midi.rs\<close>,
    \<open>cassette.rs\<close>. \<open>OpenRuns\<close>: sequences of checked opens over one context. \<open>Cookbook\<close>: \<open>cookbook.rs\<close>,
    which composes them.
  \<^item> \<open>Placement\<close>: \<open>placement.rs\<close>, \<open>placement/audio.rs\<close>, \<open>placement/device.rs\<close>, \<open>site.rs\<close>,
    \<open>glasses_placement.rs\<close>. \<open>Lan\<close>: \<open>placement/lan.rs\<close>. \<open>Router\<close>: \<open>router.rs\<close>, \<open>provider.rs\<close>.
    \<open>Catalog\<close>: \<open>catalog.rs\<close>, \<open>eval_site.rs\<close>, \<open>audio_provider.rs\<close>, \<open>midi_provider.rs\<close>,
    \<open>midi_live_eval_site.rs\<close>. \<open>ConfigProbe\<close>: \<open>config_probe.rs\<close>.
  \<^item> \<open>Consent\<close>: \<open>watch.rs\<close>, \<open>glasses.rs\<close>. \<open>Wire\<close>: the checks of fields and kinds the device crates
    share. \<open>Sessions\<close>: the two session traits, one caller's call at a time.
  \<^item> Halo: \<open>HaloFrame\<close> (\<open>lua_render.rs\<close>, \<open>frame_budget.rs\<close>), \<open>HaloSamples\<close> (\<open>sample.rs\<close>, \<open>ble.rs\<close>,
    \<open>relay.rs\<close>), \<open>HaloSession\<close> (\<open>provider.rs\<close>, \<open>stub.rs\<close>). Wristbridge: \<open>WatchEvents\<close> (\<open>event.rs\<close>,
    \<open>import.rs\<close>), \<open>WatchSession\<close> (\<open>command.rs\<close>, \<open>ble.rs\<close>, \<open>relay.rs\<close>, \<open>zepp.rs\<close>, \<open>bringup.rs\<close>,
    \<open>session.rs\<close>, \<open>stub.rs\<close>). VITURE: \<open>Viture\<close> (\<open>device_control.rs\<close>, \<open>vio.rs\<close>, \<open>provider.rs\<close>).
    \<open>Cameras\<close>: both \<open>camera.rs\<close> files; \<open>CameraRuns\<close>: sequences of their calls and of sweeps on one store.
  \<^item> \<open>Tooling\<close>: \<open>xtask/src/tooling.rs\<close>, \<open>xtask/src/main.rs\<close>.

  \<^bold>\<open>How state and errors are kept.\<close> A method that takes \<open>&mut self\<close> answers its result and the changed
  state, on every path: a failing call shows what it has changed before it failed. \<open>Err\<close> and \<open>Ok\<close> are
  the two sides of a sum. A panic (an index out of bounds, checked arithmetic, \<open>expect\<close>) is \<open>None\<close>,
  so a theorem that a call returns says that it does not panic. Integers have the width of the source;
  \<open>usize\<close> is 64 bits. Error texts are lists of literal and displayed parts. Strings are lists of the
  characters of Isabelle's \<open>char\<close>, so non-Latin text is outside the model.

  \<^bold>\<open>Interfaces.\<close> \<open>ordered_map\<close> is interpreted on the association lists that model \<open>BTreeMap\<close>.
  \<open>channel_impl\<close> says when steps implement a bounded drop-newest channel, and is interpreted on the
  ring. \<open>effect_session\<close> says that only authorized requests get receipts, and is interpreted on the
  fake session; \<open>logged_session\<close> adds that receipts are numbered by what was sent, is a sublocale of
  \<open>effect_session\<close>, and is interpreted on the Halo, watch and VITURE sessions. \<open>host_backend\<close> says that a
  backend opens only what it enumerates, and is interpreted on the fake and the RTP-MIDI backend.
  \<open>row_provider\<close> says that a provider opens the row it lists, and is interpreted on the table
  providers of the catalog.

  \<^bold>\<open>What the lemmas show.\<close>

  \<^item> The ring and the store have an abstract reading (a bounded channel, a list of frames oldest
    first), and every operation is shown to do to the reading what it should; runs of operations then
    follow by induction over the calls.
  \<^item> Authority: the check of a descriptor is characterised exactly, no session gives a receipt without
    it, and no open gets through without the capabilities and the recorded effects; a run of opens
    leaves exactly the trace of its opened streams in the ledger, and a run of provider loads adds
    only declared sites of libraries that were loaded with the capability.
  \<^item> Sessions: runs of arbitrary calls are described completely for each device, from the invariant of
    one call, by the cases of one step.
  \<^item> Encoders and decoders: what is encoded decodes to itself, within the bounds stated, and what is
    accepted has exactly the declared fields of their types.
  \<^item> Consent: gates and sweeps are characterised exactly, and a store that cameras fill and the host
    sweeps in any order holds only pictures someone consented to; this theory joins them with the providers
    that produce the samples, and the catalog with the libraries that fill it and the probe that reads it.

  \<^bold>\<open>Loops.\<close> No fuel is used. The three \<open>while\<close> loops are recursive functions with termination proofs by
  the length of the queue or of the ring, and \<open>Loops\<close> shows that the same loops written as
  \<open>while_option\<close> stop there. Loops over a collection are structural recursion.

  \<^bold>\<open>External code.\<close> What is not in this repository is an argument of the definitions that call it, and
  its documented behaviour is a named hypothesis of the theorems that need it, with an instance that
  satisfies it: the kernel context (\<open>context_ops\<close>), streams, buffers, clocks and their display
  (\<open>core_ops\<close> with \<open>core_laws\<close>, \<open>stream_ops\<close> with \<open>stream_laws\<close>, \<open>lan_ops\<close>), expression accessors
  (\<open>value_ops\<close>, \<open>wire_ops\<close> with \<open>wire_laws\<close>), XR samples and camera references (\<open>xr_ops\<close>, \<open>pose_ops\<close>,
  \<open>camera_ops\<close> with \<open>camera_laws\<close>), the physical VITURE device and its rates (\<open>viture_ops\<close>, \<open>rate_ops\<close>),
  live MIDI sessions (\<open>live_ops\<close>), the consent check of a receipt, the configuration directory, the
  length of a debug rendering, the environment and child process of the tooling launcher, and the iteration order of a \<open>HashMap\<close> (\<open>shuffle\<close>, any permutation).

  \<^bold>\<open>Not modelled.\<close> Crate roots (module lists and re-exports), the two accessors that hand out the halves
  of an external live MIDI session, the data of provider packs, recipes and documents, and the tests. Locking and
  threads do not appear in these sources beyond handles shared through \<open>Arc\<close>, whose stream is the
  external one. Floating-point values are passed on unread, as the sources do.
\<close>

section \<open>Properties that span components\<close>

subsection \<open>From a loaded provider to the configuration probe\<close>

lemma router_inv_add_sites: "router_inv r \<Longrightarrow> router_inv (add_sites owner sites r)"
  unfolding add_sites_def by (induction sites arbitrary: r) (simp_all add: router_inv_insert)

lemma provider_sites_set:
  assumes "router_inv r" "mset (shuffle (bt_values r)) = mset (bt_values r)"
  shows "set (provider_sites_records shuffle r) = router_row_record ` {row. \<exists>k. bt_get r k = Some row}"
proof -
  have "row \<in> set (bt_values r) \<longleftrightarrow> (\<exists>k. bt_get r k = Some row)" for row
    using bt_values_rows(1) [OF assms(1)] assms(1) unfolding router_inv_def by metis
  then have "set (bt_values r) = {row. \<exists>k. bt_get r k = Some row}"
    by blast
  then show ?thesis
    using mset_eq_setD [OF assms(2)] by (simp add: provider_sites_records_def registered_sites_def)
qed

lemma provider_catalog_rows:
  "catalog_enumerate (register_provider_sites shuffle r (default_modeled :: 'l catalog)) =
     Ok (modeled_midi_records @ modeled_audio_records @ provider_sites_records shuffle r)"
proof -
  have "(register_provider_sites shuffle r default_modeled :: 'l catalog) = table_catalog
      ([(''ModeledMidiProvider'', modeled_midi_records), (''ModeledAudioProvider'', modeled_audio_records)] @
       (if provider_sites_records shuffle r \<noteq> [] then [(''ProviderAudioSites'', provider_sites_records shuffle r)] else []))"
    by (simp add: register_provider_sites_def default_modeled_tables catalog_register_def table_catalog_def Let_def)
  then show ?thesis
    by (simp add: catalog_enumerate_tables)
qed

text \<open>The names of the libraries whose sites need hardware.\<close>

definition hardware_owners :: "('b, 'st, 'd) router \<Rightarrow> string set" where
  "hardware_owners r = {sym_name (rs_owner row) |row k. bt_get r k = Some row \<and> ac_hardware_required (as_card (rs_site row))}"

lemma modeled_rows:
  "dr_placement ` set (filter (\<lambda>r. dr_kind r = AudioKind) (modeled_midi_records @ modeled_audio_records)) = {Modeled}"
  "dr_placement ` set (filter (\<lambda>r. dr_kind r = MidiKind) (modeled_midi_records @ modeled_audio_records)) = {Modeled}"
  by code_simp+

lemma router_row_record_sel:
  "dr_kind (router_row_record row) = AudioKind"
  "dr_placement (router_row_record row) =
     (if ac_hardware_required (as_card (rs_site row)) then Hardware (rs_owner row) else Modeled)"
  by (simp_all add: router_row_record_def audio_from_card_def Let_def)

lemma hardware_rows:
  "Hardware t \<in> dr_placement ` (router_row_record ` rows) \<longleftrightarrow>
     (\<exists>row \<in> rows. ac_hardware_required (as_card (rs_site row)) \<and> rs_owner row = t)"
  unfolding image_image router_row_record_sel by (auto simp: image_iff split: if_splits)

text \<open>What the hardware names of a catalog are, once its rows of a kind are known.\<close>

lemma hardware_names:
  assumes "catalog_enumerate c = Ok (modeled_midi_records @ modeled_audio_records @ rows)"
    and "dr_placement ` set (filter (\<lambda>r. dr_kind r = kind) (modeled_midi_records @ modeled_audio_records)) = {Modeled}"
    and "transports = {sym_name t |t. Hardware t \<in> dr_placement ` set (filter (\<lambda>r. dr_kind r = kind) rows)}"
  shows "\<exists>names. backend_names kind False c = Ok names \<and> distinct names \<and> set names = transports"
proof -
  have "dr_placement ` set (filter (\<lambda>r. dr_kind r = kind) ((modeled_midi_records @ modeled_audio_records) @ rows)) =
      {Modeled} \<union> dr_placement ` set (filter (\<lambda>r. dr_kind r = kind) rows)"
    by (simp only: filter_append [of _ "modeled_midi_records @ modeled_audio_records"] set_append image_Un assms(2))
  then show ?thesis
    using backend_names_exact [OF assms(1) refl refl, of kind False] assms(3) by auto
qed

lemma provider_candidates:
  assumes "router_inv r" "mset (shuffle (bt_values r)) = mset (bt_values r)"
  shows "\<exists>audio. audio_hardware_names (register_provider_sites shuffle r (default_modeled :: 'l catalog)) = Ok audio \<and>
      midi_hardware_names (register_provider_sites shuffle r (default_modeled :: 'l catalog)) = Ok [] \<and>
      distinct audio \<and> set audio = hardware_owners r"
proof -
  let ?c = "register_provider_sites shuffle r (default_modeled :: 'l catalog)"
  let ?rows = "provider_sites_records shuffle r"
  have rows: "catalog_enumerate ?c = Ok (modeled_midi_records @ modeled_audio_records @ ?rows)"
    by (rule provider_catalog_rows)
  have set: "set ?rows = router_row_record ` {row. \<exists>k. bt_get r k = Some row}"
    by (rule provider_sites_set) (rule assms)+
  have kinds: "dr_kind x = AudioKind" if "x \<in> set ?rows" for x
    using that by (auto simp: set router_row_record_sel)
  then have audio: "filter (\<lambda>x. dr_kind x = AudioKind) ?rows = ?rows"
    and midi: "filter (\<lambda>x. dr_kind x = MidiKind) ?rows = []"
    by (auto simp: filter_id_conv filter_empty_conv)
  have "{sym_name t |t. Hardware t \<in> dr_placement ` set ?rows} = hardware_owners r"
    unfolding set hardware_rows hardware_owners_def by blast
  then obtain names where "backend_names AudioKind False ?c = Ok names" "distinct names" "set names = hardware_owners r"
    using hardware_names [OF rows modeled_rows(1) refl]
    unfolding audio by (simp only:) (elim exE conjE, rule that)
  then have "audio_hardware_names ?c = Ok names" "distinct names" "set names = hardware_owners r"
    by (simp_all only: audio_hardware_names_def)
  moreover have "midi_hardware_names ?c = Ok []"
    using hardware_names [OF rows modeled_rows(2) refl]
    unfolding midi_hardware_names_def midi by simp
  ultimately show ?thesis
    by blast
qed

lemma hardware_owners_add:
  assumes "distinct (map as_key sites)" "list_all (\<lambda>site. bt_get r (as_key site) = None) sites"
  shows "hardware_owners (add_sites owner sites r) = hardware_owners r \<union>
    {sym_name owner |site. site \<in> set sites \<and> ac_hardware_required (as_card site)}" (is "?new = ?old \<union> ?added")
proof (intro equalityI subsetI)
  fix name
  assume "name \<in> ?new"
  then obtain row k where row: "bt_get (add_sites owner sites r) k = Some row"
      "ac_hardware_required (as_card (rs_site row))" "name = sym_name (rs_owner row)"
    unfolding hardware_owners_def by blast
  show "name \<in> ?old \<union> ?added"
  proof (cases "bt_get r k")
    case None
    from add_sites_new [OF assms(1) None row(1)] row(2,3) show ?thesis
      by auto
  next
    case (Some old)
    from add_sites_keeps [OF assms Some] row have "bt_get r k = Some row"
      using Some by simp
    with row(2,3) show ?thesis
      unfolding hardware_owners_def by blast
  qed
next
  fix name
  assume "name \<in> ?old \<union> ?added"
  then show "name \<in> ?new"
  proof
    assume "name \<in> ?old"
    then obtain row k where "bt_get r k = Some row" "ac_hardware_required (as_card (rs_site row))"
        "name = sym_name (rs_owner row)"
      unfolding hardware_owners_def by blast
    with add_sites_keeps [OF assms] show ?thesis
      unfolding hardware_owners_def by blast
  next
    assume "name \<in> ?added"
    then obtain site where site: "site \<in> set sites" "ac_hardware_required (as_card site)" "name = sym_name owner"
      by blast
    have "rs_site \<lparr>rs_owner = owner, rs_site = site\<rparr> = site" "rs_owner \<lparr>rs_owner = owner, rs_site = site\<rparr> = owner"
      by simp_all
    with site add_sites_mem [OF assms(1) site(1), of owner r] show ?thesis
      unfolding hardware_owners_def mem_Collect_eq by metis
  qed
qed

text \<open>What a successful load has done to the router.\<close>

lemma load_into_adds:
  assumes "load_into ops load_lib entries source r cx = (Ok (), r', cx')"
  shows "\<exists>m entry. fst (load_lib source cx) = Ok m \<and> bt_get entries (lm_id m) = Some entry \<and>
    r' = add_sites (lm_id m) (fst entry) r \<and> distinct (map as_key (fst entry)) \<and>
    list_all (\<lambda>site. bt_get r (as_key site) = None) (fst entry)"
proof -
  obtain m where m: "fst (load_lib source cx) = Ok m" "register_provider_lib m entries r = (Ok (), r')"
    using assms by (auto simp: load_into_def Let_def split: sum.splits prod.splits)
  from register_provider_lib_rows [OF m(2)] m(1) show ?thesis
    by (auto simp: list_all_iff)
qed

text \<open>
  C18. A provider that is loaded becomes a candidate of the configuration. When a load succeeds, the
  catalog built from the router and probed in real mode offers a layer whose audio candidates are
  exactly the names, each once, of the libraries that own a site needing hardware: those of before
  the load, and the loaded library when one of the sites it registered needs hardware. The MIDI candidates
  are none, because the built-in rows are modeled.
\<close>
theorem loaded_provider_probed:
  assumes "load_into ops load_lib entries source r cx = (Ok (), r', cx')" and "router_inv r"
    and "\<And>rows. mset (shuffle rows) = mset rows" and "\<And>lib table. \<exists>d. dir_one lib (EMap table) = Some d"
    and "pr_lib req = stream_host_lib" "pr_mode req = RealProbe" "pr_hardware_inventory req"
  shows "\<exists>m entry audio l report. fst (load_lib source cx) = Ok m \<and> bt_get entries (lm_id m) = Some entry \<and>
    probe dir_one display (register_provider_sites shuffle r' (default_modeled :: 'l catalog)) req = Some (Some l, report) \<and>
    dir_one stream_host_lib (stream_host_table audio []) = Some (cl_dir l) \<and> distinct audio \<and>
    set audio = hardware_owners r \<union>
      {sym_name (lm_id m) |site. site \<in> set (fst entry) \<and> ac_hardware_required (as_card site)}"
proof -
  let ?c = "register_provider_sites shuffle r' (default_modeled :: 'l catalog)"
  obtain m entry where m: "fst (load_lib source cx) = Ok m" "bt_get entries (lm_id m) = Some entry"
      "r' = add_sites (lm_id m) (fst entry) r" "distinct (map as_key (fst entry))"
      "list_all (\<lambda>site. bt_get r (as_key site) = None) (fst entry)"
    using load_into_adds [OF assms(1)] by (elim exE conjE) (rule that)
  have "router_inv r'"
    unfolding m(3) by (rule router_inv_add_sites [OF assms(2)])
  then have "\<exists>audio. audio_hardware_names ?c = Ok audio \<and> midi_hardware_names ?c = Ok [] \<and>
      distinct audio \<and> set audio = hardware_owners r'"
    by (rule provider_candidates) (rule assms(3))
  then obtain audio where audio: "audio_hardware_names ?c = Ok audio" "midi_hardware_names ?c = Ok []"
      "distinct audio" "set audio = hardware_owners r'"
    by (elim exE conjE) (rule that)
  obtain table where table: "stream_host_table audio [] = EMap table"
    using stream_host_table_keys by blast
  obtain d where d: "dir_one stream_host_lib (EMap table) = Some d"
    using assms(4) by blast
  have "probe_serves req" "probe_reads ?c req audio []"
    using assms(5-7) audio(1,2) by (simp_all add: probe_serves_def probe_reads_def)
  from probe_reading [OF this, of dir_one display] table d
  have "\<exists>l report. probe dir_one display ?c req = Some (Some l, report) \<and>
      dir_one stream_host_lib (stream_host_table audio []) = Some (cl_dir l)"
    by auto
  with m(1,2) audio(3,4) hardware_owners_add [OF m(4,5), of "lm_id m"] show ?thesis
    unfolding m(3) by (elim exE conjE) (intro exI conjI, assumption+, simp)
qed

definition hardware_site :: "symbol \<Rightarrow> (usize, demo_stream, nat) audio_site" where
  "hardware_site s = (native_site s)\<lparr>as_card := (audio_card_modeled (AudioSiteKey s) ''native'')\<lparr>ac_hardware_required := True\<rparr>\<rparr>"

definition demo_entries :: "(symbol, (usize, demo_stream, nat) audio_site list \<times> unit result) btree" where
  "demo_entries = proof_entries_insert (symbol_new ''lib'')
     ([hardware_site (symbol_qualified ''audio/site'' ''a'')], Ok ()) proof_entries_new"

abbreviation demo_load :: "unit result \<times> (usize, demo_stream, nat) router \<times> demo_cx" where
  "demo_load \<equiv> load_into demo_ops (\<lambda>_ cx. (Ok demo_manifest, cx)) demo_entries () router_new
      \<lparr>dc_grants = [''audio.provider.native''], dc_next = 0, dc_ledger = []\<rparr>"

lemma demo_load_succeeds: "\<exists>r' cx'. demo_load = (Ok (), r', cx')"
proof -
  obtain out r' cx' where load: "demo_load = (out, r', cx')"
    by (cases demo_load)
  then have "out = Ok ()"
    by (auto simp: load_into_def demo_ops_def native_audio_provider_capability_def demo_entries_def hardware_site_def
        register_provider_lib_def exports_from_manifest_def demo_manifest_def proof_entry_def
        proof_entries_insert_def proof_entries_new_def btree.laws run_entry_def registrar_for_provider_def
        register_site_def native_site_def register_owned_def router_new_def registrar_finish_def Let_def)
  with load show ?thesis
    by blast
qed

theorem loaded_provider_probed_witness:
  "\<exists>r' cx' audio l report. load_into demo_ops (\<lambda>_ cx. (Ok demo_manifest, cx)) demo_entries () router_new
      \<lparr>dc_grants = [''audio.provider.native''], dc_next = 0, dc_ledger = []\<rparr> = (Ok (), r', cx') \<and>
    probe (\<lambda>lib table. Some table) (\<lambda>_. []) (register_provider_sites (\<lambda>rows. rows) r' (default_modeled :: nat catalog))
      \<lparr>pr_lib = stream_host_lib, pr_mode = RealProbe, pr_hardware_inventory = True\<rparr> = (Some (Some l, report)) \<and>
    cl_dir l = stream_host_table audio [] \<and> set audio = {''lib''}"
proof -
  let ?req = "\<lparr>pr_lib = stream_host_lib, pr_mode = RealProbe, pr_hardware_inventory = True\<rparr>"
  obtain r' cx' where load: "demo_load = (Ok (), r', cx')"
    using demo_load_succeeds by blast
  have accepts: "\<And>lib table. \<exists>d. (\<lambda>lib table. Some table) (lib :: symbol) (EMap table) = Some d"
    by simp
  have none: "hardware_owners (router_new :: (usize, demo_stream, nat) router) = {}"
    by (simp add: hardware_owners_def router_new_def btree.laws)
  have entry: "bt_get demo_entries (lm_id demo_manifest) = Some ([hardware_site (symbol_qualified ''audio/site'' ''a'')], Ok ())"
    by (simp add: demo_entries_def proof_entries_insert_def demo_manifest_def btree.laws)
  have hw: "ac_hardware_required (as_card (hardware_site s))" for s
    by (simp add: hardware_site_def)
  from loaded_provider_probed [where dir_one = "\<lambda>lib table. Some table" and display = "\<lambda>_. []"
      and shuffle = "\<lambda>rows. rows" and req = ?req and ?'l = nat, OF load router_inv_new refl accepts
        probe_request.select_convs(1) probe_request.select_convs(2) probe_request.select_convs(3) [THEN iffD2, OF TrueI]]
  obtain m entry audio l report where run: "Ok demo_manifest = (Ok m :: lib_manifest result)" "bt_get demo_entries (lm_id m) = Some entry"
    "probe (\<lambda>lib table. Some table) (\<lambda>_. [])
      (register_provider_sites (\<lambda>rows. rows) r' (default_modeled :: nat catalog)) ?req = Some (Some l, report)"
    "Some (stream_host_table audio []) = Some (cl_dir l)"
    "set audio = hardware_owners (router_new :: (usize, demo_stream, nat) router) \<union>
      {sym_name (lm_id m) |site. site \<in> set (fst entry) \<and> ac_hardware_required (as_card site)}"
    by (simp only: fst_conv) (elim exE conjE, rule that)
  have m: "m = demo_manifest"
    using run(1) by simp
  have "set audio = {''lib''}"
    using run(2) entry hw unfolding run(5) none m by (auto simp: demo_manifest_def)
  moreover have "cl_dir l = stream_host_table audio []"
    using run(4) by simp
  ultimately show ?thesis
    using load run(3) by blast
qed

subsection \<open>From an imported export to the watch gate\<close>

text \<open>
  C17. What a session over an import hands out, the watch gate lets in by sensor. A run of the session,
  whatever is called, polls the events of the export in order from the first; each of them decodes to
  itself, and the gate lets it in exactly when the kernel grants the class of its sensor, the receipt is
  of the session and the grants show that class: location for positions and routes, microphone for
  audio, health for every other sensor. So without the location grant no position leaves.
\<close>
theorem imported_run_gated:
  assumes "wire_laws wv" and "wp_source p = WatchImport source" and "watch_open_session wv p = Ok s"
    and "run_steps (session_step (watch_ops wv debug_len)) calls s = Some (outs, s')"
    and "import_events wv source = Ok events" and "length events < 2 ^ 63"
  shows "(\<exists>n. List.map_filter polled_sample outs = map (worn_event_expr wv) (take n events)) \<and>
    (\<forall>ev \<in> set events. worn_event_from_expr wv (worn_event_expr wv ev) = Ok ev \<and>
      (\<exists>sensor \<in> set import_sensors. we_sensor ev = symbol_qualified ''stream/worn-sensor'' sensor \<and>
        (\<forall>c. require_watch_worn_ingest (value_ops.truncate wv) ops cx (worn_event_expr wv ev) grants receipt_session session = Ok c \<longleftrightarrow>
          c = (if sensor = ''gps'' \<or> sensor = ''route'' then WatchLocation
               else if sensor = ''mic-audio'' then WatchMic else WatchHealth) \<and>
          cx_require ops cx (watch_as_str c) = Ok () \<and> receipt_session = session \<and>
          watch_as_str c \<in> as_qualified_str ` set grants)))"
proof (intro conjI ballI)
  have "ws_events s = map (worn_event_expr wv) events"
    using assms(2,3,5) by (auto simp: watch_open_session_Ok watch_session_new_def route_source_def)
  with watch_run_log [OF assms(1,4)] have "List.map_filter polled_sample outs @ ws_events s' = map (worn_event_expr wv) events"
    by simp
  then have "List.map_filter polled_sample outs = take (length (List.map_filter polled_sample outs)) (map (worn_event_expr wv) events)"
    by (metis append_eq_conv_conj)
  then show "\<exists>n. List.map_filter polled_sample outs = map (worn_event_expr wv) (take n events)"
    by (metis take_map)
next
  fix ev
  assume "ev \<in> set events"
  then obtain i where i: "i < length events" "events ! i = ev"
    by (auto simp: in_set_conv_nth)
  note ingest = imported_events_ingest [OF assms(1,5,6) i(1), unfolded i(2)]
  then show "worn_event_from_expr wv (worn_event_expr wv ev) = Ok ev"
    by simp
  from ingest obtain sensor where sensor: "sensor \<in> set import_sensors" "we_sensor ev = symbol_qualified ''stream/worn-sensor'' sensor"
      "watch_capability_for_worn_event (value_ops.truncate wv) (worn_event_expr wv ev) =
        Ok (if sensor = ''gps'' \<or> sensor = ''route'' then WatchLocation
            else if sensor = ''mic-audio'' then WatchMic else WatchHealth)"
    by (elim conjE bexE) (rule that)
  show "\<exists>sensor \<in> set import_sensors. we_sensor ev = symbol_qualified ''stream/worn-sensor'' sensor \<and>
      (\<forall>c. require_watch_worn_ingest (value_ops.truncate wv) ops cx (worn_event_expr wv ev) grants receipt_session session = Ok c \<longleftrightarrow>
        c = (if sensor = ''gps'' \<or> sensor = ''route'' then WatchLocation
             else if sensor = ''mic-audio'' then WatchMic else WatchHealth) \<and>
        cx_require ops cx (watch_as_str c) = Ok () \<and> receipt_session = session \<and>
        watch_as_str c \<in> as_qualified_str ` set grants)"
    by (rule bexI [OF _ sensor(1)]) (auto simp only: sensor(2,3) watch_gate_Ok sum.inject)
qed

definition demo_import_events :: "worn_event list" where
  "demo_import_events = number_events 0 (export_rows demo_wire demo_export)"

lemma demo_import:
  "import_events demo_wire demo_export = Ok demo_import_events"
  "\<exists>first second. demo_import_events = [first, second] \<and> we_sensor second = symbol_qualified ''stream/worn-sensor'' ''gps''"
  "watch_open_session demo_wire (watch_provider_new (WatchImport demo_export)) =
     Ok (watch_session_new demo_wire ImportRoute demo_import_events watch_device_profile)"
proof -
  show import: "import_events demo_wire demo_export = Ok demo_import_events"
    unfolding parse_export_eq demo_import_events_def by (simp add: demo_rows)
  show "\<exists>first second. demo_import_events = [first, second] \<and> we_sensor second = symbol_qualified ''stream/worn-sensor'' ''gps''"
    by (simp add: demo_import_events_def demo_rows)
  show "watch_open_session demo_wire (watch_provider_new (WatchImport demo_export)) =
     Ok (watch_session_new demo_wire ImportRoute demo_import_events watch_device_profile)"
    using import by (simp add: watch_open_session_Ok watch_provider_new_def proven_def required_proof_def route_source_def)
qed

theorem imported_run_gated_witness:
  "\<exists>s outs s' e. watch_open_session demo_wire (watch_provider_new (WatchImport demo_export)) = Ok s \<and>
     run_steps (session_step (watch_ops demo_wire (\<lambda>_. 0))) [PollSession worn_event_kind, PollSession worn_event_kind] s = Some (outs, s') \<and>
     outs ! 1 = Polled (Ok (Some e)) \<and>
     (\<forall>c. require_watch_worn_ingest (value_ops.truncate demo_wire) demo_ops
        \<lparr>dc_grants = [''watch/health''], dc_next = 0, dc_ledger = []\<rparr> e [watch_health_grant] (symbol_new ''s'') (symbol_new ''s'') \<noteq> Ok c)"
proof -
  let ?p = "watch_provider_new (WatchImport demo_export)"
  let ?cx = "\<lparr>dc_grants = [''watch/health''], dc_next = 0, dc_ledger = []\<rparr> :: demo_cx"
  let ?calls = "[PollSession worn_event_kind, PollSession worn_event_kind]"
  obtain first second where events: "demo_import_events = [first, second]"
      "we_sensor second = symbol_qualified ''stream/worn-sensor'' ''gps''"
    using demo_import(2) by blast
  define s where "s = watch_session_new demo_wire ImportRoute demo_import_events watch_device_profile"
  have source: "wp_source ?p = WatchImport demo_export"
    by (simp add: watch_provider_new_def)
  have opened: "watch_open_session demo_wire ?p = Ok s"
    unfolding s_def by (rule demo_import(3))
  obtain s' where run: "run_steps (session_step (watch_ops demo_wire (\<lambda>_. 0))) ?calls s =
      Some ([Polled (Ok (Some (worn_event_expr demo_wire first))), Polled (Ok (Some (worn_event_expr demo_wire second)))], s')"
    by (simp add: watch_ops_def watch_poll_def s_def watch_session_new_def events)
  have short: "length demo_import_events < 2 ^ 63"
    by (simp add: events)
  from imported_run_gated [OF demo_wire_laws source opened run demo_import(1) short, of demo_ops ?cx "[watch_health_grant]"
      "symbol_new ''s''" "symbol_new ''s''"]
  obtain sensor where "we_sensor second = symbol_qualified ''stream/worn-sensor'' sensor"
      "\<forall>c. require_watch_worn_ingest (value_ops.truncate demo_wire) demo_ops ?cx (worn_event_expr demo_wire second)
         [watch_health_grant] (symbol_new ''s'') (symbol_new ''s'') = Ok c \<longleftrightarrow>
       c = (if sensor = ''gps'' \<or> sensor = ''route'' then WatchLocation
            else if sensor = ''mic-audio'' then WatchMic else WatchHealth) \<and>
       cx_require demo_ops ?cx (watch_as_str c) = Ok () \<and> symbol_new ''s'' = symbol_new ''s'' \<and>
       watch_as_str c \<in> as_qualified_str ` set [watch_health_grant]"
    unfolding events(1) by auto
  then have "require_watch_worn_ingest (value_ops.truncate demo_wire) demo_ops ?cx (worn_event_expr demo_wire second)
      [watch_health_grant] (symbol_new ''s'') (symbol_new ''s'') \<noteq> Ok c" for c
    using events(2) by (cases c) (simp_all add: demo_ops_def symbol_qualified_def)
  with opened run show ?thesis
    by (intro exI [of _ s] exI [of _ s'] exI conjI) (assumption | simp)+
qed

subsection \<open>From a camera to the retention sweep\<close>

lemma store_glasses_frame_key:
  "store_glasses_frame va c ref_id val receipt tick size_bytes store = (Ok (key, evicted), store1) \<Longrightarrow> key = StoreKey ref_id"
  by (auto simp: store_glasses_frame_def Let_def and_then_eq_Ok split: prod.splits)

lemma file_camera_files:
  assumes "file_camera va co with_consent cx receipt session name ref key payload nbytes tick store = (Ok (sample, evicted), store1)"
  shows "co_frame_key co sample = key \<and>
    store_glasses_frame va GlassesCamera key payload receipt tick nbytes store = (Ok (StoreKey key, evicted), store1)"
  using assms store_glasses_frame_key [of va GlassesCamera key payload receipt tick nbytes store]
  by (auto simp: file_camera_def split: sum.splits prod.splits if_splits)

text \<open>
  C14. The reference a camera hands out resolves until the consent it was filed under ends, and no
  longer. Right after filing, the content of the reference is in the store; after a sweep it is still
  there exactly when, among the receipts swept with, the first glasses receipt with the session and the
  number of the filing one retains at least the frame's age; otherwise this sweep reports it evicted.
  So dropping the receipt removes the picture at the next sweep.
\<close>
theorem camera_reference_retained:
  assumes "store_inv store"
    and "pull_halo_camera_once va ds co with_consent cx receipt session pull tick store = (Ok (sample, evicted), store1) \<or>
      store_viture_camera_frame va co with_consent cx receipt session frame tick store = (Ok (sample, evicted), store1)"
    and "sweep_glasses_retention receipts now hz store1 = (swept, store2)"
  shows "store_contains (StoreKey (co_frame_key co sample)) store1 \<and> store_inv store2 \<and>
    (store_contains (StoreKey (co_frame_key co sample)) store2 \<longleftrightarrow>
      (\<exists>r. find (\<lambda>r. (\<exists>g \<in> set (cr_grants r). sym_namespace g = Some ''glasses'') \<and>
              cr_session r = cr_session receipt \<and> cr_seq r = cr_seq receipt) receipts = Some r \<and>
           elapsed_ms now tick hz \<le> cr_retain_ms r)) \<and>
    (StoreKey (co_frame_key co sample) \<in> se_key ` set swept \<longleftrightarrow>
      \<not> store_contains (StoreKey (co_frame_key co sample)) store2)"
proof -
  obtain payload nbytes where "store_glasses_frame va GlassesCamera (co_frame_key co sample) payload receipt tick nbytes store =
      (Ok (StoreKey (co_frame_key co sample), evicted), store1)"
    using assms(2) unfolding pull_halo_camera_once_def store_viture_camera_frame_def
    by (elim disjE) (drule file_camera_files, auto)+
  from glasses_frame_retained [OF assms(1) this assms(3)] show ?thesis
    by simp
qed

theorem camera_reference_retained_witness:
  "\<exists>sample evicted store1. store_viture_camera_frame demo_values demo_camera demo_check (symbol_new ''s'')
       (demo_receipt [glasses_camera_grant]) (symbol_new ''s'') \<lparr>vf_seq = 0, vf_camera = StereoVio, vf_frame_key = symbol_new ''f'',
         vf_size_px = (8, 8), vf_t_ns = 0, vf_payload = ENil, vf_size_bytes = 3\<rparr> 0 demo_store = (Ok (sample, evicted), store1) \<and>
     store_contains (StoreKey (symbol_new ''f'')) (snd (sweep_glasses_retention [demo_receipt [glasses_camera_grant]] 1 1 store1)) \<and>
     \<not> store_contains (StoreKey (symbol_new ''f'')) (snd (sweep_glasses_retention [] 1 1 store1))"
proof -
  let ?receipt = "demo_receipt [glasses_camera_grant]"
  let ?frame = "\<lparr>vf_seq = 0, vf_camera = StereoVio, vf_frame_key = symbol_new ''f'',
         vf_size_px = (8, 8), vf_t_ns = 0, vf_payload = ENil, vf_size_bytes = 3\<rparr> :: viture_frame"
  let ?file = "store_viture_camera_frame demo_values demo_camera demo_check (symbol_new ''s'') ?receipt (symbol_new ''s'') ?frame 0 demo_store"
  have "3 \<le> cs_max_bytes demo_store"
    by (simp add: demo_store_def)
  from store_glasses_frame_ok [OF demo_store_inv this] obtain evicted store1
    where filed: "store_glasses_frame demo_values GlassesCamera (symbol_new ''f'') ENil ?receipt 0 3 demo_store =
      (Ok (StoreKey (symbol_new ''f''), evicted), store1)"
    by blast
  obtain sample where sample: "viture_frame_ref demo_camera ?frame = Ok sample" "co_frame_key demo_camera sample = symbol_new ''f''"
      "require_glasses_sample_ingest demo_values demo_check (symbol_new ''s'') (co_expr demo_camera sample) ?receipt (symbol_new ''s'') = Ok GlassesCamera"
    by (simp add: viture_frame_ref_def demo_camera_def require_glasses_sample_ingest_def glasses_capability_for_sample_def
        demo_values_def glasses_symbol_capability_def device_sample_kind_symbol_def require_glasses_consent_def demo_check_def)
  have run: "?file = (Ok (sample, evicted), store1)"
    using sample filed by (simp add: store_viture_camera_frame_def file_camera_def)
  note retained = camera_reference_retained [OF demo_store_inv disjI2 [OF run] prod.collapse [symmetric], unfolded sample(2)]
  show ?thesis
    using run retained [of "[?receipt]" 1 1] retained [of "[]" 1 1]
    by (intro exI conjI) (assumption | simp add: demo_receipt_def glasses_camera_grant_def glasses_grant_symbol_def elapsed_ms_def sat_sub_def sat_mul_def)+
qed

end
